(* ===== verification/Prelude.thy ===== *)
theory Prelude
  imports Main
begin

text \<open>
  Shared vocabulary of the development: the collections of rewrite rules the component
  theories feed, JavaScript's truthiness on the optional strings the code tests with
  \<open>!x\<close> and \<open>x || d\<close>, and the list idiom \<open>xs.filter((_, i) => i !== k)\<close> that the
  client uses to remove one element by index, with its characterisation by
  \<open>take\<close>/\<open>drop\<close>.
\<close>

named_theorems js_simps "evaluation rules for the JavaScript built-ins the code calls"
named_theorems route_simps "evaluation rules for the Express routing model"

type_synonym js_string = string
  \<comment> \<open>a JavaScript string; \<open>None\<close> of a \<open>js_string option\<close> is \<open>undefined\<close>/\<open>null\<close>\<close>

subsection \<open>Truthiness\<close>

text \<open>
  \<open>!token\<close> holds for \<open>undefined\<close> and for the empty string; \<open>x || d\<close> yields \<open>d\<close>
  for those values. A value that may be absent is an option.
\<close>

fun js_truthy_str :: "js_string option \<Rightarrow> bool" where
  "js_truthy_str None = False"
| "js_truthy_str (Some s) = (s \<noteq> [])"

fun js_or_str :: "js_string option \<Rightarrow> js_string \<Rightarrow> js_string" where
  "js_or_str v d = (if js_truthy_str v then the v else d)"

lemma js_truthy_str_iff [simp, js_simps]:
  "js_truthy_str v \<longleftrightarrow> (\<exists>s. v = Some s \<and> s \<noteq> [])"
  by (cases v) auto

lemma js_or_str_Some [simp, js_simps]: "s \<noteq> [] \<Longrightarrow> js_or_str (Some s) d = s"
  by simp

lemma js_or_str_falsy [simp, js_simps]: "js_or_str None d = d" "js_or_str (Some []) d = d"
  by simp_all

declare js_or_str.simps [simp del]

subsection \<open>Removing the element at an index\<close>

text \<open>
  \<open>xs.filter((_, i) => i !== k)\<close>: keep every element whose position differs from
  \<open>k\<close>. Positions are paired with the elements as \<open>Array.prototype.filter\<close> passes them.
\<close>

definition remove_index :: "nat \<Rightarrow> 'a list \<Rightarrow> 'a list" where
  "remove_index k xs = map snd (filter (\<lambda>(i, _). i \<noteq> k) (enumerate 0 xs))"

lemma remove_index_from:
  "map snd (filter (\<lambda>(i, _). i \<noteq> k) (enumerate n xs)) =
   (if k < n then xs else take (k - n) xs @ drop (Suc (k - n)) xs)"
proof (induction xs arbitrary: n)
  case Nil
  then show ?case by simp
next
  case (Cons x xs)
  consider "k < n" | "k = n" | "n < k" by linarith
  then show ?case
  proof cases
    case 1
    then show ?thesis using Cons.IH [of "Suc n"] by simp
  next
    case 2
    then show ?thesis using Cons.IH [of "Suc n"] by simp
  next
    case 3
    then have "k - n = Suc (k - Suc n)" by simp
    with 3 show ?thesis using Cons.IH [of "Suc n"] by simp
  qed
qed

lemma remove_index_take_drop [simp]:
  "remove_index k xs = take k xs @ drop (Suc k) xs"
  using remove_index_from [of k 0 xs] by (simp add: remove_index_def)

lemma length_remove_index_le: "length (remove_index k xs) \<le> length xs"
  by simp

lemma length_remove_index:
  "k < length xs \<Longrightarrow> length (remove_index k xs) = length xs - 1"
  by simp

lemma set_remove_index_subset: "set (remove_index k xs) \<subseteq> set xs"
  by (auto dest: in_set_takeD in_set_dropD)

lemma set_remove_index_keeps:
  assumes "k < length xs" and "x \<in> set xs" and "x \<noteq> xs ! k"
  shows "x \<in> set (remove_index k xs)"
proof -
  have "xs = take k xs @ xs ! k # drop (Suc k) xs" using assms(1) by (simp add: id_take_nth_drop)
  then have "set xs = set (take k xs) \<union> {xs ! k} \<union> set (drop (Suc k) xs)"
    by (metis Un_insert_right insert_is_Un set_append set_simps(2) sup_commute)
  with assms(2,3) show ?thesis by auto
qed

subsection \<open>\<open>Promise.all\<close>\<close>

text \<open>
  \<open>Promise.all(ps)\<close> over promises that have settled: it resolves with the values in
  the order of \<open>ps\<close> when all resolved, and rejects when one rejected. The rejection
  reason is the first one in time; the model takes the first in list order, which is the
  same reason whenever the callers ignore it or all reasons agree.
\<close>

fun promise_all :: "('e + 'a) list \<Rightarrow> 'e + 'a list" where
  "promise_all [] = Inr []"
| "promise_all (Inl e # _) = Inl e"
| "promise_all (Inr a # xs) = (case promise_all xs of Inl e \<Rightarrow> Inl e | Inr as \<Rightarrow> Inr (a # as))"

lemma promise_all_eq:
  "promise_all xs = (case find isl xs of Some x \<Rightarrow> Inl (projl x) | None \<Rightarrow> Inr (map projr xs))"
  by (induction xs rule: promise_all.induct) (auto split: option.splits sum.splits)

end
