(* ===== verification/JsNumber.thy ===== *)
theory JsNumber
  imports Prelude
begin

text \<open>
  The JavaScript number operations the client form relies on
  (\<open>src/client/src/pages/CreateListing.jsx\<close>): \<open>parseInt(value)\<close> in \<open>handleChange\<close>,
  the comparison \<open>formData.regularPrice < formData.discountPrice\<close> in
  \<open>handleSubmit\<close>, and the decimal rendering of a number, \<open>String(n)\<close>, which is the
  text a number input shows. Every number of the form comes from \<open>parseInt\<close> or an
  integer literal, so it is a double with an integer value, an infinity, or \<open>NaN\<close>:
  \<open>JNum i\<close> is the double whose value is the integer \<open>i\<close> (only integers a double can
  hold occur), \<open>PosInf\<close> and \<open>NegInf\<close> the infinities. Negative zero is not
  distinguished from zero: \<open><\<close>, \<open>JSON.stringify\<close> and \<open>String\<close> treat them alike.
  \<open>parseInt\<close> follows ECMAScript's algorithm with the radix argument absent: leading
  white space is skipped, one sign is read, a \<open>0x\<close>/\<open>0X\<close> prefix selects radix 16,
  the longest prefix of digits of the radix is read, no digit at all gives \<open>NaN\<close>, and
  the integer read is converted to the nearest double (\<open>number_value\<close>), an infinity
  beyond the largest.
\<close>

datatype jsnum = JNum int | NaN | PosInf | NegInf

text \<open>
  The relational operator \<open><\<close> on numbers: false whenever an operand is \<open>NaN\<close>,
  \<open>-Infinity\<close> below and \<open>Infinity\<close> above every other number.
\<close>

fun js_less :: "jsnum \<Rightarrow> jsnum \<Rightarrow> bool" where
  "js_less (JNum a) (JNum b) = (a < b)"
| "js_less NegInf (JNum _) = True"
| "js_less NegInf PosInf = True"
| "js_less (JNum _) PosInf = True"
| "js_less _ _ = False"

subsection \<open>The Number value of an integer\<close>

text \<open>
  ECMAScript's \<open>\<^bold>F(x)\<close> for an integer \<open>x\<close>: round to nearest, ties to even, at 53
  significant bits; a magnitude that rounds to \<open>2^1024\<close> or more is an infinity.
\<close>

fun bit_len :: "nat \<Rightarrow> nat" where
  "bit_len n = (if n = 0 then 0 else Suc (bit_len (n div 2)))"

declare bit_len.simps [simp del]

definition round_double :: "nat \<Rightarrow> nat" where
  "round_double m =
     (let s = bit_len m - 53; q = m div 2 ^ s; r = m mod 2 ^ s; h = 2 ^ s div 2
      in (if h < r \<or> (r = h \<and> 0 < s \<and> odd q) then q + 1 else q) * 2 ^ s)"

definition number_value :: "int \<Rightarrow> jsnum" where
  "number_value i =
     (let v = round_double (nat \<bar>i\<bar>)
      in if 2 ^ 1024 \<le> v then (if i < 0 then NegInf else PosInf) else JNum (sgn i * int v))"

subsection \<open>parseInt\<close>

definition js_ws :: "char \<Rightarrow> bool" where
  "js_ws c \<longleftrightarrow> c \<in> {CHR 0x09, CHR 0x0A, CHR 0x0B, CHR 0x0C, CHR 0x0D, CHR 0x20}"

definition digit_val :: "char \<Rightarrow> nat option" where
  "digit_val c =
     (let k = (of_char c :: nat) in
      if 48 \<le> k \<and> k \<le> 57 then Some (k - 48)
      else if 97 \<le> k \<and> k \<le> 122 then Some (k - 87)
      else if 65 \<le> k \<and> k \<le> 90 then Some (k - 55)
      else None)"

fun radix_digits :: "nat \<Rightarrow> string \<Rightarrow> nat list" where
  "radix_digits R [] = []"
| "radix_digits R (c # cs) =
     (case digit_val c of
        Some d \<Rightarrow> if d < R then d # radix_digits R cs else []
      | None \<Rightarrow> [])"

definition digits_value :: "nat \<Rightarrow> nat list \<Rightarrow> nat" where
  "digits_value R ds = foldl (\<lambda>acc d. acc * R + d) 0 ds"

definition strip_sign :: "string \<Rightarrow> int \<times> string" where
  "strip_sign S =
     (case S of
        [] \<Rightarrow> (1, [])
      | c # r \<Rightarrow> if c = CHR ''-'' then (-1, r) else if c = CHR ''+'' then (1, r) else (1, S))"

definition strip_radix_prefix :: "string \<Rightarrow> nat \<times> string" where
  "strip_radix_prefix S =
     (case S of
        c0 # cx # r \<Rightarrow>
          if c0 = CHR ''0'' \<and> (cx = CHR ''x'' \<or> cx = CHR ''X'') then (16, r) else (10, S)
      | _ \<Rightarrow> (10, S))"

definition parseInt :: "string \<Rightarrow> jsnum" where
  "parseInt s =
     (let (sign, S) = strip_sign (dropWhile js_ws s);
          (R, S') = strip_radix_prefix S;
          Z = radix_digits R S'
      in if Z = [] then NaN else number_value (sign * int (digits_value R Z)))"

subsection \<open>Decimal rendering\<close>

fun dec_digits :: "nat \<Rightarrow> nat list" where
  "dec_digits n = (if n < 10 then [n] else dec_digits (n div 10) @ [n mod 10])"

declare dec_digits.simps [simp del]

definition digit_char :: "nat \<Rightarrow> char" where
  "digit_char d = char_of (48 + d)"

definition dec_string :: "nat \<Rightarrow> string" where
  "dec_string n = map digit_char (dec_digits n)"

text \<open>
  \<open>String(n)\<close> of an integer-valued number below \<open>10^21\<close> in magnitude is its decimal
  form; from \<open>10^21\<close> on JavaScript writes the shortest digits with an exponent, which
  \<open>js_toString\<close> does not model (the client converts only identifiers and messages,
  which the server sends as strings).
\<close>

definition js_toString :: "int \<Rightarrow> string" where
  "js_toString i = (if i < 0 then CHR ''-'' # dec_string (nat (- i)) else dec_string (nat i))"

subsection \<open>Facts about the pieces\<close>

lemma dec_digits_lt: "d \<in> set (dec_digits n) \<Longrightarrow> d < 10"
proof (induction n rule: dec_digits.induct)
  case (1 n)
  then show ?case
    by (cases "n < 10") (auto simp: dec_digits.simps [of n])
qed

lemma dec_digits_ne [simp]: "dec_digits n \<noteq> []"
  by (subst dec_digits.simps) simp

lemma dec_string_0: "dec_string 0 = ''0''"
  by (simp add: dec_string_def dec_digits.simps digit_char_def char_of_def bit_simps)

lemma digits_value_snoc: "digits_value R (ds @ [d]) = digits_value R ds * R + d"
  by (simp add: digits_value_def)

lemma digits_value_dec_digits [simp]: "digits_value 10 (dec_digits n) = n"
proof (induction n rule: dec_digits.induct)
  case (1 n)
  show ?case
  proof (cases "n < 10")
    case True
    then show ?thesis by (simp add: dec_digits.simps [of n] digits_value_def)
  next
    case False
    with "1.IH" have "digits_value 10 (dec_digits (n div 10)) = n div 10" by simp
    with False show ?thesis
      by (simp add: dec_digits.simps [of n] digits_value_snoc)
  qed
qed

lemma digit_val_digit_char [simp]: "d < 10 \<Longrightarrow> digit_val (digit_char d) = Some d"
  by (simp add: digit_val_def digit_char_def Let_def)

lemma radix_digits_digit_chars:
  "\<forall>d \<in> set ds. d < 10 \<Longrightarrow> radix_digits 10 (map digit_char ds @ rest) = ds @ radix_digits 10 rest"
  by (induction ds) auto

lemma dec_string_inj:
  assumes "dec_string m = dec_string n"
  shows "m = n"
proof -
  have "radix_digits 10 (dec_string k) = dec_digits k" for k
    using radix_digits_digit_chars [of "dec_digits k" "[]"] dec_digits_lt [of _ k]
    by (simp add: dec_string_def)
  with assms have "dec_digits m = dec_digits n" by metis
  then show ?thesis by (metis digits_value_dec_digits)
qed

lemma bit_len_less: "m < 2 ^ k \<Longrightarrow> bit_len m \<le> k"
proof (induction m arbitrary: k rule: bit_len.induct)
  case (1 n)
  show ?case
  proof (cases "n = 0")
    case False
    with "1.prems" obtain k' where k: "k = Suc k'" by (cases k) auto
    with "1.prems" have "n div 2 < 2 ^ k'" by simp
    with "1.IH" False k show ?thesis by (simp add: bit_len.simps [of n])
  qed (simp add: bit_len.simps)
qed

lemma round_double_small: "m < 2 ^ 53 \<Longrightarrow> round_double m = m"
  using bit_len_less [of m 53] by (simp add: round_double_def)

lemma number_value_small [simp]: "\<bar>i\<bar> < 2 ^ 53 \<Longrightarrow> number_value i = JNum i"
proof -
  assume "\<bar>i\<bar> < 2 ^ 53"
  then have "nat \<bar>i\<bar> < 2 ^ 53" by (simp add: nat_less_iff)
  then show ?thesis by (simp add: number_value_def round_double_small sgn_mult_abs)
qed

end
