(* ===== verification/ListingData.thy ===== *)
theory ListingData
  imports JsNumber
begin

text \<open>
  The listing payload shared by the client form and the server. The client's
  \<open>formData\<close> (\<open>src/client/src/pages/CreateListing.jsx\<close>, \<open>useState({...})\<close>) and
  the server's listing document have the same fields; they differ in what a number is.
  On the client a number field holds whatever \<open>parseInt\<close> returned, an integer-valued
  double, an infinity or \<open>NaN\<close> (\<open>jsnum draft\<close>); a stored listing holds integers
  (\<open>int draft\<close>). JSON carries \<open>NaN\<close> and the infinities as \<open>null\<close>, so a number
  reaches the server as an \<open>int option\<close>. The stored listing extends the draft with the identifier the
  persistence service assigns and the owner reference.
\<close>

record 'n draft =
  imageUrls :: "js_string list"
  name :: js_string
  description :: js_string
  address :: js_string
  type :: js_string
  bedrooms :: 'n
  bathrooms :: 'n
  regularPrice :: 'n
  discountPrice :: 'n
  offer :: bool
  parking :: bool
  furnished :: bool

record listing = "int draft" +
  lid :: js_string
  userRef :: js_string

subsection \<open>The listing invariant\<close>

text \<open>
  The data model's invariant: one to six images, and a discount price strictly below the
  regular price when the listing is an offer.
\<close>

definition valid_draft :: "('n \<Rightarrow> 'n \<Rightarrow> bool) \<Rightarrow> ('n, 'z) draft_scheme \<Rightarrow> bool" where
  "valid_draft lt d \<longleftrightarrow>
     1 \<le> length (imageUrls d) \<and> length (imageUrls d) \<le> 6 \<and>
     (offer d \<longrightarrow> lt (discountPrice d) (regularPrice d))"

abbreviation valid_listing :: "('z) listing_scheme \<Rightarrow> bool" where
  "valid_listing l \<equiv> valid_draft (<) l"

subsection \<open>JSON transfer\<close>

text \<open>
  \<open>JSON.stringify\<close> writes \<open>NaN\<close>, \<open>Infinity\<close> and \<open>-Infinity\<close> as \<open>null\<close>;
  an integer-valued double is written with the digits of its value, which the server
  reads back exactly. The server reads \<open>null\<close> as an
  absent number. \<open>json_num\<close> is what a client number becomes on the wire.
\<close>

fun json_num :: "jsnum \<Rightarrow> int option" where
  "json_num (JNum i) = Some i"
| "json_num NaN = None"
| "json_num PosInf = None"
| "json_num NegInf = None"

definition draft_to_json :: "jsnum draft \<Rightarrow> int option draft" where
  "draft_to_json d =
     \<lparr>imageUrls = imageUrls d, name = name d, description = description d,
      address = address d, type = type d,
      bedrooms = json_num (bedrooms d), bathrooms = json_num (bathrooms d),
      regularPrice = json_num (regularPrice d), discountPrice = json_num (discountPrice d),
      offer = offer d, parking = parking d, furnished = furnished d\<rparr>"

text \<open>
  The server reads a body into a listing draft; a number that arrived as \<open>null\<close>
  cannot be stored as an integer, and the body is rejected.
\<close>

definition draft_of_json :: "int option draft \<Rightarrow> int draft option" where
  "draft_of_json d =
     (case (bedrooms d, bathrooms d, regularPrice d, discountPrice d) of
        (Some bd, Some ba, Some rp, Some dp) \<Rightarrow>
          Some \<lparr>imageUrls = imageUrls d, name = name d, description = description d,
                address = address d, type = type d, bedrooms = bd, bathrooms = ba,
                regularPrice = rp, discountPrice = dp,
                offer = offer d, parking = parking d, furnished = furnished d\<rparr>
      | _ \<Rightarrow> None)"

lemma draft_of_json_to_json:
  "draft_of_json (draft_to_json d) =
     (case (bedrooms d, bathrooms d, regularPrice d, discountPrice d) of
        (JNum bd, JNum ba, JNum rp, JNum dp) \<Rightarrow>
          Some \<lparr>imageUrls = imageUrls d, name = name d, description = description d,
                address = address d, type = type d, bedrooms = bd, bathrooms = ba,
                regularPrice = rp, discountPrice = dp,
                offer = offer d, parking = parking d, furnished = furnished d\<rparr>
      | _ \<Rightarrow> None)"
  by (simp add: draft_of_json_def draft_to_json_def split: jsnum.split)

end
