(* ===== verification/Json.thy ===== *)
theory Json
  imports ListingData
begin

text \<open>
  JSON values as the client's JavaScript sees them after \<open>response.json()\<close> or axios'
  parsing, with the three operations the client code applies to them: property access
  \<open>v.k\<close> (\<open>undefined\<close> is \<open>None\<close>), truthiness in an \<open>if\<close>, and conversion to a
  string in a template literal \<open>`...${v}`\<close>. A stored listing is sent as the object of
  its schema fields (specification, section 3) with its identifier under \<open>_id\<close>; the
  timestamps and the version key that the persistence service adds are left out.
\<close>

datatype json =
    JsonNull
  | JsonBool bool
  | JsonNum int
  | JsonStr js_string
  | JsonArr "json list"
  | JsonObj "(js_string \<times> json) list"

text \<open>
  Property access: on an object the member of that name; on any other value the code's
  keys (\<open>success\<close>, \<open>_id\<close>, \<open>message\<close>, \<open>title\<close>, \<open>description\<close>) are
  \<open>undefined\<close>. The server never sends \<open>null\<close> where the client reads a property.
\<close>

fun json_get :: "json \<Rightarrow> js_string \<Rightarrow> json option" where
  "json_get (JsonObj kvs) k = map_of kvs k"
| "json_get _ k = None"

fun json_truthy :: "json \<Rightarrow> bool" where
  "json_truthy JsonNull = False"
| "json_truthy (JsonBool b) = b"
| "json_truthy (JsonNum n) = (n \<noteq> 0)"
| "json_truthy (JsonStr s) = (s \<noteq> [])"
| "json_truthy (JsonArr _) = True"
| "json_truthy (JsonObj _) = True"

text \<open>
  \<open>String(v)\<close>: an array joins its elements with commas, \<open>null\<close> elements becoming
  empty; an object is \<open>[object Object]\<close>.
\<close>

fun js_join :: "js_string list \<Rightarrow> js_string" where
  "js_join [] = []"
| "js_join [x] = x"
| "js_join (x # xs) = x @ '','' @ js_join xs"

fun json_string :: "json \<Rightarrow> js_string" where
  "json_string JsonNull = ''null''"
| "json_string (JsonBool b) = (if b then ''true'' else ''false'')"
| "json_string (JsonNum n) = js_toString n"
| "json_string (JsonStr s) = s"
| "json_string (JsonArr xs) =
     js_join (map (\<lambda>x. if x = JsonNull then [] else json_string x) xs)"
| "json_string (JsonObj _) = ''[object Object]''"

definition listing_json :: "listing \<Rightarrow> json" where
  "listing_json l =
     JsonObj
       [(''_id'', JsonStr (lid l)),
        (''imageUrls'', JsonArr (map JsonStr (imageUrls l))),
        (''name'', JsonStr (name l)),
        (''description'', JsonStr (description l)),
        (''address'', JsonStr (address l)),
        (''type'', JsonStr (type l)),
        (''bedrooms'', JsonNum (bedrooms l)),
        (''bathrooms'', JsonNum (bathrooms l)),
        (''regularPrice'', JsonNum (regularPrice l)),
        (''discountPrice'', JsonNum (discountPrice l)),
        (''offer'', JsonBool (offer l)),
        (''parking'', JsonBool (parking l)),
        (''furnished'', JsonBool (furnished l)),
        (''userRef'', JsonStr (userRef l))]"

lemma listing_json_get [simp]:
  "json_get (listing_json l) ''_id'' = Some (JsonStr (lid l))"
  "json_get (listing_json l) ''description'' = Some (JsonStr (description l))"
  "json_get (listing_json l) ''title'' = None"
  "json_get (listing_json l) ''success'' = None"
  "json_get (listing_json l) ''message'' = None"
  by (simp_all add: listing_json_def)

lemma listing_json_inj: "listing_json l = listing_json l' \<Longrightarrow> lid l = lid l'"
  by (simp add: listing_json_def)

end
