(* ===== verification/Http.thy ===== *)
theory Http
  imports Json
begin

text \<open>
  The Express request/response model (\<open>src/api/index.js\<close>) shared by the middleware,
  the controllers and the routers: requests after \<open>cookieParser()\<close> has run (the
  body, parsed or rejected by \<open>express.json()\<close>, and the \<open>access_token\<close> cookie are
  fields);
  errors as the objects \<open>errorHandler(statusCode, message)\<close> builds
  (\<open>api/utils/error.js\<close>, not under \<open>src/\<close>); a middleware's three ways of ending
  (\<open>next()\<close>, \<open>next(err)\<close>, sending a response) as the datatype \<open>outcome\<close>; a
  route's handler chain; and the global error handler that turns an error into the JSON
  envelope \<open>{success, statusCode, message}\<close>.
\<close>

datatype http_method = GET | POST | PUT | DELETE | PATCH

record principal =
  user_id :: js_string
  role :: js_string

text \<open>
  A patch is what \<open>POST /update/:id\<close> carries: the listing after the body's fields are
  merged into it.
\<close>

type_synonym patch = "int draft \<Rightarrow> int draft"

text \<open>
  The body as \<open>express.json()\<close> leaves it: absent (or not JSON-typed), a listing draft,
  an update, or a JSON-typed body the parser rejects, with the message of its
  \<open>SyntaxError\<close>.
\<close>

datatype req_body = NoBody | DraftBody "int option draft" | PatchBody patch | BadJson js_string

fun body_parsed :: "req_body \<Rightarrow> bool" where
  "body_parsed (BadJson _) = False"
| "body_parsed _ = True"

record listing_query =
  searchTerm :: "js_string option"
  qtype :: "js_string option"
  qoffer :: "bool option"
  qlimit :: "nat option"
  qstart :: "nat option"

record request =
  req_method :: http_method
  path :: "js_string list"
  access_token :: "js_string option"
  user :: "principal option"
  params :: "js_string list"
  body :: req_body
  query :: listing_query

text \<open>
  A request as it reaches the routers: no principal bound yet, no route parameters, an
  empty query.
\<close>

definition no_query :: listing_query where
  "no_query = \<lparr>searchTerm = None, qtype = None, qoffer = None, qlimit = None, qstart = None\<rparr>"

definition mk_request ::
  "http_method \<Rightarrow> js_string list \<Rightarrow> js_string option \<Rightarrow> req_body \<Rightarrow> listing_query \<Rightarrow> request" where
  "mk_request m p tok b q =
     \<lparr>req_method = m, path = p, access_token = tok, user = None, params = [], body = b, query = q\<rparr>"

text \<open>
  An error object: \<open>statusCode\<close> and \<open>message\<close> may be absent (\<open>undefined\<close>), as on
  an error thrown by a library.
\<close>

record http_error =
  statusCode :: "nat option"
  message :: "js_string option"

definition errorHandler :: "nat \<Rightarrow> js_string \<Rightarrow> http_error" where
  "errorHandler code msg = \<lparr>statusCode = Some code, message = Some msg\<rparr>"

datatype payload =
    ErrorJson bool nat js_string      \<comment> \<open>\<open>{success, statusCode, message}\<close>\<close>
  | ListingJson listing
  | ListingsJson "listing list"
  | MessageJson js_string
  | IndexHtml                       \<comment> \<open>\<open>client/dist/index.html\<close>\<close>
  | CannotRoute http_method "js_string list" \<comment> \<open>Express's default 404 page\<close>

record response =
  status :: nat
  payload :: payload

subsection \<open>Response bodies\<close>

text \<open>
  The JSON text of a response. The global error handler sends
  \<open>{success: false, statusCode, message}\<close>. How a controller wraps a successful result
  is not in the repository: the specification (section 4.3) says every route answers
  with the envelope \<open>{success, statusCode, message|data}\<close> (\<open>Envelope\<close>); controllers
  in the style the client code expects answer with the record, the array or the message
  itself (\<open>Bare\<close>). Properties of the clients are stated for the shape they depend on.
  The client's page and Express's 404 page are HTML, not JSON (\<open>None\<close>).
\<close>

datatype success_shape = Envelope | Bare

definition success_body :: "success_shape \<Rightarrow> json \<Rightarrow> json" where
  "success_body sh j =
     (case sh of
        Envelope \<Rightarrow> JsonObj [(''success'', JsonBool True), (''statusCode'', JsonNum 200), (''data'', j)]
      | Bare \<Rightarrow> j)"

definition payload_json :: "success_shape \<Rightarrow> payload \<Rightarrow> json option" where
  "payload_json sh p =
     (case p of
        ErrorJson b n m \<Rightarrow>
          Some (JsonObj [(''success'', JsonBool b), (''statusCode'', JsonNum (int n)), (''message'', JsonStr m)])
      | ListingJson l \<Rightarrow> Some (success_body sh (listing_json l))
      | ListingsJson ls \<Rightarrow> Some (success_body sh (JsonArr (map listing_json ls)))
      | MessageJson m \<Rightarrow>
          Some (case sh of
                  Envelope \<Rightarrow> JsonObj [(''success'', JsonBool True), (''statusCode'', JsonNum 200),
                                      (''message'', JsonStr m)]
                | Bare \<Rightarrow> JsonStr m)
      | IndexHtml \<Rightarrow> None
      | CannotRoute _ _ \<Rightarrow> None)"

subsection \<open>Middleware and handler chains\<close>

datatype 's outcome = Next request | NextErr http_error | Sent response 's

type_synonym 's handler = "'s \<Rightarrow> request \<Rightarrow> 's outcome"

text \<open>
  A route's handlers run in order; \<open>next()\<close> passes the (possibly updated) request on,
  \<open>next(err)\<close> and a sent response end the chain.
\<close>

fun run_chain :: "'s handler list \<Rightarrow> 's \<Rightarrow> request \<Rightarrow> 's outcome" where
  "run_chain [] s r = Next r"
| "run_chain (h # hs) s r = (case h s r of Next r' \<Rightarrow> run_chain hs s r' | res \<Rightarrow> res)"

lemma run_chain_append:
  "run_chain (hs @ ks) s r =
     (case run_chain hs s r of Next r' \<Rightarrow> run_chain ks s r' | res \<Rightarrow> res)"
  by (induction hs arbitrary: r) (auto split: outcome.splits)

subsection \<open>The global error handler\<close>

text \<open>
  \<open>app.use((err, req, res, next) => ...)\<close> in \<open>index.js\<close>:
  \<open>statusCode = err.statusCode || 500\<close> (so an absent or zero code becomes 500),
  \<open>message = err.message || 'Internal Server Error'\<close>.
\<close>

definition globalErrorHandler :: "http_error \<Rightarrow> response" where
  "globalErrorHandler err =
     (let code = (case statusCode err of Some c \<Rightarrow> if c \<noteq> 0 then c else 500 | None \<Rightarrow> 500);
          msg = js_or_str (message err) ''Internal Server Error''
      in \<lparr>status = code, payload = ErrorJson False code msg\<rparr>)"

lemma globalErrorHandler_errorHandler [simp]:
  "0 < c \<Longrightarrow> msg \<noteq> [] \<Longrightarrow>
   globalErrorHandler (errorHandler c msg) = \<lparr>status = c, payload = ErrorJson False c msg\<rparr>"
  by (simp add: globalErrorHandler_def errorHandler_def)

end
