(* ===== verification/VerifyUser.thy ===== *)
theory VerifyUser
  imports Http
begin

text \<open>
  The authorization gate, \<open>verifyToken\<close> of \<open>src/api/utils/verifyUser.js\<close>. It reads
  the \<open>access_token\<close> cookie; a falsy token (absent or empty) is refused with 401, a
  token that is not the one hard-coded secret with 403, and the secret binds the fixed
  principal \<open>{id: "admin", role: "admin"}\<close> to \<open>req.user\<close> and calls \<open>next()\<close>.
  \<open>verifyToken\<close> returns the error or the updated request; \<open>verifyToken_mw\<close> is the
  same function in the shape of an Express middleware.
\<close>

definition staticToken :: js_string where
  "staticToken = ''7b7d4a8299f196edccda84a070714a095bc3befd8c9feb6ec57a75fd7fc8318b1b4a3b241cea67492e2993d8495d76b0a44b2c734bc2e0691b48a34a48ad794b''"

definition admin_principal :: principal where
  "admin_principal = \<lparr>user_id = ''admin'', role = ''admin''\<rparr>"

definition verifyToken :: "request \<Rightarrow> http_error + request" where
  "verifyToken req =
     (let token = access_token req in
      if \<not> js_truthy_str token then Inl (errorHandler 401 ''Unauthorized'')
      else if token \<noteq> Some staticToken then Inl (errorHandler 403 ''Forbidden'')
      else Inr (req\<lparr>user := Some admin_principal\<rparr>))"

definition verifyToken_mw :: "'s handler" where
  "verifyToken_mw s req = (case verifyToken req of Inl e \<Rightarrow> NextErr e | Inr r \<Rightarrow> Next r)"

lemma staticToken_ne [simp]: "staticToken \<noteq> []"
  by (simp add: staticToken_def)

lemma verifyToken_cases:
  "verifyToken req =
     (case access_token req of
        None \<Rightarrow> Inl (errorHandler 401 ''Unauthorized'')
      | Some t \<Rightarrow>
          if t = [] then Inl (errorHandler 401 ''Unauthorized'')
          else if t = staticToken then Inr (req\<lparr>user := Some admin_principal\<rparr>)
          else Inl (errorHandler 403 ''Forbidden''))"
  by (cases "access_token req") (auto simp: verifyToken_def)

lemma verifyToken_mw_next [simp]:
  "access_token req = Some staticToken \<Longrightarrow>
   verifyToken_mw s req = Next (req\<lparr>user := Some admin_principal\<rparr>)"
  by (simp add: verifyToken_mw_def verifyToken_cases)

lemma verifyToken_mw_err:
  "access_token req \<noteq> Some staticToken \<Longrightarrow> \<exists>e. verifyToken_mw s req = NextErr e"
  by (auto simp: verifyToken_mw_def verifyToken_cases split: option.splits)

subsection \<open>Properties of the gate\<close>

text \<open>
  C1. Only the one static secret passes the gate: \<open>verifyToken\<close> calls \<open>next()\<close>
  exactly when the \<open>access_token\<close> cookie equals the hard-coded token.
\<close>

theorem verifyToken_accepts_iff:
  "(\<exists>req'. verifyToken req = Inr req') \<longleftrightarrow> access_token req = Some staticToken"
  by (auto simp: verifyToken_cases split: option.splits)

text \<open>
  C2. A request that passes the gate differs from the original in one field only: the
  fixed principal \<open>{id: "admin", role: "admin"}\<close> is bound to \<open>req.user\<close>, whoever
  holds the token.
\<close>

theorem verifyToken_binds_admin:
  assumes "verifyToken req = Inr req'"
  shows "user req' = Some \<lparr>user_id = ''admin'', role = ''admin''\<rparr> \<and> req'\<lparr>user := user req\<rparr> = req"
  using assms by (auto simp: verifyToken_cases admin_principal_def split: option.splits if_splits)

theorem verifyToken_binds_admin_witness:
  "verifyToken (mk_request POST [''api'', ''listing'', ''create''] (Some staticToken) NoBody no_query)
     = Inr (mk_request POST [''api'', ''listing'', ''create''] (Some staticToken) NoBody no_query
              \<lparr>user := Some admin_principal\<rparr>) \<and>
   user (mk_request POST [''api'', ''listing'', ''create''] (Some staticToken) NoBody no_query
              \<lparr>user := Some admin_principal\<rparr>) = Some \<lparr>user_id = ''admin'', role = ''admin''\<rparr>"
proof -
  let ?r = "mk_request POST [''api'', ''listing'', ''create''] (Some staticToken) NoBody no_query"
  have ok: "verifyToken ?r = Inr (?r\<lparr>user := Some admin_principal\<rparr>)"
    by (simp add: verifyToken_cases mk_request_def)
  from verifyToken_binds_admin [OF ok] ok show ?thesis by simp
qed

text \<open>
  C3. A refused request ends in the global error handler with status 401 and message
  \<open>Unauthorized\<close> when the token is absent or empty, and with 403 and \<open>Forbidden\<close>
  when a non-empty token is not the secret.
\<close>

theorem verifyToken_refusal_response:
  assumes "verifyToken req = Inl e"
  shows "globalErrorHandler e =
           (if js_truthy_str (access_token req)
            then \<lparr>status = 403, payload = ErrorJson False 403 ''Forbidden''\<rparr>
            else \<lparr>status = 401, payload = ErrorJson False 401 ''Unauthorized''\<rparr>)"
  using assms by (auto simp: verifyToken_cases split: option.splits if_splits)

theorem verifyToken_refusal_response_witness:
  "\<exists>e1 e2 e3.
     verifyToken (mk_request POST [''api'', ''listing'', ''create''] (Some ''guess'') NoBody no_query) = Inl e1 \<and>
     globalErrorHandler e1 = \<lparr>status = 403, payload = ErrorJson False 403 ''Forbidden''\<rparr> \<and>
     verifyToken (mk_request POST [''api'', ''listing'', ''create''] (Some []) NoBody no_query) = Inl e2 \<and>
     globalErrorHandler e2 = \<lparr>status = 401, payload = ErrorJson False 401 ''Unauthorized''\<rparr> \<and>
     verifyToken (mk_request POST [''api'', ''listing'', ''create''] None NoBody no_query) = Inl e3 \<and>
     globalErrorHandler e3 = \<lparr>status = 401, payload = ErrorJson False 401 ''Unauthorized''\<rparr>"
proof -
  let ?r1 = "mk_request POST [''api'', ''listing'', ''create''] (Some ''guess'') NoBody no_query"
  let ?r2 = "mk_request POST [''api'', ''listing'', ''create''] (Some []) NoBody no_query"
  let ?r3 = "mk_request POST [''api'', ''listing'', ''create''] None NoBody no_query"
  have t: "''guess'' \<noteq> staticToken" by (simp add: staticToken_def)
  have e1: "verifyToken ?r1 = Inl (errorHandler 403 ''Forbidden'')"
    using t by (simp add: verifyToken_cases mk_request_def)
  have e2: "verifyToken ?r2 = Inl (errorHandler 401 ''Unauthorized'')"
    by (simp add: verifyToken_cases mk_request_def)
  have e3: "verifyToken ?r3 = Inl (errorHandler 401 ''Unauthorized'')"
    by (simp add: verifyToken_cases mk_request_def)
  from verifyToken_refusal_response [OF e1] verifyToken_refusal_response [OF e2]
    verifyToken_refusal_response [OF e3] e1 e2 e3
  show ?thesis by (simp add: mk_request_def)
qed

end
