(* ===== verification/Listings.thy ===== *)
theory Listings
  imports VerifyUser
begin

text \<open>
  The listing repository operations: the controller functions \<open>createListing\<close>,
  \<open>deleteListing\<close>, \<open>updateListing\<close>, \<open>getListing\<close> and \<open>getListings\<close> that
  \<open>src/api/routes/listing.route.js\<close> and \<open>src/api/routes/admin.route.js\<close> import from
  \<open>api/controllers/listing.controller.js\<close>. That file is not under \<open>src/\<close>; the
  operations follow the specification (sections 4.2 and 7): create validates the
  listing invariant, read-one and update and delete fail with 404 on an absent
  identifier, update and delete require the requester to own the listing except on the
  administrative path, read-many filters, orders newest first, skips and caps.

  The persistence service is an explicit value: the stored listings in creation order
  and the counter from which fresh identifiers are drawn (\<open>dec_string\<close> of the
  counter, so identifiers are distinct decimal strings). Each operation returns the
  \<open>errorHandler\<close> object of its failure or its result and the new store.
\<close>

record store =
  db :: "listing list"
  next_id :: nat

definition mk_listing :: "int draft \<Rightarrow> js_string \<Rightarrow> js_string \<Rightarrow> listing" where
  "mk_listing d i owner = draft.extend d (listing.fields i owner)"

definition find_listing :: "store \<Rightarrow> js_string \<Rightarrow> listing option" where
  "find_listing st i = find (\<lambda>l. lid l = i) (db st)"

definition err_validation :: http_error where
  "err_validation = errorHandler 400 ''ValidationError''"

definition err_not_found :: http_error where
  "err_not_found = errorHandler 404 ''NotFound''"

definition err_forbidden :: http_error where
  "err_forbidden = errorHandler 403 ''Forbidden''"

subsection \<open>Create, read, update, delete\<close>

definition createListing_op ::
  "store \<Rightarrow> js_string \<Rightarrow> int option draft \<Rightarrow> http_error + (listing \<times> store)" where
  "createListing_op st owner b =
     (case draft_of_json b of
        None \<Rightarrow> Inl err_validation
      | Some d \<Rightarrow>
          if \<not> valid_draft (<) d then Inl err_validation
          else let l = mk_listing d (dec_string (next_id st)) owner
               in Inr (l, st\<lparr>db := db st @ [l], next_id := Suc (next_id st)\<rparr>))"

definition getListing_op :: "store \<Rightarrow> js_string \<Rightarrow> http_error + listing" where
  "getListing_op st i = (case find_listing st i of None \<Rightarrow> Inl err_not_found | Some l \<Rightarrow> Inr l)"

definition updateListing_op ::
  "store \<Rightarrow> js_string \<Rightarrow> patch \<Rightarrow> js_string \<Rightarrow> http_error + (listing \<times> store)" where
  "updateListing_op st i p requester =
     (case find_listing st i of
        None \<Rightarrow> Inl err_not_found
      | Some l \<Rightarrow>
          if requester \<noteq> userRef l then Inl err_forbidden
          else let d = p (draft.truncate l) in
            if \<not> valid_draft (<) d then Inl err_validation
            else let l' = mk_listing d (lid l) (userRef l)
                 in Inr (l', st\<lparr>db := map (\<lambda>x. if lid x = i then l' else x) (db st)\<rparr>))"

text \<open>
  \<open>admin_path\<close> is the routing-level policy of the specification: on the administrative
  route the ownership comparison is skipped.
\<close>

definition deleteListing_op ::
  "store \<Rightarrow> js_string \<Rightarrow> js_string option \<Rightarrow> bool \<Rightarrow> http_error + store" where
  "deleteListing_op st i requester admin_path =
     (case find_listing st i of
        None \<Rightarrow> Inl err_not_found
      | Some l \<Rightarrow>
          if \<not> admin_path \<and> requester \<noteq> Some (userRef l) then Inl err_forbidden
          else Inr (st\<lparr>db := filter (\<lambda>x. lid x \<noteq> i) (db st)\<rparr>))"

subsection \<open>Read many\<close>

fun has_infix :: "'a list \<Rightarrow> 'a list \<Rightarrow> bool" where
  "has_infix t [] = (t = [])"
| "has_infix t (c # cs) = (take (length t) (c # cs) = t \<or> has_infix t cs)"

definition default_limit :: nat where
  "default_limit = 9"

definition matches_query :: "listing_query \<Rightarrow> listing \<Rightarrow> bool" where
  "matches_query q l \<longleftrightarrow>
     (case searchTerm q of None \<Rightarrow> True | Some t \<Rightarrow> has_infix t (name l)) \<and>
     (case qtype q of None \<Rightarrow> True | Some t \<Rightarrow> type l = t) \<and>
     (case qoffer q of None \<Rightarrow> True | Some b \<Rightarrow> offer l = b)"

definition getListings_op :: "store \<Rightarrow> listing_query \<Rightarrow> listing list" where
  "getListings_op st q =
     take (case qlimit q of None \<Rightarrow> default_limit | Some n \<Rightarrow> n)
       (drop (case qstart q of None \<Rightarrow> 0 | Some k \<Rightarrow> k)
         (filter (matches_query q) (rev (db st))))"

subsection \<open>The store invariant\<close>

text \<open>
  Identifiers are distinct, each was drawn from the counter before its current value,
  and every stored listing satisfies the listing invariant.
\<close>

definition store_inv :: "store \<Rightarrow> bool" where
  "store_inv st \<longleftrightarrow>
     distinct (map lid (db st)) \<and>
     (\<forall>l \<in> set (db st). valid_listing l \<and> (\<exists>k < next_id st. lid l = dec_string k))"

definition empty_store :: store where
  "empty_store = \<lparr>db = [], next_id = 0\<rparr>"

text \<open>
  Example data: the specification's scenario draft (one image, regular price 100, no
  offer) as a JSON body.
\<close>

definition example_body :: "int option draft" where
  "example_body =
     \<lparr>imageUrls = [''x''], name = ''A'', description = [], address = [], type = ''rent'',
      bedrooms = Some 1, bathrooms = Some 1, regularPrice = Some 100, discountPrice = Some 0,
      offer = False, parking = False, furnished = False\<rparr>"

lemma mk_listing_sel [simp]:
  "lid (mk_listing d i o') = i" "userRef (mk_listing d i o') = o'"
  "draft.truncate (mk_listing d i o') = d"
  by (simp_all add: mk_listing_def draft.defs listing.defs)

lemma valid_mk_listing [simp]: "valid_draft lt (mk_listing d i o') = valid_draft lt d"
  by (simp add: mk_listing_def valid_draft_def draft.defs)

lemma valid_draft_truncate [simp]: "valid_draft lt (draft.truncate l) = valid_draft lt l"
  by (simp add: valid_draft_def draft.defs)

lemma find_listing_Some:
  "find_listing st i = Some l \<Longrightarrow> l \<in> set (db st) \<and> lid l = i"
  by (auto simp: find_listing_def dest: find_Some_iff [THEN iffD1])

lemma find_listing_None: "find_listing st i = None \<longleftrightarrow> i \<notin> lid ` set (db st)"
  by (auto simp: find_listing_def find_None_iff)

lemma store_inv_fresh:
  assumes inv: "store_inv st"
  shows "dec_string (next_id st) \<notin> lid ` set (db st)"
proof
  assume "dec_string (next_id st) \<in> lid ` set (db st)"
  then obtain l where l: "l \<in> set (db st)" "lid l = dec_string (next_id st)" by auto
  with inv obtain k where "k < next_id st" "lid l = dec_string k"
    by (auto simp: store_inv_def)
  with l have "dec_string k = dec_string (next_id st)" by simp
  then have "k = next_id st" by (rule dec_string_inj)
  with \<open>k < next_id st\<close> show False by simp
qed

lemma find_lid_None: "i \<notin> lid ` set xs \<Longrightarrow> find (\<lambda>x. lid x = i) xs = None"
  by (induction xs) auto

lemma find_append_None:
  "find P xs = None \<Longrightarrow> find P (xs @ ys) = find P ys"
  by (induction xs) (auto split: if_splits)

lemma find_filter_other:
  "j \<noteq> i \<Longrightarrow> find (\<lambda>l. lid l = j) (filter (\<lambda>x. lid x \<noteq> i) xs) = find (\<lambda>l. lid l = j) xs"
  by (induction xs) auto

lemma find_filter_same: "find (\<lambda>l. lid l = i) (filter (\<lambda>x. lid x \<noteq> i) xs) = None"
  by (simp add: find_None_iff)

subsection \<open>Each operation keeps the store invariant\<close>

lemma store_inv_empty: "store_inv empty_store"
  by (simp add: store_inv_def empty_store_def)

lemma createListing_inv:
  assumes "store_inv st" and "createListing_op st owner b = Inr (l, st')"
  shows "store_inv st'"
proof -
  from assms(2) obtain d where d: "draft_of_json b = Some d" "valid_draft (<) d"
    and l: "l = mk_listing d (dec_string (next_id st)) owner"
    and st': "st' = st\<lparr>db := db st @ [l], next_id := Suc (next_id st)\<rparr>"
    by (auto simp: createListing_op_def Let_def split: option.splits if_splits)
  have fresh: "lid l \<notin> lid ` set (db st)" using store_inv_fresh [OF assms(1)] l by simp
  show ?thesis
    using assms(1) fresh d l st' by (auto simp: store_inv_def less_Suc_eq)
qed

lemma updateListing_inv:
  assumes "store_inv st" and "updateListing_op st i p r = Inr (l', st')"
  shows "store_inv st'"
proof -
  from assms(2) obtain l where l: "find_listing st i = Some l"
    and v: "valid_draft (<) (p (draft.truncate l))"
    and l': "l' = mk_listing (p (draft.truncate l)) (lid l) (userRef l)"
    and st': "st' = st\<lparr>db := map (\<lambda>x. if lid x = i then l' else x) (db st)\<rparr>"
    by (auto simp: updateListing_op_def Let_def split: option.splits if_splits)
  from l have li: "lid l = i" "l \<in> set (db st)" using find_listing_Some by auto
  have ids: "map lid (map (\<lambda>x. if lid x = i then l' else x) (db st)) = map lid (db st)"
    using l' li by (induction "db st") auto
  have "map lid (db st') = map lid (db st)" using st' ids by simp
  moreover have "\<forall>x \<in> set (db st'). valid_listing x \<and> (\<exists>k < next_id st'. lid x = dec_string k)"
    using assms(1) st' l' li v by (auto simp: store_inv_def)
  ultimately show ?thesis using assms(1) by (simp add: store_inv_def)
qed

lemma deleteListing_inv:
  assumes "store_inv st" and "deleteListing_op st i r a = Inr st'"
  shows "store_inv st'"
  using assms
  by (auto simp: deleteListing_op_def store_inv_def distinct_map_filter
           split: option.splits if_splits)

lemma example_body_json [simp]:
  "draft_of_json example_body =
     Some \<lparr>imageUrls = [''x''], name = ''A'', description = [], address = [], type = ''rent'',
      bedrooms = 1, bathrooms = 1, regularPrice = 100, discountPrice = 0,
      offer = False, parking = False, furnished = False\<rparr>"
  by (simp add: example_body_def draft_of_json_def)

subsection \<open>Properties of the operations\<close>

text \<open>
  Create fails with \<open>ValidationError\<close> (400) exactly when the draft has no image,
  more than six images, or is an offer whose discount price is not below its regular
  price.
\<close>

lemma createListing_rejects_iff:
  assumes "draft_of_json b = Some d"
  shows "createListing_op st owner b = Inl err_validation \<longleftrightarrow>
         (length (imageUrls d) = 0 \<or> 6 < length (imageUrls d) \<or>
          (offer d \<and> regularPrice d \<le> discountPrice d))"
  using assms by (auto simp: createListing_op_def valid_draft_def Let_def not_less Suc_le_eq)

text \<open>
  A successful create stores the submitted draft under a fresh identifier, owned by
  the given owner, appended after the existing listings, and a lookup of the new
  identifier finds it.
\<close>

lemma createListing_result:
  assumes "store_inv st" and "createListing_op st owner b = Inr (l, st')"
  shows "draft_of_json b = Some (draft.truncate l) \<and> userRef l = owner \<and>
         lid l \<notin> lid ` set (db st) \<and> db st' = db st @ [l] \<and>
         find_listing st' (lid l) = Some l"
proof -
  from assms(2) obtain d where d: "draft_of_json b = Some d"
    and l: "l = mk_listing d (dec_string (next_id st)) owner"
    and st': "db st' = db st @ [l]"
    by (auto simp: createListing_op_def Let_def split: option.splits if_splits)
  have fresh: "lid l \<notin> lid ` set (db st)" using store_inv_fresh [OF assms(1)] l by simp
  then have "find (\<lambda>x. lid x = lid l) (db st) = None" by (rule find_lid_None)
  with st' have "find_listing st' (lid l) = Some l" by (simp add: find_listing_def find_append_None)
  with d l st' fresh show ?thesis by simp
qed

text \<open>
  Reading one listing fails with \<open>NotFound\<close> (404) exactly when no stored listing
  has the identifier, and otherwise returns the stored listing with that identifier.
\<close>

lemma getListing_spec:
  "(getListing_op st i = Inl err_not_found \<longleftrightarrow> i \<notin> lid ` set (db st)) \<and>
   (getListing_op st i = Inr l \<longrightarrow> l \<in> set (db st) \<and> lid l = i)"
  by (auto simp: getListing_op_def find_listing_None dest: find_listing_Some
           split: option.splits)

text \<open>
  An update succeeds exactly when the listing exists, the requester is its owner and
  the merged listing satisfies the listing invariant.
\<close>

lemma updateListing_succeeds_iff:
  "(\<exists>res. updateListing_op st i p r = Inr res) \<longleftrightarrow>
   (\<exists>l. find_listing st i = Some l \<and> r = userRef l \<and> valid_draft (<) (p (draft.truncate l)))"
  by (auto simp: updateListing_op_def Let_def split: option.splits)

text \<open>
  A successful delete removes the identifier and changes no other lookup, and off the
  administrative path it happens only for the owner.
\<close>

lemma deleteListing_effect:
  assumes "deleteListing_op st i r admin_path = Inr st'"
  shows "find_listing st' i = None \<and> (\<forall>j. j \<noteq> i \<longrightarrow> find_listing st' j = find_listing st j) \<and>
         (admin_path \<or> (\<exists>l. find_listing st i = Some l \<and> r = Some (userRef l)))"
  using assms
  by (auto simp: deleteListing_op_def find_listing_def find_filter_other find_filter_same
           split: option.splits if_splits)

text \<open>
  Reading many returns at most the requested limit (the default limit when none is
  given), only stored listings, and only listings that match the filter.
\<close>

lemma getListings_bounds:
  "length (getListings_op st q) \<le> (case qlimit q of None \<Rightarrow> default_limit | Some n \<Rightarrow> n) \<and>
   set (getListings_op st q) \<subseteq> set (db st) \<and>
   (\<forall>l \<in> set (getListings_op st q). matches_query q l)"
  by (auto simp: getListings_op_def dest!: in_set_takeD in_set_dropD)

end
