(* ===== verification/Routes.thy ===== *)
theory Routes
  imports Listings
begin

text \<open>
  The HTTP routing layer: the routers of \<open>src/api/routes/listing.route.js\<close> and
  \<open>src/api/routes/admin.route.js\<close> and the application of \<open>src/api/index.js\<close> that
  mounts them. A path is its list of segments (\<open>/api/listing/get/7\<close> is
  \<open>[api, listing, get, 7]\<close>). Express matches a route path segment by segment, ignoring
  ASCII case, a \<open>:id\<close> parameter takes one non-empty segment, and one trailing slash is
  allowed (non-strict routing). A router tries its routes in order and runs the first
  matching route's handler chain; \<open>app.use(prefix, router)\<close> hands the router the path
  after the prefix. The controllers are wrapped as Express handlers that read
  \<open>req.params.id\<close>, \<open>req.user.id\<close>, \<open>req.body\<close> and \<open>req.query\<close>.
\<close>

subsection \<open>Path matching\<close>

definition lower_char :: "char \<Rightarrow> char" where
  "lower_char c = (let k = (of_char c :: nat) in if 65 \<le> k \<and> k \<le> 90 then char_of (k + 32) else c)"

definition seg_eq :: "js_string \<Rightarrow> js_string \<Rightarrow> bool" where
  "seg_eq a x \<longleftrightarrow> map lower_char a = map lower_char x"

datatype seg = Lit js_string | Param

fun match_segs :: "seg list \<Rightarrow> js_string list \<Rightarrow> js_string list option" where
  "match_segs [] [] = Some []"
| "match_segs [] [x] = (if x = [] then Some [] else None)"
| "match_segs (Lit a # ps) (x # xs) = (if seg_eq a x then match_segs ps xs else None)"
| "match_segs (Param # ps) (x # xs) =
     (if x = [] then None else map_option (Cons x) (match_segs ps xs))"
| "match_segs _ _ = None"

fun strip_prefix :: "js_string list \<Rightarrow> js_string list \<Rightarrow> js_string list option" where
  "strip_prefix [] xs = Some xs"
| "strip_prefix (a # as) (x # xs) = (if seg_eq a x then strip_prefix as xs else None)"
| "strip_prefix (a # as) [] = None"

subsection \<open>Controllers as Express handlers\<close>

text \<open>
  Reading \<open>req.user.id\<close> when no principal is bound throws a \<open>TypeError\<close>, which
  Express passes to the error handler: an error without a status code.
\<close>

definition user_type_error :: http_error where
  "user_type_error = \<lparr>statusCode = None, message = Some ''Cannot read properties of undefined (reading 'id')''\<rparr>"

definition param_id :: "request \<Rightarrow> js_string" where
  "param_id req = (case params req of i # _ \<Rightarrow> i | [] \<Rightarrow> [])"

definition ok_json :: "payload \<Rightarrow> response" where
  "ok_json p = \<lparr>status = 200, payload = p\<rparr>"

definition createListing :: "store handler" where
  "createListing st req =
     (case body req of
        DraftBody b \<Rightarrow>
          (case user req of
             None \<Rightarrow> NextErr user_type_error
           | Some u \<Rightarrow>
               (case createListing_op st (user_id u) b of
                  Inl e \<Rightarrow> NextErr e
                | Inr (l, st') \<Rightarrow> Sent (ok_json (ListingJson l)) st'))
      | _ \<Rightarrow> NextErr err_validation)"

definition deleteListing :: "bool \<Rightarrow> store handler" where
  "deleteListing admin_path st req =
     (case deleteListing_op st (param_id req) (map_option user_id (user req)) admin_path of
        Inl e \<Rightarrow> NextErr e
      | Inr st' \<Rightarrow> Sent (ok_json (MessageJson ''Listing has been deleted!'')) st')"

definition updateListing :: "store handler" where
  "updateListing st req =
     (case body req of
        PatchBody p \<Rightarrow>
          (case user req of
             None \<Rightarrow> NextErr user_type_error
           | Some u \<Rightarrow>
               (case updateListing_op st (param_id req) p (user_id u) of
                  Inl e \<Rightarrow> NextErr e
                | Inr (l, st') \<Rightarrow> Sent (ok_json (ListingJson l)) st'))
      | _ \<Rightarrow> NextErr err_validation)"

definition getListing :: "store handler" where
  "getListing st req =
     (case getListing_op st (param_id req) of
        Inl e \<Rightarrow> NextErr e
      | Inr l \<Rightarrow> Sent (ok_json (ListingJson l)) st)"

definition getListings :: "store handler" where
  "getListings st req = Sent (ok_json (ListingsJson (getListings_op st (query req)))) st"

subsection \<open>Routers\<close>

type_synonym route = "http_method \<times> seg list \<times> store handler list"

fun run_router :: "route list \<Rightarrow> store \<Rightarrow> request \<Rightarrow> store outcome" where
  "run_router [] st r = Next r"
| "run_router ((m, pat, hs) # rs) st r =
     (case (if req_method r = m then match_segs pat (path r) else None) of
        None \<Rightarrow> run_router rs st r
      | Some ps \<Rightarrow>
          (case run_chain hs st (r\<lparr>params := ps\<rparr>) of
             Next r' \<Rightarrow> run_router rs st r'
           | res \<Rightarrow> res))"

definition listingRouter :: "route list" where
  "listingRouter =
     [(POST, [Lit ''create''], [verifyToken_mw, createListing]),
      (DELETE, [Lit ''delete'', Param], [verifyToken_mw, deleteListing False]),
      (POST, [Lit ''update'', Param], [verifyToken_mw, updateListing]),
      (GET, [Lit ''get'', Param], [getListing]),
      (GET, [Lit ''get''], [getListings])]"

definition adminRoute :: "route list" where
  "adminRoute =
     [(GET, [Lit ''listings''], [getListings]),
      (DELETE, [Lit ''listings'', Param], [deleteListing True])]"

subsection \<open>The application\<close>

definition mount :: "js_string list \<Rightarrow> route list \<Rightarrow> store handler" where
  "mount pre rs st r =
     (case strip_prefix pre (path r) of
        None \<Rightarrow> Next r
      | Some rest \<Rightarrow>
          (case run_router rs st (r\<lparr>path := rest\<rparr>) of
             Next r' \<Rightarrow> Next (r'\<lparr>path := path r\<rparr>)
           | res \<Rightarrow> res))"

text \<open>
  \<open>app.use(express.json())\<close>: a JSON-typed body that does not parse ends the request
  with the parser's error, status 400, before any router; \<open>cookieParser()\<close> only reads
  the cookie.
\<close>

definition json_parser :: "store handler" where
  "json_parser st r =
     (case body r of
        BadJson msg \<Rightarrow> NextErr \<lparr>statusCode = Some 400, message = Some msg\<rparr>
      | _ \<Rightarrow> Next r)"

text \<open>\<open>app.get('*', ...)\<close>: every GET that no router answered gets the client's page.\<close>

definition catch_all :: "store handler" where
  "catch_all st r = (if req_method r = GET then Sent (ok_json IndexHtml) st else Next r)"

definition app_layers :: "store handler list" where
  "app_layers =
     [json_parser,
      mount [''api'', ''admin''] adminRoute,
      mount [''api'', ''listing''] listingRouter,
      catch_all]"

text \<open>
  The user and auth routers are mounted between the admin and listing routers; their
  files are not part of the repository, and a request under their prefixes is outside
  the model (\<open>None\<close>). Their prefixes are disjoint from the others, so leaving them out
  does not change how any other request is routed. An error reaches the global error
  handler; a request nothing answered gets Express's default 404.
\<close>

definition app_handle :: "store \<Rightarrow> request \<Rightarrow> (response \<times> store) option" where
  "app_handle st req =
     (if strip_prefix [''api'', ''user''] (path req) \<noteq> None \<or>
         strip_prefix [''api'', ''auth''] (path req) \<noteq> None then None
      else Some
        (case run_chain app_layers st req of
           Sent resp st' \<Rightarrow> (resp, st')
         | NextErr e \<Rightarrow> (globalErrorHandler e, st)
         | Next r \<Rightarrow> (\<lparr>status = 404, payload = CannotRoute (req_method req) (path req)\<rparr>, st)))"

text \<open>Example data: a store holding the example listing under identifier \<open>0\<close>.\<close>

definition example_store :: store where
  "example_store = \<lparr>db = [mk_listing (the (draft_of_json example_body)) ''0'' ''admin''], next_id = 1\<rparr>"

subsection \<open>Where a response comes from\<close>

text \<open>
  The origin of a request is what no handler changes on the way through a chain: its
  method, its path and its token. \<open>verifyToken\<close> only binds \<open>req.user\<close>, a router only
  sets \<open>req.params\<close>, a mount restores the path it stripped. A response sent by a chain,
  a router or the application was therefore sent by one of its handlers on a request of
  the same origin.
\<close>

definition same_origin :: "request \<Rightarrow> request \<Rightarrow> bool" where
  "same_origin r r' \<longleftrightarrow>
     req_method r' = req_method r \<and> path r' = path r \<and> access_token r' = access_token r"

definition keeps_origin :: "store handler \<Rightarrow> bool" where
  "keeps_origin h \<longleftrightarrow> (\<forall>st r r'. h st r = Next r' \<longrightarrow> same_origin r r')"

lemma same_origin_refl [simp]: "same_origin r r"
  and same_origin_params [simp]: "same_origin r (r'\<lparr>params := ps\<rparr>) = same_origin r r'"
  and same_origin_user [simp]: "same_origin r (r'\<lparr>user := u\<rparr>) = same_origin r r'"
  by (simp_all add: same_origin_def)

lemma same_origin_trans: "same_origin r r' \<Longrightarrow> same_origin r' r'' \<Longrightarrow> same_origin r r''"
  by (simp add: same_origin_def)

lemma keeps_origin_never_next: "(\<And>st r. \<forall>r'. h st r \<noteq> Next r') \<Longrightarrow> keeps_origin h"
  by (simp add: keeps_origin_def)

lemma run_chain_Next_origin:
  "\<forall>h \<in> set hs. keeps_origin h \<Longrightarrow> run_chain hs st r = Next r' \<Longrightarrow> same_origin r r'"
proof (induction hs arbitrary: r)
  case Nil
  then show ?case by simp
next
  case (Cons h hs)
  then obtain r1 where h: "h st r = Next r1" and t: "run_chain hs st r1 = Next r'"
    by (auto split: outcome.splits)
  from Cons.prems(1) h have "same_origin r r1" by (simp add: keeps_origin_def)
  moreover from Cons.prems(1) t have "same_origin r1 r'" by (intro Cons.IH) simp_all
  ultimately show ?case by (rule same_origin_trans)
qed

lemma run_chain_Sent_origin:
  "\<forall>h \<in> set hs. keeps_origin h \<Longrightarrow> run_chain hs st r = Sent resp st' \<Longrightarrow>
   \<exists>h \<in> set hs. \<exists>r'. same_origin r r' \<and> h st r' = Sent resp st'"
proof (induction hs arbitrary: r)
  case Nil
  then show ?case by simp
next
  case (Cons h hs)
  show ?case
  proof (cases "h st r")
    case (Next r1)
    with Cons.prems have t: "run_chain hs st r1 = Sent resp st'" and o: "same_origin r r1"
      by (auto simp: keeps_origin_def)
    from Cons.prems(1) have "\<forall>h \<in> set hs. keeps_origin h" by simp
    from Cons.IH [OF this t] obtain h' r' where
      "h' \<in> set hs" "same_origin r1 r'" "h' st r' = Sent resp st'" by blast
    with o show ?thesis by (meson list.set_intros(2) same_origin_trans)
  next
    case (NextErr e)
    with Cons.prems show ?thesis by simp
  next
    case (Sent x y)
    with Cons.prems show ?thesis by force
  qed
qed

definition routes_keep_origin :: "route list \<Rightarrow> bool" where
  "routes_keep_origin rs \<longleftrightarrow> (\<forall>(m, pat, hs) \<in> set rs. \<forall>h \<in> set hs. keeps_origin h)"

lemma routes_keep_origin_Nil [simp]: "routes_keep_origin []"
  by (simp add: routes_keep_origin_def)

lemma routes_keep_origin_Cons [simp]:
  "routes_keep_origin ((m, pat, hs) # rs) \<longleftrightarrow> (\<forall>h \<in> set hs. keeps_origin h) \<and> routes_keep_origin rs"
  by (simp add: routes_keep_origin_def)

lemma run_router_Next_origin:
  "routes_keep_origin rs \<Longrightarrow> run_router rs st r = Next r' \<Longrightarrow> same_origin r r'"
proof (induction rs arbitrary: r)
  case Nil
  then show ?case by simp
next
  case (Cons rt rs)
  obtain m pat hs where rt: "rt = (m, pat, hs)" by (cases rt)
  show ?case
  proof (cases "if req_method r = m then match_segs pat (path r) else None")
    case None
    with Cons rt show ?thesis by simp
  next
    case (Some ps)
    with Cons.prems rt obtain r1 where
      c: "run_chain hs st (r\<lparr>params := ps\<rparr>) = Next r1" and n: "run_router rs st r1 = Next r'"
      by (auto split: outcome.splits)
    from Cons.prems rt have "\<forall>h \<in> set hs. keeps_origin h" by simp
    from run_chain_Next_origin [OF this c] have "same_origin r r1"
      by (simp add: same_origin_def)
    moreover from Cons.prems(1) rt n have "same_origin r1 r'" by (intro Cons.IH) simp_all
    ultimately show ?thesis by (rule same_origin_trans)
  qed
qed

lemma run_router_Sent_origin:
  "routes_keep_origin rs \<Longrightarrow> run_router rs st r = Sent resp st' \<Longrightarrow>
   \<exists>(m, pat, hs) \<in> set rs. m = req_method r \<and> match_segs pat (path r) \<noteq> None \<and>
     (\<exists>h \<in> set hs. \<exists>r'. same_origin r r' \<and> h st r' = Sent resp st')"
proof (induction rs arbitrary: r)
  case Nil
  then show ?case by simp
next
  case (Cons rt rs)
  obtain m pat hs where rt: "rt = (m, pat, hs)" by (cases rt)
  from Cons.prems rt have hs: "\<forall>h \<in> set hs. keeps_origin h" and rs: "routes_keep_origin rs"
    by simp_all
  show ?case
  proof (cases "if req_method r = m then match_segs pat (path r) else None")
    case None
    with Cons rt show ?thesis by (auto split: if_splits)
  next
    case (Some ps)
    then have m: "m = req_method r" and mt: "match_segs pat (path r) = Some ps"
      by (auto split: if_splits)
    show ?thesis
    proof (cases "run_chain hs st (r\<lparr>params := ps\<rparr>)")
      case (Next r1)
      with Cons.prems rt Some have n: "run_router rs st r1 = Sent resp st'" by simp
      from run_chain_Next_origin [OF hs Next] have o: "same_origin r r1"
        by (simp add: same_origin_def)
      from Cons.IH [OF rs n] obtain m' pat' hs' h r' where
        mem: "(m', pat', hs') \<in> set rs" and "m' = req_method r1"
        and "match_segs pat' (path r1) \<noteq> None" and "h \<in> set hs'"
        and "same_origin r1 r'" and "h st r' = Sent resp st'" by blast
      with o have "m' = req_method r \<and> match_segs pat' (path r) \<noteq> None \<and>
          (\<exists>h \<in> set hs'. \<exists>r'. same_origin r r' \<and> h st r' = Sent resp st')"
        by (auto simp: same_origin_def)
      with mem show ?thesis by force
    next
      case (NextErr e)
      with Cons.prems rt Some show ?thesis by simp
    next
      case (Sent x y)
      with Cons.prems rt Some have "run_chain hs st (r\<lparr>params := ps\<rparr>) = Sent resp st'" by simp
      from run_chain_Sent_origin [OF hs this] m mt rt show ?thesis
        by (auto simp: same_origin_def)
    qed
  qed
qed

lemma run_router_Sent_chain:
  "routes_keep_origin rs \<Longrightarrow> run_router rs st r = Sent resp st' \<Longrightarrow>
   \<exists>(m, pat, hs) \<in> set rs. m = req_method r \<and> match_segs pat (path r) \<noteq> None \<and>
     (\<exists>r'. same_origin r r' \<and> run_chain hs st r' = Sent resp st')"
proof (induction rs arbitrary: r)
  case Nil
  then show ?case by simp
next
  case (Cons rt rs)
  obtain m pat hs where rt: "rt = (m, pat, hs)" by (cases rt)
  from Cons.prems rt have hs: "\<forall>h \<in> set hs. keeps_origin h" and rs: "routes_keep_origin rs"
    by simp_all
  show ?case
  proof (cases "if req_method r = m then match_segs pat (path r) else None")
    case None
    with Cons rt show ?thesis by (auto split: if_splits)
  next
    case (Some ps)
    then have m: "m = req_method r" and mt: "match_segs pat (path r) = Some ps"
      by (auto split: if_splits)
    show ?thesis
    proof (cases "run_chain hs st (r\<lparr>params := ps\<rparr>)")
      case (Next r1)
      with Cons.prems rt Some have n: "run_router rs st r1 = Sent resp st'" by simp
      from run_chain_Next_origin [OF hs Next] have o: "same_origin r r1"
        by (simp add: same_origin_def)
      from Cons.IH [OF rs n] obtain m' pat' hs' r' where
        mem: "(m', pat', hs') \<in> set rs" and "m' = req_method r1"
        and "match_segs pat' (path r1) \<noteq> None"
        and "same_origin r1 r'" and "run_chain hs' st r' = Sent resp st'" by blast
      with o have "m' = req_method r \<and> match_segs pat' (path r) \<noteq> None \<and>
          (\<exists>r'. same_origin r r' \<and> run_chain hs' st r' = Sent resp st')"
        by (auto simp: same_origin_def)
      with mem show ?thesis by force
    next
      case (NextErr e)
      with Cons.prems rt Some show ?thesis by simp
    next
      case (Sent x y)
      with Cons.prems rt Some have "run_chain hs st (r\<lparr>params := ps\<rparr>) = Sent resp st'" by simp
      with m mt rt show ?thesis by force
    qed
  qed
qed

lemma mount_Sent:
  "mount pre rs st r = Sent resp st' \<Longrightarrow>
   \<exists>rest. strip_prefix pre (path r) = Some rest \<and> run_router rs st (r\<lparr>path := rest\<rparr>) = Sent resp st'"
  by (auto simp: mount_def split: option.splits outcome.splits)

lemma keeps_origin_mount [intro]: "routes_keep_origin rs \<Longrightarrow> keeps_origin (mount pre rs)"
  unfolding keeps_origin_def
proof (intro allI impI)
  fix st r r'
  assume rs: "routes_keep_origin rs" and n: "mount pre rs st r = Next r'"
  show "same_origin r r'"
  proof (cases "strip_prefix pre (path r)")
    case None
    with n show ?thesis by (simp add: mount_def)
  next
    case (Some rest)
    with n obtain r1 where r1: "run_router rs st (r\<lparr>path := rest\<rparr>) = Next r1"
      and r': "r' = r1\<lparr>path := path r\<rparr>"
      by (auto simp: mount_def split: outcome.splits)
    from run_router_Next_origin [OF rs r1] r' show ?thesis by (simp add: same_origin_def)
  qed
qed

subsection \<open>The handlers of the application\<close>

lemma controllers_never_next [simp]:
  "createListing st r \<noteq> Next r'" "deleteListing a st r \<noteq> Next r'"
  "updateListing st r \<noteq> Next r'" "getListing st r \<noteq> Next r'" "getListings st r \<noteq> Next r'"
  by (auto simp: createListing_def deleteListing_def updateListing_def getListing_def
      getListings_def split: req_body.splits option.splits sum.splits prod.splits)

lemma keeps_origin_handlers [intro, simp]:
  "keeps_origin verifyToken_mw" "keeps_origin createListing" "keeps_origin (deleteListing a)"
  "keeps_origin updateListing" "keeps_origin getListing" "keeps_origin getListings"
  "keeps_origin catch_all" "keeps_origin json_parser"
  by (auto simp: keeps_origin_def verifyToken_mw_def verifyToken_cases catch_all_def json_parser_def
      split: sum.splits option.splits if_splits req_body.splits)

lemma routes_keep_origin_routers [simp]:
  "routes_keep_origin listingRouter" "routes_keep_origin adminRoute"
  by (simp_all add: listingRouter_def adminRoute_def routes_keep_origin_def)

lemma app_layers_keep_origin: "\<forall>h \<in> set app_layers. keeps_origin h"
  by (auto simp: app_layers_def)

lemma guarded_chain_Sent:
  "run_chain (verifyToken_mw # hs) st r = Sent resp st' \<Longrightarrow> access_token r = Some staticToken"
  by (auto simp: verifyToken_mw_def verifyToken_cases split: option.splits if_splits)

lemma read_only_Sent [dest]:
  "getListing st r = Sent resp st' \<Longrightarrow> st' = st"
  "getListings st r = Sent resp st' \<Longrightarrow> st' = st"
  "catch_all st r = Sent resp st' \<Longrightarrow> st' = st"
  by (auto simp: getListing_def getListings_def catch_all_def split: sum.splits if_splits)

lemma listingRouter_no_token:
  assumes "run_router listingRouter st r = Sent resp st'" and "access_token r \<noteq> Some staticToken"
  shows "st' = st"
proof -
  from run_router_Sent_chain [OF routes_keep_origin_routers(1) assms(1)] obtain m pat hs r'
    where mem: "(m, pat, hs) \<in> set listingRouter" and o: "same_origin r r'"
      and c: "run_chain hs st r' = Sent resp st'" by blast
  from o assms(2) have tok: "access_token r' \<noteq> Some staticToken" by (simp add: same_origin_def)
  from mem c tok show ?thesis
    by (auto simp: listingRouter_def split: outcome.splits dest: guarded_chain_Sent)
qed

lemma adminRoute_changes:
  assumes "run_router adminRoute st r = Sent resp st'" and "st' \<noteq> st"
  shows "req_method r = DELETE \<and> match_segs [Lit ''listings'', Param] (path r) \<noteq> None"
proof -
  from run_router_Sent_chain [OF routes_keep_origin_routers(2) assms(1)] obtain m pat hs r'
    where mem: "(m, pat, hs) \<in> set adminRoute" and "m = req_method r"
      and "match_segs pat (path r) \<noteq> None" and c: "run_chain hs st r' = Sent resp st'" by blast
  with assms(2) show ?thesis
    by (auto simp: adminRoute_def split: outcome.splits)
qed

subsection \<open>What a handler's response guarantees, lifted to the application\<close>

definition sent_ok :: "(store \<Rightarrow> response \<Rightarrow> store \<Rightarrow> bool) \<Rightarrow> store handler \<Rightarrow> bool" where
  "sent_ok P h \<longleftrightarrow> (\<forall>st r resp st'. h st r = Sent resp st' \<longrightarrow> P st resp st')"

lemma sent_ok_mount:
  assumes "routes_keep_origin rs" and "\<forall>(m, pat, hs) \<in> set rs. \<forall>h \<in> set hs. sent_ok P h"
  shows "sent_ok P (mount pre rs)"
  unfolding sent_ok_def
proof (intro allI impI)
  fix st r resp st'
  assume "mount pre rs st r = Sent resp st'"
  then obtain rest where "run_router rs st (r\<lparr>path := rest\<rparr>) = Sent resp st'"
    by (blast dest: mount_Sent)
  from run_router_Sent_origin [OF assms(1) this] assms(2)
  show "P st resp st'" by (fastforce simp: sent_ok_def)
qed

lemma sent_ok_chain:
  "\<forall>h \<in> set hs. keeps_origin h \<Longrightarrow> \<forall>h \<in> set hs. sent_ok P h \<Longrightarrow>
   run_chain hs st r = Sent resp st' \<Longrightarrow> P st resp st'"
  by (fastforce simp: sent_ok_def dest: run_chain_Sent_origin)

text \<open>
  A response a handler sends is never an error envelope, and it keeps the store
  invariant: the property every handler of the application has.
\<close>

definition good_send :: "store \<Rightarrow> response \<Rightarrow> store \<Rightarrow> bool" where
  "good_send st resp st' \<longleftrightarrow>
     (store_inv st \<longrightarrow> store_inv st') \<and> (\<forall>s c m. payload resp \<noteq> ErrorJson s c m)"

lemma good_send_handlers:
  "sent_ok good_send verifyToken_mw" "sent_ok good_send createListing"
  "sent_ok good_send (deleteListing a)" "sent_ok good_send updateListing"
  "sent_ok good_send getListing" "sent_ok good_send getListings" "sent_ok good_send catch_all"
  "sent_ok good_send json_parser"
  by (auto simp: sent_ok_def good_send_def verifyToken_mw_def createListing_def
      deleteListing_def updateListing_def getListing_def getListings_def catch_all_def ok_json_def json_parser_def
      dest: createListing_inv deleteListing_inv updateListing_inv
      split: sum.splits option.splits req_body.splits if_splits prod.splits)

lemma good_send_app:
  "run_chain app_layers st req = Sent resp st' \<Longrightarrow> good_send st resp st'"
proof -
  have "\<forall>h \<in> set app_layers. sent_ok good_send h"
    by (auto simp: app_layers_def good_send_handlers listingRouter_def adminRoute_def
        intro!: sent_ok_mount)
  then show "run_chain app_layers st req = Sent resp st' \<Longrightarrow> good_send st resp st'"
    using app_layers_keep_origin by (blast intro: sent_ok_chain)
qed

text \<open>
  Identifiers only come from the counter: a response leaves the counter at least where it
  was, and every identifier of the new store was stored before or is drawn from the
  counter at or above its old value.
\<close>

definition ids_grow :: "store \<Rightarrow> response \<Rightarrow> store \<Rightarrow> bool" where
  "ids_grow st resp st' \<longleftrightarrow>
     next_id st \<le> next_id st' \<and>
     (\<forall>l \<in> set (db st'). lid l \<in> lid ` set (db st) \<or> (\<exists>k. next_id st \<le> k \<and> lid l = dec_string k))"

lemma ids_grow_ops:
  "createListing_op st o' b = Inr (l, st') \<Longrightarrow> ids_grow st resp st'"
  "updateListing_op st i p r = Inr (l, st') \<Longrightarrow> ids_grow st resp st'"
  "deleteListing_op st i r' a = Inr st' \<Longrightarrow> ids_grow st resp st'"
proof -
  assume "createListing_op st o' b = Inr (l, st')"
  then obtain d where st': "st' = st\<lparr>db := db st @ [mk_listing d (dec_string (next_id st)) o'],
                                     next_id := Suc (next_id st)\<rparr>"
    by (auto simp: createListing_op_def Let_def split: option.splits if_splits)
  have "\<exists>k. next_id st \<le> k \<and> dec_string (next_id st) = dec_string k" by blast
  with st' show "ids_grow st resp st'" by (auto simp: ids_grow_def)
next
  assume u: "updateListing_op st i p r = Inr (l, st')"
  then obtain l0 where "find_listing st i = Some l0"
    and st': "st' = st\<lparr>db := map (\<lambda>x. if lid x = i then mk_listing (p (draft.truncate l0)) (lid l0) (userRef l0) else x) (db st)\<rparr>"
    by (auto simp: updateListing_op_def Let_def split: option.splits if_splits)
  then have "lid l0 = i" "l0 \<in> set (db st)" using find_listing_Some by auto
  with st' show "ids_grow st resp st'" by (auto simp: ids_grow_def)
next
  assume "deleteListing_op st i r' a = Inr st'"
  then show "ids_grow st resp st'"
    by (auto simp: deleteListing_op_def ids_grow_def split: option.splits if_splits)
qed

lemma ids_grow_refl [simp]: "ids_grow st resp st"
  by (simp add: ids_grow_def)

lemma ids_grow_handlers:
  "sent_ok ids_grow verifyToken_mw" "sent_ok ids_grow createListing"
  "sent_ok ids_grow (deleteListing a)" "sent_ok ids_grow updateListing"
  "sent_ok ids_grow getListing" "sent_ok ids_grow getListings" "sent_ok ids_grow catch_all"
  "sent_ok ids_grow json_parser"
  by (auto simp: sent_ok_def verifyToken_mw_def createListing_def deleteListing_def updateListing_def
      getListing_def getListings_def catch_all_def json_parser_def
      intro: ids_grow_ops split: sum.splits option.splits req_body.splits if_splits prod.splits)

lemma app_handle_ids_grow:
  assumes "app_handle st req = Some (resp, st')"
  shows "ids_grow st resp st'"
proof (cases "run_chain app_layers st req")
  case (Sent r st'')
  have "\<forall>h \<in> set app_layers. sent_ok ids_grow h"
    by (auto simp: app_layers_def ids_grow_handlers listingRouter_def adminRoute_def intro!: sent_ok_mount)
  with Sent app_layers_keep_origin assms show ?thesis
    by (auto simp: app_handle_def split: if_splits dest: sent_ok_chain)
qed (use assms in \<open>auto simp: app_handle_def ids_grow_def split: if_splits\<close>)

subsection \<open>Evaluating the routes\<close>

lemma json_parser_parsed [simp]: "body_parsed (body r) \<Longrightarrow> json_parser st r = Next r"
  by (cases "body r") (simp_all add: json_parser_def)

lemma json_parser_BadJson [simp]:
  "body r = BadJson msg \<Longrightarrow> json_parser st r = NextErr \<lparr>statusCode = Some 400, message = Some msg\<rparr>"
  by (simp add: json_parser_def)

lemmas route_defs = app_handle_def app_layers_def mount_def adminRoute_def listingRouter_def
  seg_eq_def lower_char_def mk_request_def verifyToken_mw_def verifyToken_cases admin_principal_def
  catch_all_def param_id_def

lemma app_create:
  "app_handle st (mk_request POST [''api'', ''listing'', ''create''] (Some staticToken) (DraftBody b) q) =
   Some (case createListing_op st ''admin'' b of
           Inl e \<Rightarrow> (globalErrorHandler e, st)
         | Inr (l, st') \<Rightarrow> (ok_json (ListingJson l), st'))"
  by (simp add: route_defs createListing_def split: sum.split prod.split)

lemma app_update:
  "i \<noteq> [] \<Longrightarrow>
   app_handle st (mk_request POST [''api'', ''listing'', ''update'', i] (Some staticToken) (PatchBody p) q) =
   Some (case updateListing_op st i p ''admin'' of
           Inl e \<Rightarrow> (globalErrorHandler e, st)
         | Inr (l, st') \<Rightarrow> (ok_json (ListingJson l), st'))"
  by (simp add: route_defs updateListing_def split: sum.split prod.split)

lemma app_delete:
  "i \<noteq> [] \<Longrightarrow> body_parsed b \<Longrightarrow>
   app_handle st (mk_request DELETE [''api'', ''listing'', ''delete'', i] (Some staticToken) b q) =
   Some (case deleteListing_op st i (Some ''admin'') False of
           Inl e \<Rightarrow> (globalErrorHandler e, st)
         | Inr st' \<Rightarrow> (ok_json (MessageJson ''Listing has been deleted!''), st'))"
  by (simp add: route_defs deleteListing_def split: sum.split)

lemma app_admin_delete:
  "i \<noteq> [] \<Longrightarrow> body_parsed b \<Longrightarrow>
   app_handle st (mk_request DELETE [''api'', ''admin'', ''listings'', i] tok b q) =
   Some (case deleteListing_op st i None True of
           Inl e \<Rightarrow> (globalErrorHandler e, st)
         | Inr st' \<Rightarrow> (ok_json (MessageJson ''Listing has been deleted!''), st'))"
  by (simp add: route_defs deleteListing_def split: sum.split)

lemma app_get:
  "i \<noteq> [] \<Longrightarrow> body_parsed b \<Longrightarrow>
   app_handle st (mk_request GET [''api'', ''listing'', ''get'', i] tok b q) =
   Some (case getListing_op st i of
           Inl e \<Rightarrow> (globalErrorHandler e, st)
         | Inr l \<Rightarrow> (ok_json (ListingJson l), st))"
  by (simp add: route_defs getListing_def split: sum.split)

lemma app_get_many:
  "body_parsed b \<Longrightarrow> app_handle st (mk_request GET [''api'', ''listing'', ''get''] tok b q) =
   Some (ok_json (ListingsJson (getListings_op st q)), st)"
  by (simp add: route_defs getListings_def)

lemma app_admin_listings:
  "body_parsed b \<Longrightarrow> app_handle st (mk_request GET [''api'', ''admin'', ''listings''] tok b q) =
   Some (ok_json (ListingsJson (getListings_op st q)), st)"
  by (simp add: route_defs getListings_def)

lemma app_create_rejected_iff:
  "app_handle st (mk_request POST [''api'', ''listing'', ''create''] (Some staticToken) (DraftBody b) q) =
     Some (\<lparr>status = 400, payload = ErrorJson False 400 ''ValidationError''\<rparr>, st) \<longleftrightarrow>
   createListing_op st ''admin'' b = Inl err_validation"
  by (auto simp: app_create createListing_op_def err_validation_def ok_json_def Let_def
      split: option.splits sum.splits if_splits)

lemma example_store_find [simp]:
  "find_listing example_store ''0'' = Some (mk_listing (the (draft_of_json example_body)) ''0'' ''admin'')"
  by (simp add: example_store_def find_listing_def)

subsection \<open>Properties of the application\<close>

text \<open>
  C4. Without the static token, the only request that changes the store is
  \<open>DELETE /api/admin/listings/:id\<close>: \<open>admin.route.js\<close> mounts its routes without
  \<open>verifyToken\<close>, so the administrative delete is open to every client, while every
  mutating route of \<open>listing.route.js\<close> is behind the gate.
\<close>

theorem store_change_without_token:
  assumes "app_handle st req = Some (resp, st')" and "st' \<noteq> st"
    and "access_token req \<noteq> Some staticToken"
  shows "req_method req = DELETE \<and>
         (\<exists>rest. strip_prefix [''api'', ''admin''] (path req) = Some rest \<and>
                 match_segs [Lit ''listings'', Param] rest \<noteq> None)"
proof -
  from assms(1,2) have sent: "run_chain app_layers st req = Sent resp st'"
    by (auto simp: app_handle_def split: if_splits outcome.splits)
  from run_chain_Sent_origin [OF app_layers_keep_origin sent] obtain h r
    where h: "h \<in> set app_layers" and o: "same_origin req r" and hs: "h st r = Sent resp st'"
    by blast
  from o assms(3) have tok: "access_token r \<noteq> Some staticToken" by (simp add: same_origin_def)
  consider "h = json_parser" | "h = mount [''api'', ''admin''] adminRoute"
    | "h = mount [''api'', ''listing''] listingRouter" | "h = catch_all"
    using h by (auto simp: app_layers_def)
  then show ?thesis
  proof cases
    case 1
    with hs show ?thesis by (simp add: json_parser_def split: req_body.splits)
  next
    case 2
    with hs obtain rest where pre: "strip_prefix [''api'', ''admin''] (path r) = Some rest"
      and rr: "run_router adminRoute st (r\<lparr>path := rest\<rparr>) = Sent resp st'"
      by (blast dest: mount_Sent)
    from adminRoute_changes [OF rr assms(2)] pre o show ?thesis
      by (auto simp: same_origin_def)
  next
    case 3
    with hs obtain rest where "run_router listingRouter st (r\<lparr>path := rest\<rparr>) = Sent resp st'"
      by (blast dest: mount_Sent)
    from listingRouter_no_token [OF this] tok assms(2) show ?thesis by simp
  next
    case 4
    with hs assms(2) show ?thesis by blast
  qed
qed

theorem store_change_without_token_witness:
  "app_handle example_store (mk_request DELETE [''api'', ''admin'', ''listings'', ''0''] None NoBody no_query)
     = Some (ok_json (MessageJson ''Listing has been deleted!''), \<lparr>db = [], next_id = 1\<rparr>) \<and>
   req_method (mk_request DELETE [''api'', ''admin'', ''listings'', ''0''] None NoBody no_query) = DELETE"
proof -
  let ?req = "mk_request DELETE [''api'', ''admin'', ''listings'', ''0''] None NoBody no_query"
  have run: "app_handle example_store ?req =
               Some (ok_json (MessageJson ''Listing has been deleted!''), \<lparr>db = [], next_id = 1\<rparr>)"
    by (simp add: app_admin_delete deleteListing_op_def) (simp add: example_store_def)
  have "\<lparr>db = [], next_id = 1\<rparr> \<noteq> example_store" by (simp add: example_store_def)
  moreover have "access_token ?req \<noteq> Some staticToken" by (simp add: mk_request_def)
  ultimately have "req_method ?req = DELETE"
    using store_change_without_token [OF run] by blast
  with run show ?thesis by simp
qed

text \<open>
  C5. Every request the application answers keeps the store invariant: identifiers stay
  distinct and fresh, and every stored listing has one to six images and, when it is an
  offer, a discount below its regular price.
\<close>

theorem app_handle_store_inv:
  assumes "store_inv st" and "app_handle st req = Some (resp, st')"
  shows "store_inv st'"
  using assms good_send_app [of st req resp st']
  by (auto simp: app_handle_def good_send_def split: if_splits outcome.splits)

theorem app_handle_store_inv_witness:
  "store_inv (snd (the (app_handle empty_store
     (mk_request POST [''api'', ''listing'', ''create''] (Some staticToken) (DraftBody example_body) no_query))))"
proof -
  let ?req = "mk_request POST [''api'', ''listing'', ''create''] (Some staticToken) (DraftBody example_body) no_query"
  obtain resp st' where run: "app_handle empty_store ?req = Some (resp, st')"
    by (simp add: app_create split: sum.split prod.split) (meson surj_pair)
  from app_handle_store_inv [OF store_inv_empty run] run show ?thesis by simp
qed

text \<open>
  C6. A response carrying the error envelope \<open>{success: false, statusCode, message}\<close>
  has the HTTP status of its \<open>statusCode\<close> and leaves the store as it was: a failed
  request has no effect.
\<close>

theorem app_error_response:
  assumes "app_handle st req = Some (resp, st')" and "payload resp = ErrorJson s c m"
  shows "\<not> s \<and> status resp = c \<and> st' = st"
  using assms good_send_app [of st req resp st']
  by (auto simp: app_handle_def good_send_def globalErrorHandler_def Let_def
      split: if_splits outcome.splits)

theorem app_error_response_witness:
  "app_handle empty_store (mk_request GET [''api'', ''listing'', ''get'', ''7''] None NoBody no_query) =
     Some (\<lparr>status = 404, payload = ErrorJson False 404 ''NotFound''\<rparr>, empty_store) \<and>
   status \<lparr>status = 404, payload = ErrorJson False 404 ''NotFound''\<rparr> = (404::nat)"
proof -
  let ?req = "mk_request GET [''api'', ''listing'', ''get'', ''7''] None NoBody no_query"
  have run: "app_handle empty_store ?req =
               Some (\<lparr>status = 404, payload = ErrorJson False 404 ''NotFound''\<rparr>, empty_store)"
    by (simp add: app_get getListing_op_def find_listing_def empty_store_def err_not_found_def)
  from app_error_response [OF run] run show ?thesis by simp
qed

text \<open>
  C7. \<open>POST /api/listing/create\<close> with the token and a valid draft answers 200 with the
  stored listing: the draft under a fresh identifier, appended to the store, and owned
  by \<open>admin\<close>, the principal the gate binds, whatever owner the client sent.
\<close>

theorem http_create:
  assumes "store_inv st" and "draft_of_json b = Some d" and "valid_draft (<) d"
  shows "\<exists>l. app_handle st (mk_request POST [''api'', ''listing'', ''create''] (Some staticToken) (DraftBody b) q) =
             Some (ok_json (ListingJson l), st\<lparr>db := db st @ [l], next_id := Suc (next_id st)\<rparr>) \<and>
           draft.truncate l = d \<and> userRef l = ''admin'' \<and> lid l \<notin> lid ` set (db st)"
proof -
  let ?l = "mk_listing d (dec_string (next_id st)) ''admin''"
  have op: "createListing_op st ''admin'' b =
              Inr (?l, st\<lparr>db := db st @ [?l], next_id := Suc (next_id st)\<rparr>)"
    using assms(2,3) by (simp add: createListing_op_def Let_def)
  from createListing_result [OF assms(1) op] assms(2) have "lid ?l \<notin> lid ` set (db st)" by simp
  with op show ?thesis by (intro exI [of _ ?l]) (simp add: app_create)
qed

theorem http_create_witness:
  "\<exists>l. app_handle empty_store (mk_request POST [''api'', ''listing'', ''create''] (Some staticToken)
          (DraftBody example_body) no_query) =
        Some (ok_json (ListingJson l), empty_store\<lparr>db := db empty_store @ [l], next_id := Suc (next_id empty_store)\<rparr>) \<and>
        userRef l = ''admin''"
proof -
  have v: "valid_draft (<) (the (draft_of_json example_body))" by (simp add: valid_draft_def)
  have j: "draft_of_json example_body = Some (the (draft_of_json example_body))" by simp
  from http_create [OF store_inv_empty j v, of no_query] show ?thesis by blast
qed

text \<open>
  C8. \<open>POST /api/listing/create\<close> with the token answers 400 \<open>ValidationError\<close> and
  stores nothing exactly when a number of the body is \<open>null\<close> or the draft has no image,
  more than six images, or is an offer whose discount is not below its regular price.
\<close>

theorem http_create_rejects_iff:
  "app_handle st (mk_request POST [''api'', ''listing'', ''create''] (Some staticToken) (DraftBody b) q) =
     Some (\<lparr>status = 400, payload = ErrorJson False 400 ''ValidationError''\<rparr>, st) \<longleftrightarrow>
   (case draft_of_json b of
      None \<Rightarrow> True
    | Some d \<Rightarrow> length (imageUrls d) = 0 \<or> 6 < length (imageUrls d) \<or>
                (offer d \<and> regularPrice d \<le> discountPrice d))"
proof (cases "draft_of_json b")
  case None
  then show ?thesis by (simp add: app_create_rejected_iff createListing_op_def)
next
  case (Some d)
  with createListing_rejects_iff [OF Some] show ?thesis by (simp add: app_create_rejected_iff)
qed

text \<open>
  C9. \<open>POST /api/listing/update/:id\<close> with the token answers 200 exactly when the listing
  exists, its owner is \<open>admin\<close> and the merged listing is valid: the requester is
  always the gate's fixed principal, so a listing owned by anyone else can never be
  updated through the route.
\<close>

theorem http_update_succeeds_iff:
  assumes "i \<noteq> []"
  shows "status (fst (the (app_handle st
            (mk_request POST [''api'', ''listing'', ''update'', i] (Some staticToken) (PatchBody p) q)))) = 200 \<longleftrightarrow>
         (\<exists>l. find_listing st i = Some l \<and> userRef l = ''admin'' \<and> valid_draft (<) (p (draft.truncate l)))"
  using assms
  by (auto simp: app_update updateListing_op_def ok_json_def globalErrorHandler_def err_not_found_def
      err_forbidden_def err_validation_def errorHandler_def Let_def split: option.splits sum.splits if_splits)

theorem http_update_succeeds_iff_witness:
  "status (fst (the (app_handle example_store
     (mk_request POST [''api'', ''listing'', ''update'', ''0''] (Some staticToken) (PatchBody (\<lambda>d. d\<lparr>name := ''B''\<rparr>)) no_query)))) = 200"
proof -
  have "''0'' \<noteq> []" by simp
  from http_update_succeeds_iff [OF this, of example_store "\<lambda>d. d\<lparr>name := ''B''\<rparr>" no_query]
  show ?thesis by (simp add: valid_draft_def)
qed

text \<open>
  C10. \<open>DELETE /api/admin/listings/:id\<close> on a stored identifier answers 200 and removes
  the listing, with or without a token, when the request bodies parse as JSON; a following \<open>GET /api/listing/get/:id\<close>
  answers 404 \<open>NotFound\<close>.
\<close>

theorem http_admin_delete_then_get:
  assumes "i \<noteq> []" and "i \<in> lid ` set (db st)" and "body_parsed b" and "body_parsed b'"
  shows "\<exists>st'. app_handle st (mk_request DELETE [''api'', ''admin'', ''listings'', i] tok b q) =
                Some (ok_json (MessageJson ''Listing has been deleted!''), st') \<and>
              app_handle st' (mk_request GET [''api'', ''listing'', ''get'', i] tok' b' q') =
                Some (\<lparr>status = 404, payload = ErrorJson False 404 ''NotFound''\<rparr>, st')"
proof -
  from assms(2) obtain l where "find_listing st i = Some l"
    by (cases "find_listing st i") (auto simp: find_listing_None)
  then obtain st' where del: "deleteListing_op st i None True = Inr st'"
    by (simp add: deleteListing_op_def)
  from deleteListing_effect [OF del] have "find_listing st' i = None" by simp
  with del assms(1,3,4) show ?thesis
    by (simp add: app_admin_delete app_get getListing_op_def err_not_found_def)
qed

theorem http_admin_delete_then_get_witness:
  "\<exists>st'. app_handle example_store (mk_request DELETE [''api'', ''admin'', ''listings'', ''0''] None NoBody no_query) =
          Some (ok_json (MessageJson ''Listing has been deleted!''), st') \<and>
        app_handle st' (mk_request GET [''api'', ''listing'', ''get'', ''0''] None NoBody no_query) =
          Some (\<lparr>status = 404, payload = ErrorJson False 404 ''NotFound''\<rparr>, st')"
  by (rule http_admin_delete_then_get) (simp_all add: example_store_def)

text \<open>
  C11. \<open>GET /api/listing/get?type=t&limit=n\<close> answers 200 with at most \<open>n\<close> stored
  listings, all of type \<open>t\<close>, and changes nothing, whenever its body (if any)
  parses as JSON.
\<close>

theorem http_get_many_bounded:
  "body_parsed b \<Longrightarrow> \<exists>ls. app_handle st (mk_request GET [''api'', ''listing'', ''get''] tok b
             (no_query\<lparr>qtype := Some t, qlimit := Some n\<rparr>)) = Some (ok_json (ListingsJson ls), st) \<and>
        length ls \<le> n \<and> (\<forall>l \<in> set ls. type l = t) \<and> set ls \<subseteq> set (db st)"
  using getListings_bounds [of st "no_query\<lparr>qtype := Some t, qlimit := Some n\<rparr>"]
  by (auto simp: app_get_many matches_query_def no_query_def)

theorem http_get_many_bounded_witness:
  "\<exists>ls. app_handle example_store (mk_request GET [''api'', ''listing'', ''get''] None NoBody
             (no_query\<lparr>qtype := Some ''rent'', qlimit := Some 2\<rparr>)) = Some (ok_json (ListingsJson ls), example_store) \<and>
        length ls \<le> 2 \<and> (\<forall>l \<in> set ls. type l = ''rent'')"
  using http_get_many_bounded [where st = example_store and tok = None and b = NoBody and t = "''rent''" and n = 2]
    body_parsed.simps(2) by blast

text \<open>
  C30. A request whose body is not valid JSON is answered 400 with the parser's message by
  \<open>express.json()\<close>, the first middleware, before any router, gate or controller
  runs: the store is unchanged whatever the path, method or token, so even the ungated
  admin delete does nothing.
\<close>

theorem malformed_body_rejected:
  assumes "body r = BadJson msg" and "msg \<noteq> []"
    and "strip_prefix [''api'', ''user''] (path r) = None"
    and "strip_prefix [''api'', ''auth''] (path r) = None"
  shows "app_handle st r = Some (\<lparr>status = 400, payload = ErrorJson False 400 msg\<rparr>, st)"
  using assms by (simp add: app_handle_def app_layers_def globalErrorHandler_def)

theorem malformed_body_rejected_witness:
  "app_handle example_store
     (mk_request DELETE [''api'', ''admin'', ''listings'', ''0''] None (BadJson ''Unexpected token'') no_query) =
   Some (\<lparr>status = 400, payload = ErrorJson False 400 ''Unexpected token''\<rparr>, example_store)"
  by (rule malformed_body_rejected) (simp_all add: mk_request_def seg_eq_def lower_char_def)

end
