(* ===== verification/ClientViews.thy ===== *)
theory ClientViews
  imports Routes "HOL-Library.Sublist"
begin

text \<open>
  The client views that talk to the administrative part of the server, composed with
  the server model of \<open>Routes\<close>:
  \<^item> \<open>PrivateRoute\<close> (\<open>src/client/src/components/PrivateRoute.jsx\<close>): the client-side
    guard in front of pages; it redirects a visitor without \<open>currentUser\<close> to
    \<open>/sign-in\<close> and, on an administrative route, one whose \<open>currentUser.id\<close> is not
    \<open>"admin"\<close> to \<open>/\<close>.
  \<^item> \<open>AdminDashboard\<close> (\<open>src/client/src/pages/AdminDashboard.jsx\<close>): its state is a
    JSON value, first the empty array; \<open>fetchListings\<close> replaces it with the parsed body
    of \<open>GET /api/admin/listings\<close>, \<open>handleDelete(id)\<close> sends
    \<open>DELETE /api/admin/listings/:id\<close> and on success drops the entries whose \<open>_id\<close> is
    \<open>id\<close>. Axios rejects a non-2xx answer, and a rejection only logs: the state stays.
    Each request goes through \<open>app_handle\<close>, so the operations are functions of the
    dashboard state and the server store. The browser sends the page's
    \<open>access_token\<close> cookie with these same-origin requests. The render draws a card
    per entry of the state, and throws when the state is not an array.
  \<^item> \<open>utils/api.js\<close>: the axios instance with base URL \<open>http://localhost:3000/api\<close> and
    its two helpers \<open>deleteListing(id)\<close> (\<open>DELETE /listing/:id\<close>) and
    \<open>getListings()\<close> (\<open>GET /listing\<close>).
\<close>

subsection \<open>PrivateRoute\<close>

record current_user =
  cu_id :: "js_string option"

datatype route_view = NavigateTo js_string | Outlet

definition PrivateRoute :: "bool \<Rightarrow> current_user option \<Rightarrow> route_view" where
  "PrivateRoute isAdminRoute currentUser =
     (case currentUser of
        None \<Rightarrow> NavigateTo ''/sign-in''
      | Some u \<Rightarrow> if isAdminRoute \<and> cu_id u \<noteq> Some ''admin'' then NavigateTo ''/'' else Outlet)"

subsection \<open>AdminDashboard\<close>

text \<open>
  The component's state \<open>listings\<close> is whatever JSON value was last stored in it, first
  the empty array. \<open>res.data\<close> is the parsed body (for an HTML page, its text).
\<close>

record dashboard =
  dash_listings :: json

definition dashboard_init :: dashboard where
  "dashboard_init = \<lparr>dash_listings = JsonArr []\<rparr>"

definition is_2xx :: "response \<Rightarrow> bool" where
  "is_2xx resp \<longleftrightarrow> 200 \<le> status resp \<and> status resp < 300"

definition axios_data :: "success_shape \<Rightarrow> payload \<Rightarrow> json" where
  "axios_data sh p = (case payload_json sh p of Some j \<Rightarrow> j | None \<Rightarrow> JsonStr ''<!DOCTYPE html>'')"

definition fetchListings ::
  "success_shape \<Rightarrow> js_string option \<Rightarrow> store \<Rightarrow> dashboard \<Rightarrow> dashboard \<times> store" where
  "fetchListings sh tok st d =
     (case app_handle st (mk_request GET [''api'', ''admin'', ''listings''] tok NoBody no_query) of
        Some (resp, st') \<Rightarrow>
          if is_2xx resp then (d\<lparr>dash_listings := axios_data sh (payload resp)\<rparr>, st') else (d, st')
      | None \<Rightarrow> (d, st))"

text \<open>
  \<open>handleDelete(id)\<close> receives \<open>listing._id\<close> (\<open>None\<close> when \<open>undefined\<close>); the template
  literal turns it into the last path segment. The functional update
  \<open>prev.filter(...)\<close> keeps the entries whose \<open>_id\<close> differs from \<open>id\<close>; on a state
  that is not an array it throws, as the render of such a state already has.
\<close>

definition id_segment :: "json option \<Rightarrow> js_string" where
  "id_segment i = (case i of None \<Rightarrow> ''undefined'' | Some v \<Rightarrow> json_string v)"

definition drop_id :: "json option \<Rightarrow> json \<Rightarrow> json" where
  "drop_id i v = (case v of JsonArr xs \<Rightarrow> JsonArr (filter (\<lambda>x. json_get x ''_id'' \<noteq> i) xs) | _ \<Rightarrow> v)"

definition handleDelete ::
  "success_shape \<Rightarrow> js_string option \<Rightarrow> json option \<Rightarrow> store \<Rightarrow> dashboard \<Rightarrow> dashboard \<times> store" where
  "handleDelete sh tok i st d =
     (case app_handle st (mk_request DELETE [''api'', ''admin'', ''listings'', id_segment i] tok NoBody no_query) of
        Some (resp, st') \<Rightarrow>
          if is_2xx resp then (d\<lparr>dash_listings := drop_id i (dash_listings d)\<rparr>, st') else (d, st')
      | None \<Rightarrow> (d, st))"

text \<open>
  The render: \<open>listings.map(...)\<close> draws one card per entry with \<open>listing.title\<close> as
  heading, \<open>listing.description\<close>, and a button calling \<open>handleDelete(listing._id)\<close>;
  on a state that is not an array \<open>map\<close> is not a function and the render throws
  (\<open>None\<close>).
\<close>

record dash_card =
  card_title :: "json option"
  card_description :: "json option"
  card_delete :: "json option"

definition dash_card_of :: "json \<Rightarrow> dash_card" where
  "dash_card_of x =
     \<lparr>card_title = json_get x ''title'', card_description = json_get x ''description'',
      card_delete = json_get x ''_id''\<rparr>"

definition dash_view :: "dashboard \<Rightarrow> dash_card list option" where
  "dash_view d = (case dash_listings d of JsonArr xs \<Rightarrow> Some (map dash_card_of xs) | _ \<Rightarrow> None)"

subsection \<open>utils/api.js\<close>

definition api_baseURL :: "js_string list" where
  "api_baseURL = [''api'']"

definition api_deleteListing :: "js_string \<Rightarrow> request" where
  "api_deleteListing i = mk_request DELETE (api_baseURL @ [''listing'', i]) None NoBody no_query"

definition api_getListings :: request where
  "api_getListings = mk_request GET (api_baseURL @ [''listing'']) None NoBody no_query"

subsection \<open>Facts about the views\<close>

lemma app_admin_delete_empty_id:
  "body_parsed b \<Longrightarrow> app_handle st (mk_request DELETE [''api'', ''admin'', ''listings'', []] tok b q) =
     Some (\<lparr>status = 404, payload = CannotRoute DELETE [''api'', ''admin'', ''listings'', []]\<rparr>, st)"
  by (simp add: route_defs)

lemma getListings_op_no_query: "getListings_op st no_query = take default_limit (rev (db st))"
  by (simp add: getListings_op_def matches_query_def no_query_def)

lemma fetchListings_eq:
  "fetchListings sh tok st d =
     (d\<lparr>dash_listings := success_body sh (JsonArr (map listing_json (take default_limit (rev (db st)))))\<rparr>, st)"
  by (simp add: fetchListings_def app_admin_listings getListings_op_no_query is_2xx_def ok_json_def
      axios_data_def payload_json_def)

lemma app_admin_delete_eq:
  "app_handle st (mk_request DELETE [''api'', ''admin'', ''listings'', i] tok NoBody no_query) =
     (if i \<noteq> [] \<and> i \<in> lid ` set (db st)
      then Some (ok_json (MessageJson ''Listing has been deleted!''), st\<lparr>db := filter (\<lambda>l. lid l \<noteq> i) (db st)\<rparr>)
      else Some (\<lparr>status = 404, payload = (if i = [] then CannotRoute DELETE [''api'', ''admin'', ''listings'', []]
                                           else ErrorJson False 404 ''NotFound'')\<rparr>, st))"
proof (cases "i = []")
  case True
  then show ?thesis by (simp add: app_admin_delete_empty_id)
next
  case False
  show ?thesis
  proof (cases "find_listing st i")
    case None
    then have "i \<notin> lid ` set (db st)" by (simp add: find_listing_None)
    with None False show ?thesis
      by (simp add: app_admin_delete deleteListing_op_def globalErrorHandler_def err_not_found_def
          errorHandler_def)
  next
    case (Some l)
    then have "i \<in> lid ` set (db st)" using find_listing_Some by force
    with Some False show ?thesis by (simp add: app_admin_delete deleteListing_op_def)
  qed
qed

lemma handleDelete_eq:
  "handleDelete sh tok (Some (JsonStr i)) st d =
     (if i \<noteq> [] \<and> i \<in> lid ` set (db st)
      then (d\<lparr>dash_listings := drop_id (Some (JsonStr i)) (dash_listings d)\<rparr>,
            st\<lparr>db := filter (\<lambda>l. lid l \<noteq> i) (db st)\<rparr>)
      else (d, st))"
  by (simp add: handleDelete_def id_segment_def app_admin_delete_eq is_2xx_def ok_json_def)

lemma drop_id_listings [simp]:
  "drop_id (Some (JsonStr i)) (JsonArr (map listing_json ls)) =
     JsonArr (map listing_json (filter (\<lambda>l. lid l \<noteq> i) ls))"
  by (simp add: drop_id_def filter_map o_def)

lemma dash_view_listings:
  "dash_view \<lparr>dash_listings = JsonArr (map listing_json ls)\<rparr> =
     Some (map (\<lambda>l. \<lparr>card_title = None, card_description = Some (JsonStr (description l)),
                     card_delete = Some (JsonStr (lid l))\<rparr>) ls)"
  by (simp add: dash_view_def dash_card_of_def)

lemma store_inv_lid_ne: "store_inv st \<Longrightarrow> l \<in> set (db st) \<Longrightarrow> lid l \<noteq> []"
  by (auto simp: store_inv_def dec_string_def)

subsection \<open>Properties of the views\<close>

text \<open>
  C15. \<open>PrivateRoute\<close> renders the protected page exactly for a signed-in user, and on an
  administrative route only for a user whose \<open>id\<close> is \<open>"admin"\<close>.
\<close>

theorem PrivateRoute_outlet_iff:
  "PrivateRoute isAdminRoute u = Outlet \<longleftrightarrow>
   (\<exists>v. u = Some v \<and> (isAdminRoute \<longrightarrow> cu_id v = Some ''admin''))"
  by (auto simp: PrivateRoute_def split: option.splits)

theorem PrivateRoute_outlet_iff_witness:
  "PrivateRoute True (Some \<lparr>cu_id = Some ''admin''\<rparr>) = Outlet \<and>
   PrivateRoute True (Some \<lparr>cu_id = Some ''u1''\<rparr>) \<noteq> Outlet"
  using PrivateRoute_outlet_iff [of True "Some \<lparr>cu_id = Some ''admin''\<rparr>"]
    PrivateRoute_outlet_iff [of True "Some \<lparr>cu_id = Some ''u1''\<rparr>"] by auto

text \<open>
  C16. With controllers that answer with the bare array, the dashboard's list refines
  the server store: after \<open>fetchListings\<close> it is the JSON of a subsequence of the stored
  listings newest first, and \<open>handleDelete\<close> of a listing's identifier keeps it one,
  whether the server accepts the deletion or not.
\<close>

theorem dashboard_refines_store:
  "(\<exists>ls. dash_listings (fst (fetchListings Bare tok st d)) = JsonArr (map listing_json ls) \<and>
         subseq ls (rev (db (snd (fetchListings Bare tok st d))))) \<and>
   (dash_listings d = JsonArr (map listing_json ls) \<and> subseq ls (rev (db st)) \<longrightarrow>
      (\<exists>ls'. dash_listings (fst (handleDelete sh tok (Some (JsonStr i)) st d)) = JsonArr (map listing_json ls') \<and>
             subseq ls' (rev (db (snd (handleDelete sh tok (Some (JsonStr i)) st d))))))"
proof
  show "\<exists>ls. dash_listings (fst (fetchListings Bare tok st d)) = JsonArr (map listing_json ls) \<and>
         subseq ls (rev (db (snd (fetchListings Bare tok st d))))"
    by (simp add: fetchListings_eq success_body_def)
       (rule exI [of _ "take default_limit (rev (db st))"], simp add: prefix_imp_subseq take_is_prefix)
  show "dash_listings d = JsonArr (map listing_json ls) \<and> subseq ls (rev (db st)) \<longrightarrow>
      (\<exists>ls'. dash_listings (fst (handleDelete sh tok (Some (JsonStr i)) st d)) = JsonArr (map listing_json ls') \<and>
             subseq ls' (rev (db (snd (handleDelete sh tok (Some (JsonStr i)) st d)))))"
  proof
    assume a: "dash_listings d = JsonArr (map listing_json ls) \<and> subseq ls (rev (db st))"
    show "\<exists>ls'. dash_listings (fst (handleDelete sh tok (Some (JsonStr i)) st d)) = JsonArr (map listing_json ls') \<and>
             subseq ls' (rev (db (snd (handleDelete sh tok (Some (JsonStr i)) st d))))"
    proof (cases "i \<noteq> [] \<and> i \<in> lid ` set (db st)")
      case True
      with a show ?thesis
        by (intro exI [of _ "filter (\<lambda>l. lid l \<noteq> i) ls"]) (simp add: handleDelete_eq rev_filter)
    next
      case False
      then have "handleDelete sh tok (Some (JsonStr i)) st d = (d, st)"
        by (simp only: handleDelete_eq if_not_P [OF False] if_False)
      with a show ?thesis by auto
    qed
  qed
qed

theorem dashboard_refines_store_witness:
  "\<exists>ls'. dash_listings (fst (handleDelete Bare None (Some (JsonStr ''0'')) example_store
            \<lparr>dash_listings = JsonArr (map listing_json (rev (db example_store)))\<rparr>)) = JsonArr (map listing_json ls') \<and>
         subseq ls' (rev (db (snd (handleDelete Bare None (Some (JsonStr ''0'')) example_store
            \<lparr>dash_listings = JsonArr (map listing_json (rev (db example_store)))\<rparr>))))"
  using dashboard_refines_store [of None example_store
      "\<lparr>dash_listings = JsonArr (map listing_json (rev (db example_store)))\<rparr>" "rev (db example_store)" Bare "''0''"]
  by simp

text \<open>
  C26. With the specification's envelope the dashboard breaks on its first fetch:
  \<open>setListings(res.data)\<close> stores the envelope object, not the array under its
  \<open>data\<close>, and the render's \<open>listings.map\<close> throws.
\<close>

theorem dashboard_envelope_crash:
  "dash_view (fst (fetchListings Envelope tok st d)) = None"
  by (simp add: fetchListings_eq success_body_def dash_view_def)

text \<open>
  C27. A dashboard holding stored listings draws one card per listing, in order, with an
  empty heading (it reads \<open>listing.title\<close>, a field a listing does not have), the
  listing's description, and a Delete button; pressing the button of card \<open>k\<close> deletes
  exactly that listing, from the store and from the list.
\<close>

theorem dashboard_card_delete:
  assumes "store_inv st" and "set ls \<subseteq> set (db st)" and "k < length ls"
    and "dash_listings d = JsonArr (map listing_json ls)"
  shows "(\<exists>cs. dash_view d = Some cs \<and> length cs = length ls \<and> card_title (cs ! k) = None \<and>
            card_description (cs ! k) = Some (JsonStr (description (ls ! k))) \<and>
            handleDelete sh tok (card_delete (cs ! k)) st d =
              (d\<lparr>dash_listings := JsonArr (map listing_json (filter (\<lambda>l. lid l \<noteq> lid (ls ! k)) ls))\<rparr>,
               st\<lparr>db := filter (\<lambda>l. lid l \<noteq> lid (ls ! k)) (db st)\<rparr>))"
proof -
  have d: "d = \<lparr>dash_listings = JsonArr (map listing_json ls)\<rparr>" using assms(4) by (cases d) simp
  have mem: "ls ! k \<in> set (db st)" using assms(2,3) nth_mem by blast
  with assms(1) have "lid (ls ! k) \<noteq> []" by (rule store_inv_lid_ne)
  with mem have "lid (ls ! k) \<noteq> [] \<and> lid (ls ! k) \<in> lid ` set (db st)" by blast
  with assms(3) show ?thesis by (simp add: d dash_view_listings handleDelete_eq)
qed

theorem dashboard_card_delete_witness:
  "handleDelete Bare None (card_delete (the (dash_view \<lparr>dash_listings = JsonArr (map listing_json (db example_store))\<rparr>) ! 0))
      example_store \<lparr>dash_listings = JsonArr (map listing_json (db example_store))\<rparr> =
   (\<lparr>dash_listings = JsonArr []\<rparr>, example_store\<lparr>db := []\<rparr>)"
proof -
  have "valid_draft (<) (the (draft_of_json example_body))" by (simp add: valid_draft_def)
  then have inv: "store_inv example_store"
    by (simp add: store_inv_def example_store_def dec_string_0)
  from dashboard_card_delete [OF inv order_refl, of 0 "\<lparr>dash_listings = JsonArr (map listing_json (db example_store))\<rparr>" Bare None]
  show ?thesis by (auto simp: example_store_def)
qed

text \<open>
  C17. The two helpers of \<open>utils/api.js\<close> reach no API route: \<open>deleteListing(id)\<close>
  sends \<open>DELETE /api/listing/:id\<close>, which no router answers, so Express replies 404
  and nothing is deleted; \<open>getListings()\<close> sends \<open>GET /api/listing\<close>, which falls
  through to \<open>app.get('*')\<close> and receives the client's HTML page instead of listings.
\<close>

theorem api_helpers_unrouted:
  "app_handle st (api_deleteListing i) =
     Some (\<lparr>status = 404, payload = CannotRoute DELETE [''api'', ''listing'', i]\<rparr>, st) \<and>
   app_handle st api_getListings = Some (ok_json IndexHtml, st)"
  by (simp add: api_deleteListing_def api_getListings_def api_baseURL_def route_defs)

end
