(* ===== verification/Dashboard.thy ===== *)
theory Dashboard
  imports ClientViews
begin

text \<open>
  The admin dashboard of \<open>src/client/src/pages/AdminDashboard.jsx\<close> as an asynchronous
  system with the server. \<open>useEffect(() => fetchListings(), [])\<close> sends
  \<open>GET /api/admin/listings\<close> once, after the first render; each Delete button sends
  \<open>DELETE /api/admin/listings/:id\<close>. The server handles a request when it arrives (here,
  when it is sent: the dashboard is the only client of the store in this model), and the
  replies come back in any order; the continuation of each \<open>await\<close> runs when its reply
  is delivered. \<open>dinflight\<close> holds the replies not yet delivered, each with what its
  continuation needs.
\<close>

datatype dash_msg = FetchDone response | DeleteDone "json option" response

record dash_sys =
  dstate :: dashboard
  dsrv :: store
  dinflight :: "dash_msg list"
  dmounted :: bool

definition admin_listings_request :: "js_string option \<Rightarrow> request" where
  "admin_listings_request tok = mk_request GET [''api'', ''admin'', ''listings''] tok NoBody no_query"

definition admin_delete_request :: "js_string option \<Rightarrow> json option \<Rightarrow> request" where
  "admin_delete_request tok i =
     mk_request DELETE [''api'', ''admin'', ''listings'', id_segment i] tok NoBody no_query"

text \<open>The continuation of an \<open>await\<close> when its reply arrives (axios rejects non-2xx).\<close>

fun dash_deliver :: "success_shape \<Rightarrow> dash_msg \<Rightarrow> dashboard \<Rightarrow> dashboard" where
  "dash_deliver sh (FetchDone resp) d =
     (if is_2xx resp then d\<lparr>dash_listings := axios_data sh (payload resp)\<rparr> else d)"
| "dash_deliver sh (DeleteDone i resp) d =
     (if is_2xx resp then d\<lparr>dash_listings := drop_id i (dash_listings d)\<rparr> else d)"

inductive dash_step :: "success_shape \<Rightarrow> js_string option \<Rightarrow> dash_sys \<Rightarrow> dash_sys \<Rightarrow> bool"
  for sh tok where
  mount: "\<not> dmounted s \<Longrightarrow> app_handle (dsrv s) (admin_listings_request tok) = Some (resp, st') \<Longrightarrow>
    dash_step sh tok s (s\<lparr>dsrv := st', dinflight := dinflight s @ [FetchDone resp], dmounted := True\<rparr>)"
| click: "dash_view (dstate s) = Some cs \<Longrightarrow> k < length cs \<Longrightarrow>
    app_handle (dsrv s) (admin_delete_request tok (card_delete (cs ! k))) = Some (resp, st') \<Longrightarrow>
    dash_step sh tok s (s\<lparr>dsrv := st', dinflight := dinflight s @ [DeleteDone (card_delete (cs ! k)) resp]\<rparr>)"
| deliver: "k < length (dinflight s) \<Longrightarrow>
    dash_step sh tok s (s\<lparr>dstate := dash_deliver sh (dinflight s ! k) (dstate s),
                          dinflight := remove_index k (dinflight s)\<rparr>)"

inductive dash_reach :: "success_shape \<Rightarrow> js_string option \<Rightarrow> store \<Rightarrow> dash_sys \<Rightarrow> bool"
  for sh tok st0 where
  init: "dash_reach sh tok st0 \<lparr>dstate = dashboard_init, dsrv = st0, dinflight = [], dmounted = False\<rparr>"
| step: "dash_reach sh tok st0 s \<Longrightarrow> dash_step sh tok s s' \<Longrightarrow> dash_reach sh tok st0 s'"

text \<open>
  Example: the dashboard of a session on \<open>example_store\<close> after the mount's fetch was
  answered and the Delete button of the only listing was pressed, its reply not yet
  delivered.
\<close>

definition example_dash :: dash_sys where
  "example_dash =
     \<lparr>dstate = \<lparr>dash_listings = JsonArr (map listing_json (db example_store))\<rparr>,
      dsrv = example_store\<lparr>db := []\<rparr>,
      dinflight = [DeleteDone (Some (JsonStr ''0'')) (ok_json (MessageJson ''Listing has been deleted!''))],
      dmounted = True\<rparr>"

text \<open>
  The steps the dashboard takes without a click: the mount's fetch, which the empty
  dependency array of \<open>useEffect\<close> runs once, and the continuations of the awaits.
  \<open>dash_work\<close> counts what is left of them: the fetch not yet sent counts for its
  request and its reply.
\<close>

inductive dash_auto :: "success_shape \<Rightarrow> js_string option \<Rightarrow> dash_sys \<Rightarrow> dash_sys \<Rightarrow> bool"
  for sh tok where
  mount: "\<not> dmounted s \<Longrightarrow> app_handle (dsrv s) (admin_listings_request tok) = Some (resp, st') \<Longrightarrow>
    dash_auto sh tok s (s\<lparr>dsrv := st', dinflight := dinflight s @ [FetchDone resp], dmounted := True\<rparr>)"
| deliver: "k < length (dinflight s) \<Longrightarrow>
    dash_auto sh tok s (s\<lparr>dstate := dash_deliver sh (dinflight s ! k) (dstate s),
                          dinflight := remove_index k (dinflight s)\<rparr>)"

definition dash_work :: "dash_sys \<Rightarrow> nat" where
  "dash_work s = (if dmounted s then 0 else 2) + length (dinflight s)"

subsection \<open>Other clients\<close>

text \<open>
  The store is shared: between the dashboard's steps, any other client's request may be
  handled by the server. A row is stale when the listing it shows is no longer stored,
  after the mount's fetch, with no accepted deletion of it awaiting its reply.
\<close>

inductive dash_env_step :: "success_shape \<Rightarrow> js_string option \<Rightarrow> dash_sys \<Rightarrow> dash_sys \<Rightarrow> bool"
  for sh tok where
  own: "dash_step sh tok s s' \<Longrightarrow> dash_env_step sh tok s s'"
| other: "app_handle (dsrv s) req = Some (resp, st') \<Longrightarrow> dash_env_step sh tok s (s\<lparr>dsrv := st'\<rparr>)"

definition row_shown :: "listing \<Rightarrow> dash_sys \<Rightarrow> bool" where
  "row_shown l s \<longleftrightarrow> (\<exists>xs. dash_listings (dstate s) = JsonArr xs \<and> listing_json l \<in> set xs)"

definition stale_row :: "listing \<Rightarrow> dash_sys \<Rightarrow> bool" where
  "stale_row l s \<longleftrightarrow>
     row_shown l s \<and> lid l \<notin> lid ` set (db (dsrv s)) \<and> (\<exists>k < next_id (dsrv s). lid l = dec_string k) \<and>
     dmounted s \<and> (\<forall>r. FetchDone r \<notin> set (dinflight s)) \<and>
     (\<forall>r. DeleteDone (Some (JsonStr (lid l))) r \<in> set (dinflight s) \<longrightarrow> \<not> is_2xx r)"

subsection \<open>The invariant\<close>

text \<open>
  The identifiers whose deletion the server has accepted but whose reply the dashboard
  has not yet handled; the listings shown apart from those form a subsequence of the
  store, newest first. While the mount's fetch is in flight nothing is shown (so nothing
  can be clicked) and its reply holds the store's current first page.
\<close>

definition dash_pending :: "dash_sys \<Rightarrow> js_string set" where
  "dash_pending s = {i. \<exists>r. DeleteDone (Some (JsonStr i)) r \<in> set (dinflight s) \<and> is_2xx r}"

definition fetch_ok :: "dash_sys \<Rightarrow> bool" where
  "fetch_ok s \<longleftrightarrow>
     (\<forall>r. FetchDone r \<in> set (dinflight s) \<longrightarrow>
        r = ok_json (ListingsJson (take default_limit (rev (db (dsrv s))))) \<and>
        dinflight s = [FetchDone r] \<and> dash_listings (dstate s) = JsonArr [])"

definition deletes_ok :: "dash_sys \<Rightarrow> bool" where
  "deletes_ok s \<longleftrightarrow>
     (\<forall>i r. DeleteDone i r \<in> set (dinflight s) \<longrightarrow>
        (\<exists>j. i = Some (JsonStr j) \<and> (is_2xx r \<longrightarrow> j \<notin> lid ` set (db (dsrv s)))))"

definition shown_ok :: "dash_sys \<Rightarrow> bool" where
  "shown_ok s \<longleftrightarrow>
     (\<exists>ls. dash_listings (dstate s) = JsonArr (map listing_json ls) \<and>
        subseq (filter (\<lambda>l. lid l \<notin> dash_pending s) ls) (rev (db (dsrv s))))"

definition dash_inv :: "dash_sys \<Rightarrow> bool" where
  "dash_inv s \<longleftrightarrow>
     store_inv (dsrv s) \<and>
     (\<not> dmounted s \<longrightarrow> dinflight s = [] \<and> dash_listings (dstate s) = JsonArr []) \<and>
     shown_ok s \<and> fetch_ok s \<and> deletes_ok s"

subsection \<open>Each step keeps the invariant\<close>

lemma subseq_filter_mono:
  "(\<And>x. P x \<Longrightarrow> Q x) \<Longrightarrow> subseq (filter Q xs) ys \<Longrightarrow> subseq (filter P xs) ys"
proof -
  assume pq: "\<And>x. P x \<Longrightarrow> Q x" and s: "subseq (filter Q xs) ys"
  have "filter P xs = filter P (filter Q xs)" using pq by (induction xs) auto
  moreover have "subseq (filter P (filter Q xs)) (filter Q xs)" by (rule subseq_filter_left)
  ultimately show ?thesis using s by (metis subseq_order.order_trans)
qed

lemma dash_inv_init: "store_inv st0 \<Longrightarrow> dash_inv \<lparr>dstate = dashboard_init, dsrv = st0, dinflight = [], dmounted = False\<rparr>"
  by (simp add: dash_inv_def shown_ok_def fetch_ok_def deletes_ok_def dashboard_init_def dash_pending_def)

lemma dash_inv_mount:
  assumes inv: "dash_inv s" and "\<not> dmounted s"
    and a: "app_handle (dsrv s) (admin_listings_request tok) = Some (resp, st')"
  shows "dash_inv (s\<lparr>dsrv := st', dinflight := dinflight s @ [FetchDone resp], dmounted := True\<rparr>)"
proof -
  from a have "resp = ok_json (ListingsJson (take default_limit (rev (db (dsrv s))))) \<and> st' = dsrv s"
    by (auto simp: admin_listings_request_def app_admin_listings getListings_op_no_query)
  with inv assms(2) show ?thesis
    by (simp add: dash_inv_def shown_ok_def fetch_ok_def deletes_ok_def dash_pending_def)
qed

lemma dash_view_inv:
  assumes "dash_listings d = JsonArr (map listing_json ls)" and "dash_view d = Some cs" and "k < length cs"
  shows "k < length ls \<and> card_delete (cs ! k) = Some (JsonStr (lid (ls ! k)))"
proof -
  from assms(1) have "d = \<lparr>dash_listings = JsonArr (map listing_json ls)\<rparr>" by (cases d) simp
  with assms(2,3) show ?thesis by (auto simp: dash_view_listings)
qed

lemma store_inv_filter: "store_inv st \<Longrightarrow> store_inv (st\<lparr>db := filter P (db st)\<rparr>)"
  by (auto simp: store_inv_def distinct_map_filter)

lemma deletes_ok_send:
  assumes dels: "deletes_ok s" and sub: "set (db st') \<subseteq> set (db (dsrv s))"
    and new: "\<exists>j. i = Some (JsonStr j) \<and> (is_2xx r \<longrightarrow> j \<notin> lid ` set (db st'))"
  shows "deletes_ok (s\<lparr>dsrv := st', dinflight := dinflight s @ [DeleteDone i r]\<rparr>)"
  unfolding deletes_ok_def
proof (intro allI impI)
  fix i' r' assume "DeleteDone i' r' \<in> set (dinflight (s\<lparr>dsrv := st', dinflight := dinflight s @ [DeleteDone i r]\<rparr>))"
  then consider "DeleteDone i' r' \<in> set (dinflight s)" | "i' = i" "r' = r" by auto
  then show "\<exists>j. i' = Some (JsonStr j) \<and>
      (is_2xx r' \<longrightarrow> j \<notin> lid ` set (db (dsrv (s\<lparr>dsrv := st', dinflight := dinflight s @ [DeleteDone i r]\<rparr>))))"
  proof cases
    case 1
    from dels 1 obtain j where "i' = Some (JsonStr j)" "is_2xx r' \<longrightarrow> j \<notin> lid ` set (db (dsrv s))"
      unfolding deletes_ok_def by blast
    with sub show ?thesis by auto
  next
    case 2
    with new show ?thesis by simp
  qed
qed

lemma dash_inv_click:
  assumes inv: "dash_inv s" and v: "dash_view (dstate s) = Some cs" and k: "k < length cs"
    and a: "app_handle (dsrv s) (admin_delete_request tok (card_delete (cs ! k))) = Some (resp, st')"
  shows "dash_inv (s\<lparr>dsrv := st', dinflight := dinflight s @ [DeleteDone (card_delete (cs ! k)) resp]\<rparr>)"
    (is "dash_inv ?s'")
proof -
  from inv obtain ls where ls: "dash_listings (dstate s) = JsonArr (map listing_json ls)"
    and sub: "subseq (filter (\<lambda>l. lid l \<notin> dash_pending s) ls) (rev (db (dsrv s)))"
    by (auto simp: dash_inv_def shown_ok_def)
  from dash_view_inv [OF ls v k] have kl: "k < length ls"
    and cd: "card_delete (cs ! k) = Some (JsonStr (lid (ls ! k)))" by auto
  define j where "j = lid (ls ! k)"
  have nofetch: "FetchDone r \<notin> set (dinflight s)" for r
    using inv ls kl by (auto simp: dash_inv_def fetch_ok_def)
  have dels: "deletes_ok s" and si: "store_inv (dsrv s)" and mnt: "dmounted s"
    using inv ls kl by (auto simp: dash_inv_def)
  have app: "app_handle (dsrv s) (admin_delete_request tok (card_delete (cs ! k))) =
      (if j \<noteq> [] \<and> j \<in> lid ` set (db (dsrv s))
       then Some (ok_json (MessageJson ''Listing has been deleted!''),
                  (dsrv s)\<lparr>db := filter (\<lambda>l. lid l \<noteq> j) (db (dsrv s))\<rparr>)
       else Some (\<lparr>status = 404, payload = (if j = [] then CannotRoute DELETE [''api'', ''admin'', ''listings'', []]
                                           else ErrorJson False 404 ''NotFound'')\<rparr>, dsrv s))"
    by (simp add: admin_delete_request_def cd id_segment_def app_admin_delete_eq j_def)
  have fetch': "fetch_ok ?s'" using nofetch by (simp add: fetch_ok_def)
  show ?thesis
  proof (cases "j \<noteq> [] \<and> j \<in> lid ` set (db (dsrv s))")
    case True
    with a app have r: "resp = ok_json (MessageJson ''Listing has been deleted!'')"
      and st': "st' = (dsrv s)\<lparr>db := filter (\<lambda>l. lid l \<noteq> j) (db (dsrv s))\<rparr>" by auto
    have ok: "is_2xx resp" using r by (simp add: is_2xx_def ok_json_def)
    have pend: "dash_pending ?s' = insert j (dash_pending s)"
      using ok by (auto simp: dash_pending_def cd j_def)
    have "subseq (filter (\<lambda>l. lid l \<noteq> j) (filter (\<lambda>l. lid l \<notin> dash_pending s) ls))
                 (filter (\<lambda>l. lid l \<noteq> j) (rev (db (dsrv s))))"
      using sub by (rule subseq_filter)
    moreover have "filter (\<lambda>l. lid l \<notin> dash_pending ?s') ls =
        filter (\<lambda>l. lid l \<noteq> j) (filter (\<lambda>l. lid l \<notin> dash_pending s) ls)"
      by (simp add: pend conj_commute)
    moreover have "rev (db st') = filter (\<lambda>l. lid l \<noteq> j) (rev (db (dsrv s)))"
      by (simp add: st' rev_filter)
    ultimately have "shown_ok ?s'" using ls unfolding shown_ok_def
      by (intro exI [of _ ls]) simp
    moreover have "deletes_ok ?s'"
    proof (rule deletes_ok_send [OF dels])
      show "set (db st') \<subseteq> set (db (dsrv s))" by (auto simp: st')
      show "\<exists>j'. card_delete (cs ! k) = Some (JsonStr j') \<and> (is_2xx resp \<longrightarrow> j' \<notin> lid ` set (db st'))"
        using cd by (auto simp: st' j_def)
    qed
    moreover have "store_inv st'" using si st' by (simp add: store_inv_filter)
    ultimately show ?thesis using fetch' mnt by (simp add: dash_inv_def)
  next
    case False
    with a app have r: "\<not> is_2xx resp" and st': "st' = dsrv s" by (auto simp: is_2xx_def)
    have pend: "dash_pending ?s' = dash_pending s" using r by (auto simp: dash_pending_def)
    have "shown_ok ?s'" using inv pend st' by (simp add: dash_inv_def shown_ok_def)
    moreover have "deletes_ok ?s'"
      using deletes_ok_send [OF dels _, of st' "card_delete (cs ! k)" resp] r cd by (simp add: st')
    ultimately show ?thesis using fetch' mnt si st' by (simp add: dash_inv_def)
  qed
qed

lemma deletes_ok_deliver:
  "deletes_ok s \<Longrightarrow> set xs \<subseteq> set (dinflight s) \<Longrightarrow> deletes_ok (s\<lparr>dstate := d, dinflight := xs\<rparr>)"
  unfolding deletes_ok_def by auto

lemma dash_inv_deliver:
  assumes inv: "dash_inv s" and k: "k < length (dinflight s)"
  shows "dash_inv (s\<lparr>dstate := dash_deliver Bare (dinflight s ! k) (dstate s),
                     dinflight := remove_index k (dinflight s)\<rparr>)" (is "dash_inv ?s'")
proof -
  have mem: "dinflight s ! k \<in> set (dinflight s)" using k by simp
  have mnt: "dmounted s" using inv k by (auto simp: dash_inv_def)
  have si: "store_inv (dsrv s)" and dels: "deletes_ok s" and fo: "fetch_ok s" and sh: "shown_ok s"
    using inv by (simp_all add: dash_inv_def)
  have sub_msgs: "set (dinflight ?s') \<subseteq> set (dinflight s)"
    using set_remove_index_subset by simp
  show ?thesis
  proof (cases "dinflight s ! k")
    case (FetchDone r)
    with fo mem have r: "r = ok_json (ListingsJson (take default_limit (rev (db (dsrv s)))))"
      and one: "dinflight s = [FetchDone r]" by (auto simp: fetch_ok_def)
    with k have k0: "k = 0" by simp
    have e: "dinflight ?s' = []" by (simp add: one k0)
    have d: "dash_listings (dstate ?s') = JsonArr (map listing_json (take default_limit (rev (db (dsrv s)))))"
      using FetchDone r by (simp add: is_2xx_def ok_json_def axios_data_def payload_json_def success_body_def)
    have "shown_ok ?s'" unfolding shown_ok_def using d e
      by (intro exI [of _ "take default_limit (rev (db (dsrv s)))"])
         (simp add: dash_pending_def prefix_imp_subseq take_is_prefix del: remove_index_take_drop)
    moreover have "fetch_ok ?s'" "deletes_ok ?s'" using e
      by (simp_all add: fetch_ok_def deletes_ok_def del: remove_index_take_drop)
    ultimately show ?thesis using si mnt by (simp add: dash_inv_def)
  next
    case (DeleteDone i r)
    with mem have "DeleteDone i r \<in> set (dinflight s)" by simp
    with dels obtain j where i: "i = Some (JsonStr j)" unfolding deletes_ok_def by blast
    have nofetch: "FetchDone r' \<notin> set (dinflight s)" for r'
      using fo k DeleteDone by (auto simp: fetch_ok_def)
    have keep: "x \<in> set (dinflight ?s')" if "x \<in> set (dinflight s)" "x \<noteq> DeleteDone i r" for x
      using set_remove_index_keeps [OF k that(1)] that(2) DeleteDone by simp
    have pend: "dash_pending s \<subseteq> (if is_2xx r then insert j (dash_pending ?s') else dash_pending ?s')"
      using keep i by (auto simp: dash_pending_def)
    from sh obtain ls where ls: "dash_listings (dstate s) = JsonArr (map listing_json ls)"
      and sub: "subseq (filter (\<lambda>l. lid l \<notin> dash_pending s) ls) (rev (db (dsrv s)))"
      by (auto simp: shown_ok_def)
    have "shown_ok ?s'"
    proof (cases "is_2xx r")
      case True
      have "subseq (filter (\<lambda>l. lid l \<notin> dash_pending ?s') (filter (\<lambda>l. lid l \<noteq> j) ls)) (rev (db (dsrv s)))"
        unfolding filter_filter by (rule subseq_filter_mono [OF _ sub]) (use pend True in auto)
      then show ?thesis using ls DeleteDone i True unfolding shown_ok_def
        by (intro exI [of _ "filter (\<lambda>l. lid l \<noteq> j) ls"]) simp
    next
      case False
      have "subseq (filter (\<lambda>l. lid l \<notin> dash_pending ?s') ls) (rev (db (dsrv s)))"
        by (rule subseq_filter_mono [OF _ sub]) (use pend False in auto)
      then show ?thesis using ls DeleteDone False unfolding shown_ok_def by (intro exI [of _ ls]) simp
    qed
    moreover have "fetch_ok ?s'" using nofetch sub_msgs by (auto simp: fetch_ok_def)
    moreover have "deletes_ok ?s'" using deletes_ok_deliver [OF dels sub_msgs] by simp
    ultimately show ?thesis using si mnt by (simp add: dash_inv_def)
  qed
qed

lemma dash_step_inv: "dash_step Bare tok s s' \<Longrightarrow> dash_inv s \<Longrightarrow> dash_inv s'"
proof (induction rule: dash_step.induct)
  case (mount s resp st')
  then show ?case by (intro dash_inv_mount)
next
  case (click s cs k resp st')
  then show ?case by (intro dash_inv_click)
next
  case (deliver k s)
  then show ?case by (intro dash_inv_deliver)
qed

lemma dash_reach_inv: "dash_reach Bare tok st0 s \<Longrightarrow> store_inv st0 \<Longrightarrow> dash_inv s"
  by (induction rule: dash_reach.induct) (auto intro: dash_inv_init dash_step_inv)

lemma app_admin_listings_request:
  "app_handle st (admin_listings_request tok) = Some (ok_json (ListingsJson (take default_limit (rev (db st)))), st)"
  by (simp add: admin_listings_request_def app_admin_listings getListings_op_no_query)

lemma example_dash_reach: "dash_reach Bare None example_store example_dash"
proof -
  let ?s0 = "\<lparr>dstate = dashboard_init, dsrv = example_store, dinflight = [], dmounted = False\<rparr>"
  let ?r = "ok_json (ListingsJson (take default_limit (rev (db example_store))))"
  let ?s1 = "?s0\<lparr>dsrv := example_store, dinflight := dinflight ?s0 @ [FetchDone ?r], dmounted := True\<rparr>"
  have r1: "dash_reach Bare None example_store ?s1"
    by (intro dash_reach.step [OF dash_reach.init] dash_step.mount) (simp_all add: app_admin_listings_request)
  let ?s2 = "?s1\<lparr>dstate := dash_deliver Bare (dinflight ?s1 ! 0) (dstate ?s1), dinflight := remove_index 0 (dinflight ?s1)\<rparr>"
  have r2: "dash_reach Bare None example_store ?s2"
    by (rule dash_reach.step [OF r1 dash_step.deliver]) simp
  have r_ok: "is_2xx ?r" by (simp add: is_2xx_def ok_json_def)
  have "axios_data Bare (payload ?r) = JsonArr (map listing_json (db example_store))"
    by (simp add: ok_json_def axios_data_def payload_json_def success_body_def default_limit_def
        example_store_def)
  with r_ok have dd: "dash_deliver Bare (FetchDone ?r) dashboard_init =
      \<lparr>dash_listings = JsonArr (map listing_json (db example_store))\<rparr>"
    by (simp add: dashboard_init_def)
  then have d2: "dstate ?s2 = \<lparr>dash_listings = JsonArr (map listing_json (db example_store))\<rparr>"
    by (simp del: dash_deliver.simps)
  let ?cs = "map (\<lambda>l. \<lparr>card_title = None, card_description = Some (JsonStr (description l)),
                      card_delete = Some (JsonStr (lid l))\<rparr>) (db example_store)"
  have v: "dash_view (dstate ?s2) = Some ?cs" by (simp only: d2 dash_view_listings)
  have cd: "card_delete (?cs ! 0) = Some (JsonStr ''0'')" by (simp add: example_store_def)
  have "app_handle (dsrv ?s2) (admin_delete_request None (card_delete (?cs ! 0))) =
      Some (ok_json (MessageJson ''Listing has been deleted!''), example_store\<lparr>db := []\<rparr>)"
    by (simp only: cd) (simp add: admin_delete_request_def id_segment_def app_admin_delete_eq example_store_def)
  from dash_reach.step [OF r2 dash_step.click [OF v _ this]] have
    "dash_reach Bare None example_store
       (?s2\<lparr>dsrv := example_store\<lparr>db := []\<rparr>, dinflight := dinflight ?s2 @ [DeleteDone (card_delete (?cs ! 0))
           (ok_json (MessageJson ''Listing has been deleted!''))]\<rparr>)"
    by (simp add: example_store_def)
  moreover have "?s2\<lparr>dsrv := example_store\<lparr>db := []\<rparr>, dinflight := dinflight ?s2 @ [DeleteDone (card_delete (?cs ! 0))
           (ok_json (MessageJson ''Listing has been deleted!''))]\<rparr> = example_dash"
    using dd by (simp add: example_dash_def example_store_def del: dash_deliver.simps)
  ultimately show ?thesis by simp
qed

subsection \<open>Properties of the asynchronous dashboard\<close>

text \<open>
  C28. The dashboard refines the store under any interleaving of its requests and
  replies (controllers answering with the bare array, the dashboard the store's only
  client): in every reachable state the list shows JSON listings, those of them whose
  accepted deletion has not been answered yet apart form a subsequence of the stored
  listings newest first, and when no reply is in flight the whole list is one.
\<close>

theorem dashboard_async_refines_store:
  assumes "dash_reach Bare tok st0 s" and "store_inv st0"
  shows "\<exists>ls. dash_listings (dstate s) = JsonArr (map listing_json ls) \<and>
           subseq (filter (\<lambda>l. lid l \<notin> dash_pending s) ls) (rev (db (dsrv s))) \<and>
           (dinflight s = [] \<longrightarrow> subseq ls (rev (db (dsrv s))))"
proof -
  from dash_reach_inv [OF assms] obtain ls where ls: "dash_listings (dstate s) = JsonArr (map listing_json ls)"
    and sub: "subseq (filter (\<lambda>l. lid l \<notin> dash_pending s) ls) (rev (db (dsrv s)))"
    by (auto simp: dash_inv_def shown_ok_def)
  moreover have "dinflight s = [] \<Longrightarrow> filter (\<lambda>l. lid l \<notin> dash_pending s) ls = ls"
    by (simp add: dash_pending_def)
  ultimately show ?thesis using sub by auto
qed

theorem dashboard_async_refines_store_witness:
  "\<exists>ls. dash_listings (dstate example_dash) = JsonArr (map listing_json ls) \<and>
     subseq (filter (\<lambda>l. lid l \<notin> dash_pending example_dash) ls) (rev (db (dsrv example_dash)))"
proof -
  have "valid_draft (<) (the (draft_of_json example_body))" by (simp add: valid_draft_def)
  then have "store_inv example_store" by (simp add: store_inv_def example_store_def dec_string_0)
  from dashboard_async_refines_store [OF example_dash_reach this] show ?thesis by blast
qed

subsection \<open>Stale rows\<close>

lemma stale_row_store:
  assumes "lid l \<notin> lid ` set (db st)" and "\<exists>k < next_id st. lid l = dec_string k"
    and "app_handle st req = Some (resp, st')"
  shows "lid l \<notin> lid ` set (db st') \<and> (\<exists>k < next_id st'. lid l = dec_string k)"
proof -
  from app_handle_ids_grow [OF assms(3)] have g: "next_id st \<le> next_id st'"
    and ids: "\<forall>x \<in> set (db st'). lid x \<in> lid ` set (db st) \<or> (\<exists>k. next_id st \<le> k \<and> lid x = dec_string k)"
    by (auto simp: ids_grow_def)
  from assms(2) obtain k where k: "k < next_id st" "lid l = dec_string k" by blast
  have "lid l \<notin> lid ` set (db st')"
  proof
    assume "lid l \<in> lid ` set (db st')"
    then obtain x where x: "x \<in> set (db st')" "lid x = lid l" by auto
    with ids assms(1) obtain k' where "next_id st \<le> k'" "lid l = dec_string k'" by force
    with k dec_string_inj [of k k'] show False by simp
  qed
  with k g show ?thesis by (auto intro: less_le_trans)
qed

lemma admin_delete_stale:
  assumes "lid l \<notin> lid ` set (db st)"
    and "app_handle st (admin_delete_request tok (Some (JsonStr (lid l)))) = Some (resp, st')"
  shows "\<not> is_2xx resp"
  using assms by (auto simp: admin_delete_request_def id_segment_def app_admin_delete_eq is_2xx_def
                   split: if_splits)

lemma stale_row_step:
  assumes st: "stale_row l s" and step: "dash_env_step sh tok s s'"
  shows "stale_row l s'"
  using step
proof cases
  case (other req resp st')
  with st stale_row_store [of l "dsrv s" req resp st'] show ?thesis
    by (simp add: stale_row_def row_shown_def)
next
  case own
  from own st show ?thesis
  proof cases
    case (mount resp st')
    with st show ?thesis by (simp add: stale_row_def)
  next
    case (click cs k resp st')
    have sto: "lid l \<notin> lid ` set (db st') \<and> (\<exists>k < next_id st'. lid l = dec_string k)"
      using st click(4) stale_row_store [of l "dsrv s"] by (auto simp: stale_row_def)
    have "\<not> is_2xx resp" if "card_delete (cs ! k) = Some (JsonStr (lid l))"
      using st click(4) that admin_delete_stale [of l "dsrv s" tok resp st'] by (simp add: stale_row_def)
    with st sto click(1) show ?thesis by (auto simp: stale_row_def row_shown_def)
  next
    case (deliver k)
    have sub: "set (dinflight s') \<subseteq> set (dinflight s)"
      using deliver(1) set_remove_index_subset by simp
    have mem: "dinflight s ! k \<in> set (dinflight s)" using deliver(2) by simp
    obtain xs where xs: "dash_listings (dstate s) = JsonArr xs" "listing_json l \<in> set xs"
      using st by (auto simp: stale_row_def row_shown_def)
    have "row_shown l s'"
    proof (cases "dinflight s ! k")
      case (FetchDone r)
      with st mem show ?thesis by (simp add: stale_row_def)
    next
      case (DeleteDone i r)
      show ?thesis
      proof (cases "is_2xx r \<and> i = Some (JsonStr (lid l))")
        case True
        with st mem DeleteDone show ?thesis by (auto simp: stale_row_def)
      next
        case False
        with deliver(1) DeleteDone xs show ?thesis
          by (auto simp: row_shown_def drop_id_def)
      qed
    qed
    with st sub deliver(1) show ?thesis by (auto simp: stale_row_def)
  qed
qed

subsection \<open>A listing deleted by another client\<close>

text \<open>
  C29. A row whose listing another client has deleted never leaves the dashboard: from
  a state with such a row, whatever happens next (clicks on any Delete button, replies
  in any order, any other client's requests), the row is still shown and the listing is
  still not stored. Its Delete button gets 404, which \<open>handleDelete\<close> only logs; the
  mount's fetch, the only one, is over. The user has to reload the page.
\<close>

theorem dashboard_stale_row_stays:
  assumes "stale_row l s" and "(dash_env_step sh tok)\<^sup>*\<^sup>* s s'"
  shows "row_shown l s' \<and> lid l \<notin> lid ` set (db (dsrv s'))"
proof -
  from assms(2,1) have "stale_row l s'"
    by (induction rule: rtranclp_induct) (auto intro: stale_row_step)
  then show ?thesis by (simp add: stale_row_def)
qed

theorem dashboard_stale_row_stays_witness:
  "row_shown (hd (db example_store))
     (\<lparr>dstate = \<lparr>dash_listings = JsonArr (map listing_json (db example_store))\<rparr>,
       dsrv = example_store\<lparr>db := []\<rparr>, dinflight = [], dmounted = True\<rparr>
      \<lparr>dsrv := example_store\<lparr>db := []\<rparr>,
        dinflight := [DeleteDone (Some (JsonStr ''0'')) \<lparr>status = 404, payload = ErrorJson False 404 ''NotFound''\<rparr>]\<rparr>)"
proof -
  let ?l = "hd (db example_store)"
  let ?s = "\<lparr>dstate = \<lparr>dash_listings = JsonArr (map listing_json (db example_store))\<rparr>,
             dsrv = example_store\<lparr>db := []\<rparr>, dinflight = [], dmounted = True\<rparr>"
  let ?cs = "map (\<lambda>l. \<lparr>card_title = None, card_description = Some (JsonStr (description l)),
                      card_delete = Some (JsonStr (lid l))\<rparr>) (db example_store)"
  let ?resp = "\<lparr>status = 404, payload = ErrorJson False 404 ''NotFound''\<rparr>"
  have lid0: "lid ?l = ''0''" by (simp add: example_store_def)
  have stale: "stale_row ?l ?s"
    by (simp add: stale_row_def row_shown_def example_store_def dec_string_0)
  have v: "dash_view (dstate ?s) = Some ?cs" by (simp add: dash_view_listings)
  have cd: "card_delete (?cs ! 0) = Some (JsonStr ''0'')" by (simp add: example_store_def)
  have a: "app_handle (dsrv ?s) (admin_delete_request None (card_delete (?cs ! 0))) =
      Some (?resp, example_store\<lparr>db := []\<rparr>)"
    by (simp only: cd) (simp add: admin_delete_request_def id_segment_def app_admin_delete_eq)
  have "dash_env_step Bare None ?s
      (?s\<lparr>dsrv := example_store\<lparr>db := []\<rparr>, dinflight := dinflight ?s @ [DeleteDone (card_delete (?cs ! 0)) ?resp]\<rparr>)"
    by (rule dash_env_step.own [OF dash_step.click [OF v _ a]]) (simp add: example_store_def)
  then have "(dash_env_step Bare None)\<^sup>*\<^sup>* ?s
      (?s\<lparr>dsrv := example_store\<lparr>db := []\<rparr>, dinflight := [DeleteDone (Some (JsonStr ''0'')) ?resp]\<rparr>)"
    by (simp only: cd) simp
  from dashboard_stale_row_stays [OF stale this] show ?thesis by simp
qed

subsection \<open>Quiescence\<close>

lemma dash_auto_step: "dash_auto sh tok s s' \<Longrightarrow> dash_step sh tok s s'"
  by (induction rule: dash_auto.induct) (blast intro: dash_step.intros)+

lemma dash_auto_work: "dash_auto sh tok s s' \<Longrightarrow> dash_work s' < dash_work s"
  by (induction rule: dash_auto.induct) (auto simp: dash_work_def)

lemma dash_auto_steps_bound: "(dash_auto sh tok ^^ k) s s' \<Longrightarrow> k \<le> dash_work s"
proof (induction k arbitrary: s)
  case (Suc k)
  then obtain s1 where "dash_auto sh tok s s1" and "(dash_auto sh tok ^^ k) s1 s'"
    by (metis relpowp_Suc_D2)
  with Suc.IH [of s1] dash_auto_work [of sh tok s s1] show ?case by simp
qed simp

lemma dash_auto_reach:
  "(dash_auto sh tok)\<^sup>*\<^sup>* s s' \<Longrightarrow> dash_reach sh tok st0 s \<Longrightarrow> dash_reach sh tok st0 s'"
  by (induction rule: rtranclp_induct) (auto intro: dash_reach.step dash_auto_step)

text \<open>From any state the dashboard can always take its own next step until it is mounted
  and has handled every reply.\<close>

lemma dash_auto_quiesce:
  "\<exists>s'. (dash_auto sh tok)\<^sup>*\<^sup>* s s' \<and> dinflight s' = [] \<and> dmounted s'"
proof (induction "dash_work s" arbitrary: s rule: less_induct)
  case less
  have next_step: "\<exists>s'. (dash_auto sh tok)\<^sup>*\<^sup>* s s' \<and> dinflight s' = [] \<and> dmounted s'"
    if st: "dash_auto sh tok s s1" for s1
  proof -
    from less [OF dash_auto_work [OF st]] obtain s' where
      "(dash_auto sh tok)\<^sup>*\<^sup>* s1 s'" "dinflight s' = []" "dmounted s'" by blast
    with st show ?thesis by (meson converse_rtranclp_into_rtranclp)
  qed
  show ?case
  proof (cases "dmounted s")
    case False
    let ?r = "ok_json (ListingsJson (take default_limit (rev (db (dsrv s)))))"
    have "dash_auto sh tok s (s\<lparr>dsrv := dsrv s, dinflight := dinflight s @ [FetchDone ?r], dmounted := True\<rparr>)"
      using False by (intro dash_auto.mount) (simp_all add: app_admin_listings_request)
    then show ?thesis by (rule next_step)
  next
    case True
    show ?thesis
    proof (cases "dinflight s = []")
      case True
      with \<open>dmounted s\<close> show ?thesis by blast
    next
      case False
      have "dash_auto sh tok s (s\<lparr>dstate := dash_deliver sh (dinflight s ! 0) (dstate s),
                                   dinflight := remove_index 0 (dinflight s)\<rparr>)"
        using False by (intro dash_auto.deliver) simp
      then show ?thesis by (rule next_step)
    qed
  qed
qed

text \<open>
  C31. The dashboard's own activity terminates: without clicks there is no infinite run
  of the mount's fetch and reply deliveries (the effect fetches once, and no continuation
  sends another request).
\<close>

theorem dashboard_terminates: "wfP (\<lambda>s' s. dash_auto sh tok s s')"
  by (rule wfp_if_convertible_to_nat [where f = dash_work]) (rule dash_auto_work)

text \<open>
  C32. A dashboard session always settles, and soon: from every reachable state, once the
  user stops clicking, every run of the dashboard's own steps has at most
  \<open>dash_work\<close> steps (two for a fetch not yet sent, one per reply in flight); such a
  run can always be extended until the dashboard has no step of its own left; and every
  state where it has none is reachable, mounted and has no reply in flight (where, by
  C28, the list is a subsequence of the stored listings).
\<close>

theorem dashboard_settles:
  assumes "dash_reach sh tok st0 s"
  shows "(\<forall>k s'. (dash_auto sh tok ^^ k) s s' \<longrightarrow> k \<le> dash_work s) \<and>
         (\<exists>s'. (dash_auto sh tok)\<^sup>*\<^sup>* s s' \<and> (\<forall>s''. \<not> dash_auto sh tok s' s'')) \<and>
         (\<forall>s'. (dash_auto sh tok)\<^sup>*\<^sup>* s s' \<and> (\<forall>s''. \<not> dash_auto sh tok s' s'') \<longrightarrow>
               dash_reach sh tok st0 s' \<and> dinflight s' = [] \<and> dmounted s')"
proof -
  have bound: "\<forall>k s'. (dash_auto sh tok ^^ k) s s' \<longrightarrow> k \<le> dash_work s"
    using dash_auto_steps_bound by blast
  obtain s' where run: "(dash_auto sh tok)\<^sup>*\<^sup>* s s'" and q: "dinflight s' = []" "dmounted s'"
    using dash_auto_quiesce [of sh tok s] by blast
  have "\<not> dash_auto sh tok s' s''" for s''
    using q by (auto simp: dash_work_def dest: dash_auto_work)
  with run have ends: "\<exists>s'. (dash_auto sh tok)\<^sup>*\<^sup>* s s' \<and> (\<forall>s''. \<not> dash_auto sh tok s' s'')"
    by blast
  have stuck_ok: "\<forall>s'. (dash_auto sh tok)\<^sup>*\<^sup>* s s' \<and> (\<forall>s''. \<not> dash_auto sh tok s' s'') \<longrightarrow>
                    dash_reach sh tok st0 s' \<and> dinflight s' = [] \<and> dmounted s'"
  proof (intro allI impI)
    fix s' assume "(dash_auto sh tok)\<^sup>*\<^sup>* s s' \<and> (\<forall>s''. \<not> dash_auto sh tok s' s'')"
    then have run: "(dash_auto sh tok)\<^sup>*\<^sup>* s s'" and stuck: "\<And>s''. \<not> dash_auto sh tok s' s''"
      by blast+
    obtain q where "(dash_auto sh tok)\<^sup>*\<^sup>* s' q" "dinflight q = []" "dmounted q"
      using dash_auto_quiesce [of sh tok s'] by blast
    with stuck have "dinflight s' = [] \<and> dmounted s'" by (auto elim: converse_rtranclpE)
    with dash_auto_reach [OF run assms]
    show "dash_reach sh tok st0 s' \<and> dinflight s' = [] \<and> dmounted s'" by blast
  qed
  from bound ends stuck_ok show ?thesis by blast
qed

theorem dashboard_settles_witness:
  "(\<forall>s'. \<not> (dash_auto Bare None ^^ 2) example_dash s') \<and>
   (\<exists>s'. (dash_auto Bare None)\<^sup>*\<^sup>* example_dash s' \<and> (\<forall>s''. \<not> dash_auto Bare None s' s''))"
proof -
  have w: "dash_work example_dash = 1" by (simp add: dash_work_def example_dash_def)
  from dashboard_settles [OF example_dash_reach]
  have b: "\<forall>k s'. (dash_auto Bare None ^^ k) example_dash s' \<longrightarrow> k \<le> dash_work example_dash"
    and e: "\<exists>s'. (dash_auto Bare None)\<^sup>*\<^sup>* example_dash s' \<and> (\<forall>s''. \<not> dash_auto Bare None s' s'')"
    by blast+
  from b w have "\<forall>s'. \<not> (dash_auto Bare None ^^ 2) example_dash s'" by fastforce
  with e show ?thesis by blast
qed

end
