(* ===== verification/CreateListing.thy ===== *)
theory CreateListing
  imports ListingData
begin

text \<open>
  The create-listing page, \<open>src/client/src/pages/CreateListing.jsx\<close>, as a state machine.
  The component's \<open>useState\<close> hooks are the fields of \<open>form_state\<close>; each user action
  or completion of an asynchronous call is an event, and \<open>form_step\<close> is what the
  handler of that event does to the state. Two handlers are asynchronous:
  \<^item> \<open>handleImageSubmit\<close> checks the image count, sets \<open>uploading\<close>, starts one upload per
    selected file and, when all have resolved, stores
    \<open>{...formData, imageUrls: formData.imageUrls.concat(urls)}\<close>. The \<open>formData\<close> there is
    the one of the render in which the button was clicked: the closure keeps a snapshot,
    recorded in \<open>pending_upload\<close> with the files it uploads;
  \<^item> \<open>handleSubmit\<close> checks the draft, sets \<open>loading\<close> and posts the draft; the posted
    bodies are recorded in \<open>requests\<close>, and the reply is a later event.
  A disabled control delivers no event: the upload button while \<open>uploading\<close>, the submit
  button (and so the form's implicit submission) while \<open>loading || uploading\<close>; the
  discount input exists only while \<open>formData.offer\<close> holds.
\<close>

record form_state =
  files :: "js_string list"
  formData :: "jsnum draft"
  imageUploadError :: "js_string option"
  uploading :: bool
  error :: "js_string option"
  loading :: bool
  pending_upload :: "(jsnum draft \<times> js_string list) option"
  requests :: "jsnum draft list"
  navigated :: "js_string option"

definition initial_formData :: "jsnum draft" where
  "initial_formData =
     \<lparr>imageUrls = [], name = [], description = [], address = [], type = ''rent'',
      bedrooms = JNum 1, bathrooms = JNum 1, regularPrice = JNum 50, discountPrice = JNum 0,
      offer = False, parking = False, furnished = False\<rparr>"

definition form_init :: form_state where
  "form_init =
     \<lparr>files = [], formData = initial_formData, imageUploadError = None, uploading = False,
      error = None, loading = False, pending_upload = None, requests = [], navigated = None\<rparr>"

datatype text_field = Name | Description | Address
datatype num_field = Bedrooms | Bathrooms | RegularPrice | DiscountPrice
datatype bool_field = Offer | Parking | Furnished

text \<open>
  What the page reads of the parsed reply to the create request
  (\<open>data = await response.json()\<close>): the truthiness of \<open>data.success\<close>, the string
  \<open>${data._id}\<close> and \<open>data.message\<close>; \<open>None\<close> where the property is \<open>undefined\<close>.
\<close>

record reply_json =
  success :: "bool option"
  reply_id :: "js_string option"
  reply_message :: "js_string option"

text \<open>
  The hosting service's answer to one upload: \<open>uploadToCloudinary\<close> posts the form
  data \<open>{file, upload_preset}\<close>; the service answers with the response's
  \<open>secure_url\<close> or the post rejects (\<open>None\<close>). The completion event of an upload
  carries the service's answers to the files it posted.
\<close>

type_synonym upload_form = "(js_string \<times> js_string) list"

datatype ui_event =
    SelectFiles "js_string list"
  | ClickUpload
  | UploadsSettled "upload_form \<Rightarrow> js_string option"
  | RemoveImage nat
  | ChangeText text_field js_string
  | ChangeNumber num_field js_string
  | ChangeCheckbox bool_field bool
  | ToggleSale
  | Submit
  | SubmitReply reply_json
  | SubmitThrows

subsection \<open>The handlers\<close>

fun set_text :: "text_field \<Rightarrow> js_string \<Rightarrow> jsnum draft \<Rightarrow> jsnum draft" where
  "set_text Name v d = d\<lparr>name := v\<rparr>"
| "set_text Description v d = d\<lparr>description := v\<rparr>"
| "set_text Address v d = d\<lparr>address := v\<rparr>"

fun set_number :: "num_field \<Rightarrow> jsnum \<Rightarrow> jsnum draft \<Rightarrow> jsnum draft" where
  "set_number Bedrooms v d = d\<lparr>bedrooms := v\<rparr>"
| "set_number Bathrooms v d = d\<lparr>bathrooms := v\<rparr>"
| "set_number RegularPrice v d = d\<lparr>regularPrice := v\<rparr>"
| "set_number DiscountPrice v d = d\<lparr>discountPrice := v\<rparr>"

fun set_checkbox :: "bool_field \<Rightarrow> bool \<Rightarrow> jsnum draft \<Rightarrow> jsnum draft" where
  "set_checkbox Offer v d = d\<lparr>offer := v\<rparr>"
| "set_checkbox Parking v d = d\<lparr>parking := v\<rparr>"
| "set_checkbox Furnished v d = d\<lparr>furnished := v\<rparr>"

definition handleImageSubmit :: "form_state \<Rightarrow> form_state" where
  "handleImageSubmit s =
     (if files s \<noteq> [] \<and> length (files s) + length (imageUrls (formData s)) \<le> 6
      then s\<lparr>uploading := True, imageUploadError := None,
             pending_upload := Some (formData s, files s)\<rparr>
      else s\<lparr>imageUploadError := Some ''You can upload up to 6 images per listing''\<rparr>)"

definition uploadPreset :: js_string where
  "uploadPreset = ''mern-estate''"

definition uploadData :: "js_string \<Rightarrow> upload_form" where
  "uploadData file = [(''file'', file), (''upload_preset'', uploadPreset)]"

definition uploadToCloudinary :: "(upload_form \<Rightarrow> js_string option) \<Rightarrow> js_string \<Rightarrow> js_string + js_string" where
  "uploadToCloudinary svc file =
     (case svc (uploadData file) of
        Some secure_url \<Rightarrow> Inr secure_url
      | None \<Rightarrow> Inl ''Failed to upload image to Cloudinary'')"

definition uploadsResolved :: "jsnum draft \<Rightarrow> js_string list \<Rightarrow> form_state \<Rightarrow> form_state" where
  "uploadsResolved snap urls s =
     s\<lparr>formData := snap\<lparr>imageUrls := imageUrls snap @ urls\<rparr>,
       imageUploadError := None, uploading := False, pending_upload := None\<rparr>"

definition uploadRejected :: "form_state \<Rightarrow> form_state" where
  "uploadRejected s =
     s\<lparr>imageUploadError := Some ''Image upload failed (2 MB max per image)'',
       uploading := False, pending_upload := None\<rparr>"

text \<open>
  The continuation of \<open>handleImageSubmit\<close> after \<open>await Promise.all(promises)\<close>: the
  \<open>try\<close> branch with the resolved URLs, the \<open>catch\<close> branch when an upload rejected.
\<close>

definition uploadsSettled :: "(upload_form \<Rightarrow> js_string option) \<Rightarrow> form_state \<Rightarrow> form_state" where
  "uploadsSettled svc s =
     (case pending_upload s of
        None \<Rightarrow> s
      | Some (snap, fs) \<Rightarrow>
          (case promise_all (map (uploadToCloudinary svc) fs) of
             Inr urls \<Rightarrow> uploadsResolved snap urls s
           | Inl _ \<Rightarrow> uploadRejected s))"

definition handleRemoveImage :: "nat \<Rightarrow> form_state \<Rightarrow> form_state" where
  "handleRemoveImage k s =
     s\<lparr>formData := (formData s)\<lparr>imageUrls := remove_index k (imageUrls (formData s))\<rparr>\<rparr>"

definition handleSubmit :: "form_state \<Rightarrow> form_state" where
  "handleSubmit s =
     (if length (imageUrls (formData s)) < 1
      then s\<lparr>error := Some ''At least one image is required.''\<rparr>
      else if js_less (regularPrice (formData s)) (discountPrice (formData s))
      then s\<lparr>error := Some ''Discount price must be lower than regular price.''\<rparr>
      else s\<lparr>loading := True, error := None, requests := requests s @ [formData s]\<rparr>)"

definition submitReply :: "reply_json \<Rightarrow> form_state \<Rightarrow> form_state" where
  "submitReply j s =
     (if success j = Some True
      then s\<lparr>loading := False,
             navigated := Some (''/listing/'' @ (case reply_id j of None \<Rightarrow> ''undefined'' | Some i \<Rightarrow> i))\<rparr>
      else s\<lparr>loading := False, error := reply_message j\<rparr>)"

fun form_step :: "form_state \<Rightarrow> ui_event \<Rightarrow> form_state" where
  "form_step s (SelectFiles fs) = s\<lparr>files := fs\<rparr>"
| "form_step s ClickUpload = (if uploading s then s else handleImageSubmit s)"
| "form_step s (UploadsSettled svc) = uploadsSettled svc s"
| "form_step s (RemoveImage k) = handleRemoveImage k s"
| "form_step s (ChangeText f v) = s\<lparr>formData := set_text f v (formData s)\<rparr>"
| "form_step s (ChangeNumber f v) =
     (if f = DiscountPrice \<and> \<not> offer (formData s) then s
      else s\<lparr>formData := set_number f (parseInt v) (formData s)\<rparr>)"
| "form_step s (ChangeCheckbox f v) = s\<lparr>formData := set_checkbox f v (formData s)\<rparr>"
| "form_step s ToggleSale =
     s\<lparr>formData := (formData s)\<lparr>type := (if type (formData s) = ''sale'' then ''rent'' else ''sale'')\<rparr>\<rparr>"
| "form_step s Submit = (if loading s \<or> uploading s then s else handleSubmit s)"
| "form_step s (SubmitReply j) = (if loading s then submitReply j s else s)"
| "form_step s SubmitThrows =
     (if loading s then s\<lparr>error := Some ''Failed to create listing. Please try again.'', loading := False\<rparr>
      else s)"

fun form_run :: "form_state \<Rightarrow> ui_event list \<Rightarrow> form_state" where
  "form_run s [] = s"
| "form_run s (e # es) = form_run (form_step s e) es"

inductive form_reachable :: "form_state \<Rightarrow> bool" where
  init: "form_reachable form_init"
| step: "form_reachable s \<Longrightarrow> form_reachable (form_step s e)"

fun completes_upload :: "ui_event \<Rightarrow> bool" where
  "completes_upload (UploadsSettled _) = True"
| "completes_upload _ = False"

subsection \<open>The form invariant\<close>

text \<open>
  \<open>uploading\<close> is set exactly while an upload is in flight; the image list has at most
  six entries, and so has the snapshot an upload will complete with its files; every
  posted draft passed the submit checks.
\<close>

definition submit_ok :: "jsnum draft \<Rightarrow> bool" where
  "submit_ok d \<longleftrightarrow> 1 \<le> length (imageUrls d) \<and> \<not> js_less (regularPrice d) (discountPrice d)"

definition form_inv :: "form_state \<Rightarrow> bool" where
  "form_inv s \<longleftrightarrow>
     length (imageUrls (formData s)) \<le> 6 \<and>
     (uploading s \<longleftrightarrow> pending_upload s \<noteq> None) \<and>
     (case pending_upload s of None \<Rightarrow> True | Some (snap, fs) \<Rightarrow> length (imageUrls snap) + length fs \<le> 6) \<and>
     list_all (\<lambda>d. submit_ok d \<and> length (imageUrls d) \<le> 6) (requests s)"

lemma form_inv_init: "form_inv form_init"
  by (simp add: form_inv_def form_init_def initial_formData_def)

lemma imageUrls_set_text [simp]: "imageUrls (set_text f v d) = imageUrls d"
  by (cases f) simp_all

lemma imageUrls_set_number [simp]: "imageUrls (set_number g n d) = imageUrls d"
  by (cases g) simp_all

lemma imageUrls_set_checkbox [simp]: "imageUrls (set_checkbox h b d) = imageUrls d"
  by (cases h) simp_all

text \<open>
  The uploads of one click resolve together exactly when the service accepts every file;
  the URLs are then in the order of the files, whatever order the answers came in.
\<close>

lemma upload_all:
  "promise_all (map (uploadToCloudinary svc) fs) =
     (if \<forall>f \<in> set fs. svc (uploadData f) \<noteq> None
      then Inr (map (\<lambda>f. the (svc (uploadData f))) fs)
      else Inl ''Failed to upload image to Cloudinary'')"
  by (induction fs) (auto simp: uploadToCloudinary_def split: option.splits)

lemmas form_handler_defs = handleImageSubmit_def uploadsSettled_def uploadsResolved_def
  uploadRejected_def handleRemoveImage_def handleSubmit_def submitReply_def upload_all

lemma form_step_inv: "form_inv s \<Longrightarrow> form_inv (form_step s e)"
proof (cases e)
  case (RemoveImage k)
  moreover have "length (remove_index k xs) \<le> 6" if "length xs \<le> 6" for xs :: "js_string list"
    using length_remove_index_le [of k xs] that by linarith
  ultimately show "form_inv s \<Longrightarrow> form_inv (form_step s e)"
    by (simp add: form_inv_def handleRemoveImage_def del: remove_index_take_drop)
next
  case Submit
  then show "form_inv s \<Longrightarrow> form_inv (form_step s e)"
    by (auto simp: form_inv_def handleSubmit_def submit_ok_def Suc_le_eq)
qed (auto simp: form_inv_def form_handler_defs split: option.splits prod.splits)

lemma form_reachable_inv: "form_reachable s \<Longrightarrow> form_inv s"
  by (induction rule: form_reachable.induct) (auto intro: form_inv_init form_step_inv)

lemma form_run_reachable: "form_reachable s \<Longrightarrow> form_reachable (form_run s es)"
  by (induction es arbitrary: s) (auto intro: form_reachable.step)

definition type_inv :: "form_state \<Rightarrow> bool" where
  "type_inv s \<longleftrightarrow>
     type (formData s) \<in> {''rent'', ''sale''} \<and>
     (case pending_upload s of None \<Rightarrow> True | Some (snap, _) \<Rightarrow> type snap \<in> {''rent'', ''sale''})"

lemma type_set_text [simp]: "type (set_text f v d) = type d"
  by (cases f) simp_all

lemma type_set_number [simp]: "type (set_number g n d) = type d"
  by (cases g) simp_all

lemma type_set_checkbox [simp]: "type (set_checkbox h b d) = type d"
  by (cases h) simp_all

lemma type_inv_step: "type_inv s \<Longrightarrow> type_inv (form_step s e)"
  by (cases e) (auto simp: type_inv_def form_handler_defs split: option.splits prod.splits)

lemma form_run_append: "form_run s (xs @ ys) = form_run (form_run s xs) ys"
  by (induction xs arbitrary: s) simp_all

lemma upload_in_flight_step:
  assumes "uploading s" and "\<not> completes_upload e"
  shows "pending_upload (form_step s e) = pending_upload s \<and> uploading (form_step s e)"
  using assms by (cases e) (auto simp: form_handler_defs)

lemma upload_in_flight_run:
  "uploading s \<Longrightarrow> \<forall>e \<in> set es. \<not> completes_upload e \<Longrightarrow>
   pending_upload (form_run s es) = pending_upload s \<and> uploading (form_run s es)"
  by (induction es arbitrary: s) (auto dest: upload_in_flight_step)

subsection \<open>Properties of the form\<close>

text \<open>
  C12. In every state the page can reach, the listing has at most six images, and every
  draft it has posted has between one and six images and passed the price check: the
  upload guard \<open>files.length + formData.imageUrls.length <= 6\<close> together with the
  disabled upload button keeps the count bounded even though an upload completes on a
  snapshot.
\<close>

theorem form_reachable_images:
  assumes "form_reachable s"
  shows "length (imageUrls (formData s)) \<le> 6 \<and>
         (\<forall>d \<in> set (requests s). 1 \<le> length (imageUrls d) \<and> length (imageUrls d) \<le> 6 \<and>
                                 \<not> js_less (regularPrice d) (discountPrice d))"
  using form_reachable_inv [OF assms] by (auto simp: form_inv_def submit_ok_def list_all_iff)

theorem form_reachable_images_witness:
  "length (imageUrls (formData (form_run form_init
      [SelectFiles [''a'', ''b'', ''c'', ''d'', ''e'', ''f''], ClickUpload, UploadsSettled (\<lambda>d. Some (snd (hd d)))]))) \<le> 6 \<and>
   length (imageUrls (formData (form_run form_init
      [SelectFiles [''a'', ''b'', ''c'', ''d'', ''e'', ''f''], ClickUpload, UploadsSettled (\<lambda>d. Some (snd (hd d)))]))) = 6"
proof -
  let ?s = "form_run form_init [SelectFiles [''a'', ''b'', ''c'', ''d'', ''e'', ''f''], ClickUpload,
              UploadsSettled (\<lambda>d. Some (snd (hd d)))]"
  have "form_reachable ?s" by (rule form_run_reachable [OF form_reachable.init])
  from form_reachable_images [OF this] show ?thesis
    by (simp add: form_init_def initial_formData_def form_handler_defs)
qed

text \<open>
  C13. Pressing submit posts the current draft exactly when the button is enabled (not
  loading, not uploading), there is at least one image, and the regular price is not
  below the discount price as JavaScript compares them; otherwise nothing is posted.
\<close>

theorem submit_posts_iff:
  "requests (form_step s Submit) =
     (if \<not> loading s \<and> \<not> uploading s \<and> imageUrls (formData s) \<noteq> [] \<and>
         \<not> js_less (regularPrice (formData s)) (discountPrice (formData s))
      then requests s @ [formData s] else requests s)"
  by (auto simp: handleSubmit_def)

text \<open>
  C14. Edits made while an upload is in flight are lost: whatever the user types, ticks or
  removes between the click on Upload and the completion of the uploads, the form ends
  with the draft of the moment of the click plus the URLs the service returned for the
  selected files, in their order, because the completion handler spreads the
  \<open>formData\<close> its closure captured.
\<close>

theorem upload_discards_concurrent_edits:
  assumes "\<not> uploading s" and "files s \<noteq> []"
    and "length (files s) + length (imageUrls (formData s)) \<le> 6"
    and "\<forall>e \<in> set es. \<not> completes_upload e"
    and "\<forall>f \<in> set (files s). svc (uploadData f) = Some (url f)"
  shows "formData (form_run s (ClickUpload # es @ [UploadsSettled svc])) =
         (formData s)\<lparr>imageUrls := imageUrls (formData s) @ map url (files s)\<rparr>"
proof -
  let ?s1 = "form_step s ClickUpload"
  have s1: "uploading ?s1" "pending_upload ?s1 = Some (formData s, files s)"
    using assms(1-3) by (simp_all add: handleImageSubmit_def)
  from upload_in_flight_run [OF s1(1) assms(4)] s1(2)
  have "pending_upload (form_run ?s1 es) = Some (formData s, files s)" by simp
  moreover have "form_run s (ClickUpload # es @ [UploadsSettled svc]) =
                 form_step (form_run ?s1 es) (UploadsSettled svc)"
    by (simp add: form_run_append)
  moreover have "map (\<lambda>f. the (svc (uploadData f))) (files s) = map url (files s)"
    using assms(5) by simp
  ultimately show ?thesis using assms(5) by (simp add: uploadsSettled_def uploadsResolved_def upload_all)
qed

theorem upload_discards_concurrent_edits_witness:
  "formData (form_run (form_init\<lparr>files := [''a.png'']\<rparr>)
      (ClickUpload # [ChangeText Name ''Villa''] @ [UploadsSettled (\<lambda>d. Some (''https://cdn/'' @ snd (hd d)))])) =
   initial_formData\<lparr>imageUrls := [''https://cdn/a.png'']\<rparr>"
proof -
  have "formData (form_run (form_init\<lparr>files := [''a.png'']\<rparr>)
      (ClickUpload # [ChangeText Name ''Villa''] @ [UploadsSettled (\<lambda>d. Some (''https://cdn/'' @ snd (hd d)))])) =
      (formData (form_init\<lparr>files := [''a.png'']\<rparr>))\<lparr>imageUrls :=
         imageUrls (formData (form_init\<lparr>files := [''a.png'']\<rparr>)) @
         map (\<lambda>f. ''https://cdn/'' @ f) (files (form_init\<lparr>files := [''a.png'']\<rparr>))\<rparr>"
    by (rule upload_discards_concurrent_edits) (simp_all add: form_init_def initial_formData_def uploadData_def)
  then show ?thesis by (simp add: form_init_def initial_formData_def)
qed

text \<open>
  C19. The transaction type stays one of \<open>rent\<close> and \<open>sale\<close> in every reachable state:
  only the Sale checkbox writes it, toggling between the two, and an upload completes
  with a snapshot that had one of them.
\<close>

theorem form_reachable_type:
  assumes "form_reachable s"
  shows "type (formData s) \<in> {''rent'', ''sale''}"
proof -
  from assms have "type_inv s"
  proof (induction rule: form_reachable.induct)
    case init
    show ?case by (simp add: type_inv_def form_init_def initial_formData_def)
  next
    case (step s e)
    from step.IH show ?case by (rule type_inv_step)
  qed
  then show ?thesis by (simp add: type_inv_def)
qed

theorem form_reachable_type_witness:
  "type (formData (form_run form_init [ToggleSale, ToggleSale, ToggleSale])) \<in> {''rent'', ''sale''}"
  by (rule form_reachable_type [OF form_run_reachable [OF form_reachable.init]])

text \<open>
  C20. An upload is all or nothing. When every selected file is accepted by the hosting
  service, the images become those of the click-time draft followed by one returned URL
  per file, in the order of the files; when any file is refused, \<open>Promise.all\<close> rejects,
  no image is added (not even those of files that did upload), the current draft is kept
  and the failure message is shown. Either way the upload button is enabled again.
\<close>

theorem upload_all_or_nothing:
  assumes "pending_upload s = Some (snap, fs)"
  shows "form_step s (UploadsSettled svc) =
           (if \<forall>f \<in> set fs. svc (uploadData f) \<noteq> None
            then s\<lparr>formData := snap\<lparr>imageUrls := imageUrls snap @ map (\<lambda>f. the (svc (uploadData f))) fs\<rparr>,
                   imageUploadError := None, uploading := False, pending_upload := None\<rparr>
            else s\<lparr>imageUploadError := Some ''Image upload failed (2 MB max per image)'',
                   uploading := False, pending_upload := None\<rparr>)"
  using assms by (auto simp add: uploadsSettled_def uploadsResolved_def uploadRejected_def upload_all)

theorem upload_all_or_nothing_witness:
  "form_step (form_init\<lparr>uploading := True, pending_upload := Some (initial_formData, [''a.png'', ''b.png''])\<rparr>)
      (UploadsSettled (\<lambda>d. if snd (hd d) = ''b.png'' then None else Some ''https://cdn/a.png'')) =
   form_init\<lparr>imageUploadError := Some ''Image upload failed (2 MB max per image)''\<rparr>"
  using upload_all_or_nothing [of "form_init\<lparr>uploading := True, pending_upload := Some (initial_formData, [''a.png'', ''b.png''])\<rparr>"
      initial_formData "[''a.png'', ''b.png'']" "\<lambda>d. if snd (hd d) = ''b.png'' then None else Some ''https://cdn/a.png''"]
  by (simp add: form_init_def uploadData_def)

text \<open>
  C21. An upload in flight always ends: in every reachable state in which the upload
  button is disabled (\<open>uploading\<close>), the settlement of the uploads, whatever the hosting
  service answered, enables it again and leaves no upload pending. The page cannot stay
  stuck in \<open>Uploading...\<close>, because \<open>uploading\<close> is set exactly while an upload is pending.
\<close>

theorem upload_settles:
  assumes "form_reachable s" and "uploading s"
  shows "\<not> uploading (form_step s (UploadsSettled svc)) \<and> pending_upload (form_step s (UploadsSettled svc)) = None"
proof -
  from form_reachable_inv [OF assms(1)] assms(2) obtain snap fs where "pending_upload s = Some (snap, fs)"
    by (auto simp: form_inv_def)
  then show ?thesis
    by (simp add: uploadsSettled_def uploadsResolved_def uploadRejected_def split: sum.split)
qed

theorem upload_settles_witness:
  "uploading (form_run form_init [SelectFiles [''a.png''], ClickUpload]) \<and>
   \<not> uploading (form_step (form_run form_init [SelectFiles [''a.png''], ClickUpload]) (UploadsSettled (\<lambda>_. None)))"
proof -
  let ?s = "form_run form_init [SelectFiles [''a.png''], ClickUpload]"
  have r: "form_reachable ?s" by (rule form_run_reachable [OF form_reachable.init])
  have u: "uploading ?s" by (simp add: form_init_def initial_formData_def handleImageSubmit_def)
  from u upload_settles [OF r u, of "\<lambda>_. None"] show ?thesis by simp
qed

end
