(* ===== verification/CreateFlow.thy ===== *)
theory CreateFlow
  imports Routes CreateListing
begin

text \<open>
  The create page talking to the server. \<open>handleSubmit\<close> in
  \<open>src/client/src/pages/CreateListing.jsx\<close> posts the draft with \<open>fetch\<close> to
  \<open>/api/listing/create\<close> (the browser adds the \<open>access_token\<close> cookie), parses the
  reply with \<open>response.json()\<close> and either navigates to \<open>/listing/${data._id}\<close>, shows
  \<open>data.message\<close>, or, when the request or the parsing throws, shows a fixed failure
  message. The composed system pairs the page's state with the server's store; a step is
  a user event on the page, the server answering the request in flight, or the network
  failing it before or after the server handled it.
\<close>

subsection \<open>The request and the reply as the page sees them\<close>

definition create_request :: "js_string option \<Rightarrow> jsnum draft \<Rightarrow> request" where
  "create_request tok d =
     mk_request POST [''api'', ''listing'', ''create''] tok (DraftBody (draft_to_json d)) no_query"

text \<open>
  The fields the page reads from the parsed body (\<open>data.success\<close>, \<open>data._id\<close>,
  \<open>data.message\<close>). \<open>response.json()\<close> throws on a body that is not JSON, and the
  page's \<open>catch\<close> handles it.
\<close>

definition read_reply :: "json \<Rightarrow> reply_json" where
  "read_reply j =
     \<lparr>success = map_option json_truthy (json_get j ''success''),
      reply_id = map_option json_string (json_get j ''_id''),
      reply_message = map_option json_string (json_get j ''message'')\<rparr>"

definition reply_event :: "success_shape \<Rightarrow> response \<Rightarrow> ui_event" where
  "reply_event sh resp =
     (case payload_json sh (payload resp) of Some j \<Rightarrow> SubmitReply (read_reply j) | None \<Rightarrow> SubmitThrows)"

fun network_event :: "ui_event \<Rightarrow> bool" where
  "network_event (SubmitReply _) = True"
| "network_event SubmitThrows = True"
| "network_event _ = False"

subsection \<open>The composed system\<close>

record create_sys =
  page :: form_state
  srv :: store

text \<open>
  \<open>tok\<close> is the browser's cookie, fixed for the session, and \<open>sh\<close> the shape of the
  controllers' success bodies. The request in flight is the last posted draft:
  submitting is disabled while \<open>loading\<close>.
\<close>

inductive create_step :: "success_shape \<Rightarrow> js_string option \<Rightarrow> create_sys \<Rightarrow> create_sys \<Rightarrow> bool"
  for sh tok where
  user: "\<not> network_event e \<Longrightarrow> create_step sh tok c (c\<lparr>page := form_step (page c) e\<rparr>)"
| reply: "loading (page c) \<Longrightarrow>
    app_handle (srv c) (create_request tok (last (requests (page c)))) = Some (resp, st') \<Longrightarrow>
    create_step sh tok c \<lparr>page = form_step (page c) (reply_event sh resp), srv = st'\<rparr>"
| lost_request: "loading (page c) \<Longrightarrow> create_step sh tok c (c\<lparr>page := form_step (page c) SubmitThrows\<rparr>)"
| lost_reply: "loading (page c) \<Longrightarrow>
    app_handle (srv c) (create_request tok (last (requests (page c)))) = Some (resp, st') \<Longrightarrow>
    create_step sh tok c \<lparr>page = form_step (page c) SubmitThrows, srv = st'\<rparr>"

inductive create_reach :: "success_shape \<Rightarrow> js_string option \<Rightarrow> store \<Rightarrow> create_sys \<Rightarrow> bool"
  for sh tok st0 where
  init: "create_reach sh tok st0 \<lparr>page = form_init, srv = st0\<rparr>"
| step: "create_reach sh tok st0 c \<Longrightarrow> create_step sh tok c c' \<Longrightarrow> create_reach sh tok st0 c'"

inductive_cases create_stepE: "create_step sh tok c c'"

text \<open>
  What the system keeps: the store stays well formed and grows only by listings made from
  drafts the page posted, owned by the gate's principal, at most one per post (the post
  in flight not yet counted).
\<close>

definition flow_inv :: "store \<Rightarrow> create_sys \<Rightarrow> bool" where
  "flow_inv st0 c \<longleftrightarrow>
     store_inv (srv c) \<and>
     (\<exists>new. db (srv c) = db st0 @ new \<and>
        length new + (if loading (page c) then 1 else 0) \<le> length (requests (page c)) \<and>
        (\<forall>l \<in> set new. userRef l = ''admin'' \<and>
           (\<exists>d \<in> set (requests (page c)). draft_of_json (draft_to_json d) = Some (draft.truncate l))))"

subsection \<open>Facts about the composition\<close>

lemma app_create_refused:
  "tok \<noteq> Some staticToken \<Longrightarrow> body_parsed b \<Longrightarrow>
   app_handle st (mk_request POST [''api'', ''listing'', ''create''] tok b q) =
     Some (globalErrorHandler (if js_truthy_str tok then errorHandler 403 ''Forbidden''
                               else errorHandler 401 ''Unauthorized''), st)"
  by (cases tok) (auto simp: route_defs)

lemma app_create_request:
  "app_handle st (create_request tok d) =
     Some (if tok = Some staticToken
           then (case createListing_op st ''admin'' (draft_to_json d) of
                   Inl e \<Rightarrow> (globalErrorHandler e, st)
                 | Inr (l, st') \<Rightarrow> (ok_json (ListingJson l), st'))
           else (globalErrorHandler (if js_truthy_str tok then errorHandler 403 ''Forbidden''
                                     else errorHandler 401 ''Unauthorized''), st))"
  by (simp add: create_request_def app_create app_create_refused)

lemma app_create_effect:
  assumes "store_inv st" and "app_handle st (create_request tok d) = Some (resp, st')"
  shows "store_inv st' \<and>
         (st' = st \<or> (\<exists>l. db st' = db st @ [l] \<and> userRef l = ''admin'' \<and>
                         draft_of_json (draft_to_json d) = Some (draft.truncate l)))"
proof (cases "tok = Some staticToken")
  case True
  show ?thesis
  proof (cases "createListing_op st ''admin'' (draft_to_json d)")
    case (Inl e)
    with True assms(2) have "st' = st" by (simp add: app_create_request)
    with assms(1) show ?thesis by simp
  next
    case (Inr r)
    then obtain l st'' where r: "createListing_op st ''admin'' (draft_to_json d) = Inr (l, st'')"
      by (cases r) auto
    with True assms(2) have "st' = st''" by (simp add: app_create_request)
    with createListing_inv [OF assms(1) r] createListing_result [OF assms(1) r] show ?thesis by auto
  qed
next
  case False
  with assms show ?thesis by (simp add: app_create_request)
qed

lemma form_step_post:
  "\<not> network_event e \<Longrightarrow>
   (requests (form_step s e) = requests s \<and> loading (form_step s e) = loading s) \<or>
   (\<not> loading s \<and> loading (form_step s e) \<and> requests (form_step s e) = requests s @ [formData s])"
  by (cases e) (auto simp: form_handler_defs split: option.splits prod.splits sum.splits)

lemma reply_event_ends_loading:
  "loading s \<Longrightarrow>
   \<not> loading (form_step s (reply_event sh resp)) \<and> requests (form_step s (reply_event sh resp)) = requests s"
  by (simp add: reply_event_def submitReply_def split: option.splits)

lemma flow_inv_init: "store_inv st0 \<Longrightarrow> flow_inv st0 \<lparr>page = form_init, srv = st0\<rparr>"
  by (simp add: flow_inv_def form_init_def)

text \<open>The server answering (or not) the post in flight, seen from the invariant.\<close>

lemma flow_inv_settle:
  assumes inv: "flow_inv st0 c" and ld: "loading (page c)"
    and p': "\<not> loading p'" "requests p' = requests (page c)"
    and st': "srv' = srv c \<or> app_handle (srv c) (create_request tok (last (requests (page c)))) = Some (resp, srv')"
  shows "flow_inv st0 \<lparr>page = p', srv = srv'\<rparr>"
proof -
  from inv ld obtain new where si: "store_inv (srv c)" and db: "db (srv c) = db st0 @ new"
    and len: "length new + 1 \<le> length (requests (page c))"
    and from_req: "\<forall>l \<in> set new. userRef l = ''admin'' \<and>
        (\<exists>d \<in> set (requests (page c)). draft_of_json (draft_to_json d) = Some (draft.truncate l))"
    by (auto simp: flow_inv_def)
  have last_in: "last (requests (page c)) \<in> set (requests (page c))"
    using len by (intro last_in_set) auto
  from st' si have "store_inv srv' \<and> (srv' = srv c \<or> (\<exists>l. db srv' = db (srv c) @ [l] \<and> userRef l = ''admin'' \<and>
      draft_of_json (draft_to_json (last (requests (page c)))) = Some (draft.truncate l)))"
    using app_create_effect by blast
  then show ?thesis
  proof (elim conjE disjE exE)
    assume "store_inv srv'" and "srv' = srv c"
    with db len from_req p' show ?thesis by (auto simp: flow_inv_def)
  next
    fix l assume "store_inv srv'" and l: "db srv' = db (srv c) @ [l]" "userRef l = ''admin''"
      "draft_of_json (draft_to_json (last (requests (page c)))) = Some (draft.truncate l)"
    with db len from_req p' last_in show ?thesis
      by (auto simp: flow_inv_def intro!: exI [of _ "new @ [l]"])
  qed
qed

lemma flow_inv_user:
  assumes inv: "flow_inv st0 c" and e: "\<not> network_event e"
  shows "flow_inv st0 (c\<lparr>page := form_step (page c) e\<rparr>)"
  using form_step_post [OF e, of "page c"]
proof (elim disjE conjE)
  assume "requests (form_step (page c) e) = requests (page c)"
    and "loading (form_step (page c) e) = loading (page c)"
  with inv show ?thesis by (simp add: flow_inv_def)
next
  assume "\<not> loading (page c)" and "loading (form_step (page c) e)"
    and "requests (form_step (page c) e) = requests (page c) @ [formData (page c)]"
  with inv show ?thesis by (auto simp: flow_inv_def)
qed

lemma SubmitThrows_ends_loading:
  "loading s \<Longrightarrow> \<not> loading (form_step s SubmitThrows) \<and> requests (form_step s SubmitThrows) = requests s"
  by simp

lemma flow_step_inv: "create_step sh tok c c' \<Longrightarrow> flow_inv st0 c \<Longrightarrow> flow_inv st0 c'"
proof (induction rule: create_step.induct)
  case (user e c)
  from user.prems user.hyps show ?case by (rule flow_inv_user)
next
  case (reply c resp st')
  with reply_event_ends_loading [OF reply.hyps(1)] show ?case
    by (intro flow_inv_settle [where tok = tok and resp = resp]) auto
next
  case (lost_request c)
  with SubmitThrows_ends_loading [OF lost_request.hyps] flow_inv_settle [of st0 c]
  show ?case by (cases c) auto
next
  case (lost_reply c resp st')
  with SubmitThrows_ends_loading [OF lost_reply.hyps(1)] show ?case
    by (intro flow_inv_settle [where tok = tok and resp = resp]) auto
qed

lemma create_reach_inv: "create_reach sh tok st0 c \<Longrightarrow> store_inv st0 \<Longrightarrow> flow_inv st0 c"
  by (induction rule: create_reach.induct) (auto intro: flow_inv_init flow_step_inv)

lemma create_reach_user_run:
  "create_reach sh tok st0 c \<Longrightarrow> \<forall>e \<in> set es. \<not> network_event e \<Longrightarrow>
   create_reach sh tok st0 (c\<lparr>page := form_run (page c) es\<rparr>)"
proof (induction es arbitrary: c)
  case Nil
  then show ?case by simp
next
  case (Cons e es)
  from Cons.prems have "create_reach sh tok st0 (c\<lparr>page := form_step (page c) e\<rparr>)"
    by (auto intro: create_reach.step create_step.user)
  with Cons.prems Cons.IH [of "c\<lparr>page := form_step (page c) e\<rparr>"] show ?case by simp
qed

lemma createListing_op_Inl: "createListing_op st o' b = Inl e \<Longrightarrow> e = err_validation"
  by (auto simp: createListing_op_def Let_def split: option.splits if_splits)

lemma createListing_op_db: "createListing_op st o' b = Inr (l, st') \<Longrightarrow> db st' = db st @ [l]"
  by (auto simp: createListing_op_def Let_def split: option.splits if_splits)

lemma app_create_ok:
  assumes "app_handle st (create_request tok d) = Some (resp, st')" and "status resp = 200"
  shows "tok = Some staticToken \<and>
         (\<exists>l. createListing_op st ''admin'' (draft_to_json d) = Inr (l, st') \<and> resp = ok_json (ListingJson l))"
  using assms
  by (cases "tok = Some staticToken")
     (auto simp: app_create_request ok_json_def err_validation_def dest: createListing_op_Inl
           split: sum.splits if_splits)

lemma app_create_not_ok:
  assumes "app_handle st (create_request tok d) = Some (resp, st')" and "status resp \<noteq> 200"
  shows "st' = st \<and>
         resp = globalErrorHandler
                  (if tok \<noteq> Some staticToken
                   then (if js_truthy_str tok then errorHandler 403 ''Forbidden'' else errorHandler 401 ''Unauthorized'')
                   else err_validation)"
  using assms
  by (cases "tok = Some staticToken")
     (auto simp: app_create_request ok_json_def dest: createListing_op_Inl split: sum.splits)

subsection \<open>An example session\<close>

text \<open>
  The user picks one file, uploads it (the service answers \<open>u\<close>) and submits the
  initial draft with that image, signed in with the static token, on an empty store.
\<close>

definition example_page :: form_state where
  "example_page = form_run form_init [SelectFiles [''a''], ClickUpload, UploadsSettled (\<lambda>_. Some ''u''), Submit]"

definition example_draft :: "jsnum draft" where
  "example_draft = initial_formData\<lparr>imageUrls := [''u'']\<rparr>"

lemma example_page_eval:
  "example_page = form_init\<lparr>files := [''a''], formData := example_draft, loading := True,
                             requests := [example_draft]\<rparr>"
  by (simp add: example_page_def example_draft_def form_init_def initial_formData_def form_handler_defs
      uploadData_def)

lemma example_page_reach: "create_reach sh tok st0 \<lparr>page = example_page, srv = st0\<rparr>"
  using create_reach_user_run [OF create_reach.init,
      where es = "[SelectFiles [''a''], ClickUpload, UploadsSettled (\<lambda>_. Some ''u''), Submit]"]
  by (simp add: example_page_def)

definition example_listing :: listing where
  "example_listing = mk_listing (the (draft_of_json (draft_to_json example_draft))) (dec_string 0) ''admin''"

lemma example_create_at:
  "app_handle st (create_request (Some staticToken) example_draft) =
     Some (ok_json (ListingJson (mk_listing (draft.truncate example_listing) (dec_string (next_id st)) ''admin'')),
           st\<lparr>db := db st @ [mk_listing (draft.truncate example_listing) (dec_string (next_id st)) ''admin''],
              next_id := Suc (next_id st)\<rparr>)"
  by (simp add: app_create_request createListing_op_def example_draft_def initial_formData_def
      draft_to_json_def draft_of_json_def valid_draft_def example_listing_def Let_def)

lemma example_create:
  "app_handle empty_store (create_request (Some staticToken) example_draft) =
     Some (ok_json (ListingJson example_listing), \<lparr>db = [example_listing], next_id = 1\<rparr>)"
proof -
  have "mk_listing (draft.truncate example_listing) (dec_string 0) ''admin'' = example_listing"
    by (simp add: example_listing_def)
  then show ?thesis using example_create_at [of empty_store] by (simp add: empty_store_def)
qed

subsection \<open>Properties of the create flow\<close>

text \<open>
  C22. The server's store refines the page's posts: in every state of a session that
  started on a well-formed store, the store is still well formed and holds the initial
  listings followed only by listings made from drafts the page posted, at most one per
  post, each owned by the gate's principal \<open>admin\<close>, whatever the network lost.
\<close>

theorem create_flow_store:
  assumes "create_reach sh tok st0 c" and "store_inv st0"
  shows "store_inv (srv c) \<and>
         (\<exists>new. db (srv c) = db st0 @ new \<and> length new \<le> length (requests (page c)) \<and>
            (\<forall>l \<in> set new. userRef l = ''admin'' \<and>
               (\<exists>d \<in> set (requests (page c)). draft_of_json (draft_to_json d) = Some (draft.truncate l))))"
proof -
  from create_reach_inv [OF assms] show ?thesis
    unfolding flow_inv_def by (elim conjE exE) (intro conjI exI; auto)
qed

theorem create_flow_store_witness:
  "store_inv (srv \<lparr>page = example_page, srv = empty_store\<rparr>) \<and>
   length (requests (page \<lparr>page = example_page, srv = empty_store\<rparr>)) = 1"
  using create_flow_store [OF example_page_reach [of Bare "Some staticToken" empty_store] store_inv_empty]
  by (simp add: example_page_eval)

text \<open>
  C23. A submission always ends: while the page is \<open>loading\<close>, the server answers the
  post in flight, and whatever it answers (a listing, a refusal, or a page that is not
  JSON) handling the answer clears \<open>loading\<close>, re-enabling the submit button.
\<close>

theorem create_reply_ends_loading:
  assumes "loading (page c)"
  shows "\<exists>resp st'. app_handle (srv c) (create_request tok (last (requests (page c)))) = Some (resp, st') \<and>
           create_step sh tok c \<lparr>page = form_step (page c) (reply_event sh resp), srv = st'\<rparr> \<and>
           \<not> loading (form_step (page c) (reply_event sh resp))"
proof -
  obtain resp st' where a: "app_handle (srv c) (create_request tok (last (requests (page c)))) = Some (resp, st')"
    using app_create_request by (metis surj_pair)
  from create_step.reply [OF assms a] reply_event_ends_loading [OF assms] a show ?thesis by blast
qed

theorem create_reply_ends_loading_witness:
  "\<exists>resp st'. app_handle empty_store (create_request (Some staticToken) example_draft) = Some (resp, st') \<and>
     \<not> loading (form_step example_page (reply_event Envelope resp))"
proof -
  have "loading (page \<lparr>page = example_page, srv = empty_store\<rparr>)" by (simp add: example_page_eval)
  from create_reply_ends_loading [OF this, of "Some staticToken" Envelope] show ?thesis
    by (auto simp: example_page_eval)
qed

text \<open>
  C24. After a successful create the page never opens the new listing. The server
  stores the listing and answers 200. With the specification's envelope the page reads
  \<open>data.success\<close> as true but \<open>data._id\<close> is \<open>undefined\<close> (the record is under
  \<open>data\<close>), so it navigates to \<open>/listing/undefined\<close>; with the bare record,
  \<open>data.success\<close> is \<open>undefined\<close>, so the page stops loading, shows no error and stays
  on the form.
\<close>

theorem create_success_misses_listing:
  assumes "loading s" and "app_handle st (create_request tok d) = Some (resp, st')"
    and "status resp = 200"
  shows "(\<exists>l. payload resp = ListingJson l \<and> db st' = db st @ [l]) \<and>
         navigated (form_step s (reply_event Envelope resp)) = Some ''/listing/undefined'' \<and>
         navigated (form_step s (reply_event Bare resp)) = navigated s \<and>
         error (form_step s (reply_event Bare resp)) = None \<and>
         \<not> loading (form_step s (reply_event Bare resp))"
proof -
  from app_create_ok [OF assms(2,3)] obtain l
    where "createListing_op st ''admin'' (draft_to_json d) = Inr (l, st')" "resp = ok_json (ListingJson l)"
    by blast
  with assms(1) show ?thesis
    by (simp add: createListing_op_db reply_event_def payload_json_def success_body_def read_reply_def
        ok_json_def submitReply_def)
qed

theorem create_success_misses_listing_witness:
  "navigated (form_step example_page (reply_event Envelope (ok_json (ListingJson example_listing)))) =
     Some ''/listing/undefined'' \<and>
   navigated (form_step example_page (reply_event Bare (ok_json (ListingJson example_listing)))) = None"
proof -
  have "loading example_page" by (simp add: example_page_eval)
  from create_success_misses_listing [OF this example_create] show ?thesis
    by (simp add: ok_json_def example_page_eval form_init_def)
qed

text \<open>
  C25. A refused submission is shown with the server's reason: when the server does not
  answer 200, nothing is stored, the page stops loading, stays where it is and shows the
  message of the refusal: \<open>Unauthorized\<close> without a token, \<open>Forbidden\<close> with a wrong
  one, \<open>ValidationError\<close> for a draft the server does not accept.
\<close>

theorem create_refusal_shown:
  assumes "loading s" and "app_handle st (create_request tok d) = Some (resp, st')"
    and "status resp \<noteq> 200"
  shows "st' = st \<and> \<not> loading (form_step s (reply_event sh resp)) \<and>
         navigated (form_step s (reply_event sh resp)) = navigated s \<and>
         error (form_step s (reply_event sh resp)) =
           Some (if tok \<noteq> Some staticToken
                 then (if js_truthy_str tok then ''Forbidden'' else ''Unauthorized'')
                 else ''ValidationError'')"
  using app_create_not_ok [OF assms(2,3)] assms(1)
  by (cases "tok = Some staticToken")
     (auto simp: err_validation_def reply_event_def payload_json_def read_reply_def submitReply_def
           globalErrorHandler_def errorHandler_def)

theorem create_refusal_shown_witness:
  "error (form_step example_page
      (reply_event Envelope (fst (the (app_handle empty_store (create_request None example_draft))))))
     = Some ''Unauthorized''"
proof -
  have ld: "loading example_page" by (simp add: example_page_eval)
  obtain resp st' where a: "app_handle empty_store (create_request None example_draft) = Some (resp, st')"
    using app_create_request by (metis surj_pair)
  then have "status resp \<noteq> 200" by (auto simp: app_create_request)
  from create_refusal_shown [OF ld a this, of Envelope] a show ?thesis by simp
qed

end
