(* ===== verification/Spec2Isabelle.thy ===== *)
theory Spec2Isabelle
  imports Dashboard CreateFlow
begin

text \<open>
  A verification library for the real-estate listing application of this repository:
  an Express backend (\<open>src/api\<close>) and a React client (\<open>src/client/src\<close>).

  \<^bold>\<open>The program.\<close> The client's create page (\<open>pages/CreateListing.jsx\<close>) collects
  a listing draft, uploads images to a hosting service and posts the draft to
  \<open>/api/listing/create\<close>; the admin dashboard (\<open>pages/AdminDashboard.jsx\<close>) lists and
  deletes listings through \<open>/api/admin/listings\<close>; \<open>components/PrivateRoute.jsx\<close>
  guards pages on the client; \<open>utils/api.js\<close> is an axios helper. On the server,
  \<open>api/index.js\<close> mounts the admin router (\<open>routes/admin.route.js\<close>) and the listing
  router (\<open>routes/listing.route.js\<close>), serves the client's page for any other GET and
  renders errors in a global handler. The listing router puts the gate \<open>verifyToken\<close>
  (\<open>utils/verifyUser.js\<close>) in front of create, update and delete; the admin router has
  no gate. Both delegate to \<open>controllers/listing.controller.js\<close>, which is not in the
  repository's \<open>src/\<close>: it is modelled from the specification (section 4.2), as are
  \<open>utils/error.js\<close> and the listing schema.

  \<^bold>\<open>Theories and what they model.\<close>
  \<^item> \<open>Prelude\<close>: JavaScript truthiness on optional strings (\<open>js_truthy_str\<close>,
    \<open>js_or_str\<close>), the index-filter idiom \<open>remove_index\<close> with its take/drop form,
    \<open>Promise.all\<close> over settled promises (\<open>promise_all\<close>).
  \<^item> \<open>JsNumber\<close>: numbers as \<open>JNum int | NaN | PosInf | NegInf\<close> (integer-valued
    doubles, \<open>NaN\<close>, the infinities), \<open>js_less\<close> (\<open><\<close>, false on \<open>NaN\<close>),
    \<open>parseInt\<close> following ECMAScript (white space, sign, \<open>0x\<close> prefix, longest digit
    prefix, \<open>NaN\<close> when there is none, the integer read rounded to the nearest double by
    \<open>number_value\<close>), \<open>js_toString\<close> for integers below \<open>10^21\<close>.
  \<^item> \<open>ListingData\<close>: the draft record \<open>'n draft\<close> with the fields of \<open>formData\<close>
    (\<open>jsnum draft\<close> on the client, \<open>int draft\<close> stored), the stored \<open>listing\<close>, the
    listing invariant \<open>valid_draft\<close>, and the JSON transfer (\<open>NaN\<close> and the infinities become \<open>null\<close>,
    which the server cannot store).
  \<^item> \<open>Json\<close>: JSON values as the clients read them (property access, truthiness,
    template-literal conversion) and the JSON of a stored listing.
  \<^item> \<open>Http\<close>: requests after \<open>cookieParser\<close>, their bodies (absent, a draft, a
    patch, or text that is not JSON, \<open>body_parsed\<close>), error objects,
    responses and their JSON bodies (\<open>payload_json\<close>: the error body of \<open>index.js\<close>;
    the controllers' success bodies either in the specification's envelope or bare,
    \<open>success_shape\<close>), the three endings of a middleware (\<open>Next\<close>, \<open>NextErr\<close>,
    \<open>Sent\<close>), handler chains \<open>run_chain\<close>, the global error handler.
  \<^item> \<open>VerifyUser\<close>: \<open>verifyToken\<close>. C1 only the static secret passes; C2 it binds the
    fixed admin principal and nothing else; C3 refusals are 401 (absent or empty token)
    or 403.
  \<^item> \<open>Listings\<close>: the controller operations over an explicit store (listings in creation
    order and an identifier counter), from the specification; their error cases, the
    store invariant \<open>store_inv\<close> and its preservation by each operation.
  \<^item> \<open>Routes\<close>: Express routing (case-insensitive segment matching, \<open>:id\<close>
    parameters, non-strict trailing slash, routers in order, mounts), the two routers,
    the application \<open>app_handle\<close> whose first layer is \<open>express.json\<close>
    (\<open>json_parser\<close>, \<open>index.js\<close> line 36). A library of lemmas tracks which handler sent a
    response and on a request of which origin (method, path, token), and lifts a
    property of every handler's responses to the application. C4 without the token only
    the admin delete changes the store; C5 every request keeps \<open>store_inv\<close>; C6 error
    envelopes carry their status and change nothing; C7 to C11 the behaviour of the
    create, update, admin-delete and read-many routes, for bodies that
    parse; C30 a body that does not parse is answered 400 before any router or gate.
  \<^item> \<open>CreateListing\<close>: the page as a deterministic machine: the state record of its
    hooks, a datatype of user and completion events, \<open>form_step\<close> with one equation
    per handler (disabled controls deliver nothing), runs and the reachable states
    (inductive). The asynchronous upload keeps the \<open>formData\<close> snapshot of the click;
    \<open>uploadToCloudinary\<close> posts \<open>{file, upload_preset}\<close> to the hosting service, a
    function from that form data to a URL or a rejection, and \<open>Promise.all\<close> joins the
    uploads of one click. C12 image count bounded and posted drafts checked in every
    reachable state; C13 what submit posts; C14 edits made during an upload are lost; C19 the transaction type stays \<open>rent\<close> or \<open>sale\<close>; C20 an upload is
    all or nothing; C21 an upload in flight always ends.
  \<^item> \<open>CreateFlow\<close>: the create page and the server as one system (\<open>create_step\<close>):
    user events, the server answering the post in flight through \<open>app_handle\<close>, the
    network losing the request or the reply. C22 the store grows only by drafts the page
    posted; C23 a submission always ends; C24 a successful create never opens the new
    listing; C25 refusals are shown with the server's reason.
  \<^item> \<open>ClientViews\<close>: \<open>PrivateRoute\<close> (C15), the admin dashboard over the server model,
    its state the JSON value last stored and its render (C16: with bare bodies its list
    stays a subsequence of the stored listings; C26: with the envelope its render throws;
    C27: one card per listing with an empty heading, and each Delete button deletes its
    listing), \<open>utils/api.js\<close> (C17: its helpers reach no API route).
  \<^item> \<open>Dashboard\<close>: the dashboard as an asynchronous system (\<open>dash_step\<close>): the mount's
    fetch, Delete clicks, and replies delivered in any order. C28 under every
    interleaving the list refines the store, exactly when no reply is in flight. With
    other clients of the store (\<open>dash_env_step\<close>), C29 a row whose listing another
    client deleted stays on screen until a reload, whatever the dashboard does. Without
    clicks its own steps (\<open>dash_auto\<close>: the once-only fetch and the continuations)
    terminate, C31 (the measure \<open>dash_work\<close>: two for a fetch not yet sent, one per
    reply in flight), and C32 every such run has at most \<open>dash_work\<close> steps and
    ends, when no own step is left, mounted with no reply in flight.
  \<^item> This theory: C18, the client's submit check against the server's validation.

  \<^bold>\<open>Choices and bounds.\<close> Every number of the form comes from an integer literal or
  \<open>parseInt\<close>, so it is \<open>NaN\<close>, an infinity or a double with an integer value; a
  \<open>JNum i\<close> holds that value exactly, and \<open>parseInt\<close> rounds what it reads as
  ECMAScript does (ties to even at 53 bits, an infinity from \<open>2^1024\<close> on), so values
  the user types beyond \<open>2^53\<close> are modelled as JavaScript holds them. Negative zero is
  identified with zero. \<open>js_toString\<close> is the decimal form, which JavaScript uses below
  \<open>10^21\<close>; the client converts only strings with it. White space for
  \<open>parseInt\<close> is the ASCII set (characters are bytes here). No loop of the code needs
  fuel: routing recurses over finite route lists, the form over finite event lists, and
  the dashboard's own steps decrease a natural-number measure (C31). The
  default page size of read-many is 9 (\<open>default_limit\<close>); the specification only says
  there is a default, and every theorem holds whatever its value. The
  controllers' success bodies are not in the repository: properties of the clients that
  depend on them are stated for the envelope of the specification and for the bare
  result, or for the one named. In the composed systems the server handles a request when
  it is sent; the create page is the store's only client, the dashboard one client among
  others (C29); replies are delivered in any order.

  \<^bold>\<open>Not modelled.\<close> The MongoDB connection and the document store's own behaviour
  (the store is a value; identifiers are decimal strings of a counter), the user and
  auth routers (their files are not in the repository; requests under their prefixes
  are outside \<open>app_handle\<close>), \<open>express.static\<close> (taken to find no file), HEAD
  requests, cookie-parser's JSON cookies, the image hosting service's own behaviour (it
  is a function from the posted form data to a URL or a rejection, given with the
  completion event), the timestamps and version key of stored documents, styling and the
  markup of the pages beyond the dashboard's cards and the enabled controls of the create
  page, the Redux store.

  \<^bold>\<open>Plan for later work.\<close> The \<open>currentUser\<close> read of the create page (a missing
  user makes the body's \<open>userRef\<close> throw); several create pages sharing the store;
  the user and auth routers once their contracts are known.
\<close>

subsection \<open>Properties that span client and server\<close>

text \<open>
  C18. The client's submit check is weaker than the server's validation. Every draft the
  create page has posted has one to six images and a regular price not below the
  discount price; the server still refuses it with 400, storing nothing, exactly when a
  number field held a value \<open>JSON.stringify\<close> sends as \<open>null\<close> (\<open>NaN\<close> from an
  emptied number input, or an infinity from a number too large for a double) or the
  draft is an offer whose discount equals its regular price.
\<close>

theorem client_submission_server_verdict:
  assumes "form_reachable s" and "d \<in> set (requests s)"
  shows "app_handle st (mk_request POST [''api'', ''listing'', ''create''] (Some staticToken)
            (DraftBody (draft_to_json d)) q) =
           Some (\<lparr>status = 400, payload = ErrorJson False 400 ''ValidationError''\<rparr>, st) \<longleftrightarrow>
         ((\<exists>x \<in> {bedrooms d, bathrooms d, regularPrice d, discountPrice d}. json_num x = None) \<or>
          (offer d \<and> regularPrice d = discountPrice d))"
proof -
  from form_reachable_inv [OF assms(1)] assms(2)
  have ok: "submit_ok d" "length (imageUrls d) \<le> 6" by (auto simp: form_inv_def list_all_iff)
  show ?thesis
  proof (cases "draft_of_json (draft_to_json d)")
    case None
    then have "\<exists>x \<in> {bedrooms d, bathrooms d, regularPrice d, discountPrice d}. json_num x = None"
      by (auto simp: draft_of_json_to_json split: jsnum.splits)
    with None show ?thesis by (simp add: app_create_rejected_iff createListing_op_def)
  next
    case (Some d')
    then obtain bd ba rp dp where nums: "bedrooms d = JNum bd" "bathrooms d = JNum ba"
        "regularPrice d = JNum rp" "discountPrice d = JNum dp"
      by (auto simp: draft_of_json_to_json split: jsnum.splits)
    with Some have d': "imageUrls d' = imageUrls d" "offer d' = offer d"
        "regularPrice d' = rp" "discountPrice d' = dp"
      by (auto simp: draft_of_json_to_json)
    from ok nums have "1 \<le> length (imageUrls d)" "dp \<le> rp" by (auto simp: submit_ok_def)
    with createListing_rejects_iff [OF Some] ok(2) nums d' show ?thesis
      by (auto simp: app_create_rejected_iff)
  qed
qed

theorem client_submission_server_verdict_witness:
  "app_handle empty_store (mk_request POST [''api'', ''listing'', ''create''] (Some staticToken)
      (DraftBody (draft_to_json (initial_formData\<lparr>imageUrls := [''a.png''], offer := True,
                                                   discountPrice := JNum 50\<rparr>))) no_query) =
     Some (\<lparr>status = 400, payload = ErrorJson False 400 ''ValidationError''\<rparr>, empty_store)"
proof -
  let ?s = "form_run form_init [SelectFiles [''a.png''], ClickUpload, UploadsSettled (\<lambda>d. Some (snd (hd d))),
              ChangeCheckbox Offer True, ChangeNumber DiscountPrice ''50'', Submit]"
  let ?d = "initial_formData\<lparr>imageUrls := [''a.png''], offer := True, discountPrice := JNum 50\<rparr>"
  have r: "form_reachable ?s" by (rule form_run_reachable [OF form_reachable.init])
  have "requests ?s = [?d]"
    by (simp add: form_init_def initial_formData_def form_handler_defs parseInt_def
        strip_sign_def js_ws_def strip_radix_prefix_def digit_val_def digits_value_def uploadData_def)
  then have "?d \<in> set (requests ?s)" by simp
  from client_submission_server_verdict [OF r this, of empty_store no_query] show ?thesis
    by (simp add: initial_formData_def)
qed

end
